(* ===== verification/Prelude.thy ===== *)
theory Prelude
  imports "HOL-Library.Word" "HOL-Library.Sublist" "HOL-Library.Char_ord" "HOL-Library.List_Lexorder"
begin

text \<open>
  Shared vocabulary of the development: bytes and strings, the faults a Rust function can
  end with, scripts of external calls with early return, and the theorem collections the
  component theories fill.

  A byte (Rust \<open>u8\<close>) is a HOL \<^typ>\<open>char\<close>, which is exactly an 8-bit value (\<open>of_char\<close> and
  \<open>char_of\<close> are its numeric reading); a Rust \<open>String\<close> or \<open>&str\<close> is, as in Rust, the list
  of its UTF-8 bytes, so \<open>as_bytes\<close> and \<open>into_bytes\<close> are the identity and equality of
  strings is equality of their bytes.
\<close>

type_synonym bytes = "char list"
type_synonym u16 = "16 word"

abbreviation byte_val :: "char \<Rightarrow> nat" where
  "byte_val c \<equiv> of_char c"

abbreviation byte_of :: "nat \<Rightarrow> char" where
  "byte_of n \<equiv> char_of n"

named_theorems script_simps \<open>unfolding rules of call scripts\<close>

section \<open>Faults and scripts of external calls\<close>

text \<open>
  How a Rust function that does not return normally ends: \<open>Bail e\<close> is an \<open>Err(e)\<close> passed on
  by \<open>?\<close> or built with \<open>anyhow!\<close>; \<open>Panic m\<close> is a panic (a failed \<open>expect\<close>, an index
  or a slice operation outside its domain), where \<open>m\<close> is the message given in the code.
\<close>

datatype fault = Bail string | Panic string

text \<open>
  A script is a stretch of code that calls out of the program: it takes the list of the
  calls made so far and returns its result and the extended list. Which calls fail is
  decided by an environment \<open>env\<close>: \<open>env c = None\<close> when the call \<open>c\<close> succeeds,
  \<open>env c = Some e\<close> when it returns \<open>Err(e)\<close>, which the code passes on with \<open>?\<close>.
\<close>

type_synonym ('c, 'a) script = "'c list \<Rightarrow> (fault + 'a) \<times> 'c list"

definition return_ok :: "'a \<Rightarrow> ('c, 'a) script" where
  "return_ok v = (\<lambda>tr. (Inr v, tr))"

definition return_fault :: "fault \<Rightarrow> ('c, 'a) script" where
  "return_fault e = (\<lambda>tr. (Inl e, tr))"

definition call :: "('c \<Rightarrow> string option) \<Rightarrow> 'c \<Rightarrow> ('c, 'a) script \<Rightarrow> ('c, 'a) script" where
  "call env c k = (\<lambda>tr. case env c of
       Some e \<Rightarrow> (Inl (Bail e), tr @ [c])
     | None \<Rightarrow> k (tr @ [c]))"

lemma return_ok_apply [script_simps]: "return_ok v tr = (Inr v, tr)"
  by (simp add: return_ok_def)

lemma return_fault_apply [script_simps]: "return_fault e tr = (Inl e, tr)"
  by (simp add: return_fault_def)

lemma call_ok [script_simps]: "env c = None \<Longrightarrow> call env c k tr = k (tr @ [c])"
  by (simp add: call_def)

lemma call_err [script_simps]: "env c = Some e \<Longrightarrow> call env c k tr = (Inl (Bail e), tr @ [c])"
  by (simp add: call_def)

text \<open>An event that cannot fail, or whose failure the code ignores.\<close>

definition event :: "'c \<Rightarrow> ('c, 'a) script \<Rightarrow> ('c, 'a) script" where
  "event c k = (\<lambda>tr. k (tr @ [c]))"

lemma event_apply [script_simps]: "event c k tr = k (tr @ [c])"
  by (simp add: event_def)

text \<open>A call whose failure is a panic: \<open>.expect(m)\<close> on its result.\<close>

definition expect_call :: "('c \<Rightarrow> string option) \<Rightarrow> 'c \<Rightarrow> string \<Rightarrow> ('c, 'a) script \<Rightarrow> ('c, 'a) script" where
  "expect_call env c m k = (\<lambda>tr. case env c of
       Some _ \<Rightarrow> (Inl (Panic m), tr @ [c])
     | None \<Rightarrow> k (tr @ [c]))"

lemma expect_call_ok [script_simps]: "env c = None \<Longrightarrow> expect_call env c m k tr = k (tr @ [c])"
  by (simp add: expect_call_def)

lemma expect_call_err [script_simps]:
  "env c = Some e \<Longrightarrow> expect_call env c m k tr = (Inl (Panic m), tr @ [c])"
  by (simp add: expect_call_def)

text \<open>A run of events, one per element of a list.\<close>

fun events :: "('x \<Rightarrow> 'c) \<Rightarrow> 'x list \<Rightarrow> ('c, 'a) script \<Rightarrow> ('c, 'a) script" where
  "events f [] k = k"
| "events f (x # xs) k = event (f x) (events f xs k)"

lemma events_apply [script_simps]: "events f xs k tr = k (tr @ map f xs)"
  by (induction xs arbitrary: tr) (simp_all add: script_simps)

text \<open>
  Reasoning about scripts: a property of the final result and trace is proved from a
  property of every way the script can stop. \<open>stops s P tr\<close> says that \<open>s\<close>, started after
  \<open>tr\<close>, ends in a result and trace that satisfy \<open>P\<close>.
\<close>

definition stops :: "('c, 'a) script \<Rightarrow> ((fault + 'a) \<Rightarrow> 'c list \<Rightarrow> bool) \<Rightarrow> 'c list \<Rightarrow> bool" where
  "stops s P tr \<longleftrightarrow> (case s tr of (r, tr') \<Rightarrow> P r tr')"

named_theorems stops_rules \<open>verification conditions of scripts\<close>

lemma stops_return_ok [stops_rules]: "P (Inr v) tr \<Longrightarrow> stops (return_ok v) P tr"
  by (simp add: stops_def return_ok_def)

lemma stops_return_fault [stops_rules]: "P (Inl e) tr \<Longrightarrow> stops (return_fault e) P tr"
  by (simp add: stops_def return_fault_def)

lemma stops_call [stops_rules]:
  "(\<And>e. env c = Some e \<Longrightarrow> P (Inl (Bail e)) (tr @ [c])) \<Longrightarrow>
   (env c = None \<Longrightarrow> stops k P (tr @ [c])) \<Longrightarrow> stops (call env c k) P tr"
  by (simp add: stops_def call_def split: option.split)

lemma stops_event [stops_rules]: "stops k P (tr @ [c]) \<Longrightarrow> stops (event c k) P tr"
  by (simp add: stops_def event_def)

lemma stops_expect_call [stops_rules]:
  "(\<And>e. env c = Some e \<Longrightarrow> P (Inl (Panic m)) (tr @ [c])) \<Longrightarrow>
   (env c = None \<Longrightarrow> stops k P (tr @ [c])) \<Longrightarrow> stops (expect_call env c m k) P tr"
  by (simp add: stops_def expect_call_def split: option.split)

lemma stops_if [stops_rules]:
  "(b \<Longrightarrow> stops s P tr) \<Longrightarrow> (\<not> b \<Longrightarrow> stops t P tr) \<Longrightarrow> stops (if b then s else t) P tr"
  by simp

lemma stops_option [stops_rules]:
  "(x = None \<Longrightarrow> stops s P tr) \<Longrightarrow> (\<And>v. x = Some v \<Longrightarrow> stops (t v) P tr) \<Longrightarrow>
     stops (case x of None \<Rightarrow> s | Some v \<Rightarrow> t v) P tr"
  by (cases x) simp_all

lemma stops_sum [stops_rules]:
  "(\<And>e. x = Inl e \<Longrightarrow> stops (s e) P tr) \<Longrightarrow> (\<And>v. x = Inr v \<Longrightarrow> stops (t v) P tr) \<Longrightarrow>
     stops (case x of Inl e \<Rightarrow> s e | Inr v \<Rightarrow> t v) P tr"
  by (cases x) simp_all

lemma stops_prod [stops_rules]:
  "(\<And>a b. x = (a, b) \<Longrightarrow> stops (s a b) P tr) \<Longrightarrow> stops (case x of (a, b) \<Rightarrow> s a b) P tr"
  by (cases x) simp

lemma stops_result: "stops s P tr \<Longrightarrow> s tr = (r, tr') \<Longrightarrow> P r tr'"
  by (simp add: stops_def)

text \<open>
  A script run inside another one: its calls are recorded under \<open>f\<close>, and the caller goes on
  with its result, whether that is a value or a fault.
\<close>

definition sub_script ::
  "('d \<Rightarrow> 'c) \<Rightarrow> ('d, 'a) script \<Rightarrow> (fault + 'a \<Rightarrow> ('c, 'b) script) \<Rightarrow> ('c, 'b) script" where
  "sub_script f s k = (\<lambda>tr. case s [] of (r, calls) \<Rightarrow> k r (tr @ map f calls))"

lemma sub_script_apply [script_simps]:
  "s [] = (r, calls) \<Longrightarrow> sub_script f s k tr = k r (tr @ map f calls)"
  by (simp add: sub_script_def)

lemma stops_sub_script [stops_rules]:
  "(\<And>r calls. s [] = (r, calls) \<Longrightarrow> stops (k r) P (tr @ map f calls)) \<Longrightarrow>
     stops (sub_script f s k) P tr"
  by (cases "s []") (simp add: stops_def sub_script_def)

lemma stops_fault [stops_rules]:
  "(\<And>e. x = Bail e \<Longrightarrow> stops (s e) P tr) \<Longrightarrow> (\<And>m. x = Panic m \<Longrightarrow> stops (t m) P tr) \<Longrightarrow>
     stops (case x of Bail e \<Rightarrow> s e | Panic m \<Rightarrow> t m) P tr"
  by (cases x) simp_all

end
