(* ===== verification/Core_Types.thy ===== *)
theory Core_Types
  imports Prelude
begin

text \<open>
  The data of \<open>crates/provably-core/src/lib.rs\<close>: leg claims and their proofs, interior
  proofs, the nodes of a harness receipt, the receipt, the pinned manifest, and the
  verifier's errors. Field and constructor names are the source's, with a suffix where HOL
  already uses the name: \<open>node_id\<close> is \<open>Node.id\<close>, \<open>manifest_ident\<close> is \<open>Manifest.id\<close>, and the
  two \<open>proof\<close> fields are \<open>leg_proof_of\<close> and \<open>node_proof_of\<close>.
\<close>

type_synonym node_ident = string

record leg_claim =
  host :: string
  http_method :: string
  path :: string
  request_digest :: string
  response_digest :: string
  response_status :: u16
  timestamp :: string

datatype leg_proof = NotarySig (proof_pubkey: string) (proof_signature: string)

record leg_attestation =
  claim :: leg_claim
  leg_proof_of :: leg_proof

datatype interior_proof = Recompute (fn_id: string)

datatype node_proof = Leg leg_attestation | Interior interior_proof

record node =
  node_id :: node_ident
  inputs :: "node_ident list"
  output_digest :: string
  node_proof_of :: node_proof

record harness_receipt =
  manifest_id :: string
  nodes :: "node list"
  output_node :: node_ident
  payment_reference :: "string option"

record manifest =
  manifest_ident :: string
  hosts :: "string list"

datatype verify_error = Malformed string | BadKey | BadSignature

text \<open>\<open>impl Display for VerifyError\<close>\<close>

fun verify_error_display :: "verify_error \<Rightarrow> string" where
  "verify_error_display (Malformed what) = ''malformed receipt ('' @ what @ '')''"
| "verify_error_display BadKey = ''invalid notary public key''"
| "verify_error_display BadSignature = ''leg proof did not verify''"

end
