(* ===== verification/Rust_Std.thy ===== *)
theory Rust_Std
  imports Prelude
begin

text \<open>
  The part of the Rust standard library the program uses on slices and strings: windows
  and positions, splitting, Unicode white space trimming, line and word iteration, UTF-8
  checking and lossy decoding, and \<open>from_str_radix\<close>. Each definition follows the documented
  behaviour of the function it is named after; the lemmas are the characterisations the
  component theories use instead of unfolding.
\<close>

section \<open>Slices\<close>

text \<open>\<open>slice::windows(n)\<close> for \<open>n > 0\<close> (with \<open>n = 0\<close> Rust panics; callers check it).\<close>

definition windows :: "nat \<Rightarrow> 'a list \<Rightarrow> 'a list list" where
  "windows n xs = map (\<lambda>i. take n (drop i xs)) [0..<Suc (length xs) - n]"

text \<open>\<open>Iterator::position\<close>.\<close>

fun position :: "('a \<Rightarrow> bool) \<Rightarrow> 'a list \<Rightarrow> nat option" where
  "position P [] = None"
| "position P (x # xs) = (if P x then Some 0 else map_option Suc (position P xs))"

text \<open>\<open>slice::split\<close> on a predicate, with all pieces (there is always at least one).\<close>

fun split_on :: "('a \<Rightarrow> bool) \<Rightarrow> 'a list \<Rightarrow> 'a list list" where
  "split_on P [] = [[]]"
| "split_on P (x # xs) =
     (if P x then [] # split_on P xs
      else (case split_on P xs of [] \<Rightarrow> [[x]] | y # ys \<Rightarrow> (x # y) # ys))"

text \<open>\<open>str::split_once\<close> on an ASCII character.\<close>

fun split_once :: "char \<Rightarrow> string \<Rightarrow> (string \<times> string) option" where
  "split_once c [] = None"
| "split_once c (x # xs) =
     (if x = c then Some ([], xs)
      else map_option (\<lambda>(a, b). (x # a, b)) (split_once c xs))"

lemma position_eq_Some:
  "position P xs = Some i \<longleftrightarrow> i < length xs \<and> P (xs ! i) \<and> (\<forall>j<i. \<not> P (xs ! j))"
proof (induction xs arbitrary: i)
  case (Cons x xs)
  then show ?case
    by (cases i) (auto simp: All_less_Suc2 less_Suc_eq_0_disj)
qed simp

lemma position_eq_None: "position P xs = None \<longleftrightarrow> (\<forall>x \<in> set xs. \<not> P x)"
  by (induction xs) auto

lemma length_windows [simp]: "length (windows n xs) = Suc (length xs) - n"
  by (simp add: windows_def)

lemma nth_windows [simp]:
  "i < Suc (length xs) - n \<Longrightarrow> windows n xs ! i = take n (drop i xs)"
  by (simp add: windows_def)

text \<open>\<open>find_seq pat xs\<close>: where \<open>pat\<close> first occurs, as \<open>windows(pat.len()).position(..)\<close> finds it.\<close>

definition occurs_at :: "'a list \<Rightarrow> 'a list \<Rightarrow> nat \<Rightarrow> bool" where
  "occurs_at pat xs i \<longleftrightarrow> i + length pat \<le> length xs \<and> take (length pat) (drop i xs) = pat"

lemma position_windows_Some:
  "position (\<lambda>w. w = pat) (windows (length pat) xs) = Some i \<longleftrightarrow>
     occurs_at pat xs i \<and> (\<forall>j<i. \<not> occurs_at pat xs j)"
proof -
  have *: "j < Suc (length xs) - length pat \<longleftrightarrow> j + length pat \<le> length xs" for j
    by arith
  show ?thesis
    unfolding position_eq_Some occurs_at_def by (auto simp: *)
qed

lemma position_windows_None:
  "position (\<lambda>w. w = pat) (windows (length pat) xs) = None \<longleftrightarrow> (\<forall>i. \<not> occurs_at pat xs i)"
proof
  assume none: "position (\<lambda>w. w = pat) (windows (length pat) xs) = None"
  show "\<forall>i. \<not> occurs_at pat xs i"
  proof (intro allI notI)
    fix i assume i: "occurs_at pat xs i"
    then have less: "i < Suc (length xs) - length pat"
      unfolding occurs_at_def by linarith
    then have "windows (length pat) xs ! i \<in> set (windows (length pat) xs)"
      by (intro nth_mem) simp
    with none have "windows (length pat) xs ! i \<noteq> pat"
      by (auto simp: position_eq_None)
    with i less show False
      by (simp add: occurs_at_def)
  qed
next
  assume none: "\<forall>i. \<not> occurs_at pat xs i"
  show "position (\<lambda>w. w = pat) (windows (length pat) xs) = None"
  proof (cases "position (\<lambda>w. w = pat) (windows (length pat) xs)")
    case (Some i)
    then have "occurs_at pat xs i"
      by (simp add: position_windows_Some)
    with none show ?thesis by blast
  qed
qed

lemma occurs_at_nth:
  "occurs_at pat xs i \<longleftrightarrow> i + length pat \<le> length xs \<and> (\<forall>t < length pat. xs ! (i + t) = pat ! t)"
  by (auto simp: occurs_at_def list_eq_iff_nth_eq)

lemma occurs_at_split:
  "occurs_at pat xs i \<longleftrightarrow> (\<exists>a b. xs = a @ pat @ b \<and> length a = i)"
proof
  assume "occurs_at pat xs i"
  then have "xs = take i xs @ pat @ drop (i + length pat) xs" and "length (take i xs) = i"
    by (auto simp: occurs_at_def)
      (metis append_take_drop_id drop_drop add.commute)
  then show "\<exists>a b. xs = a @ pat @ b \<and> length a = i" by blast
qed (auto simp: occurs_at_def)

lemma split_on_not_Nil [simp]: "split_on P xs \<noteq> []"
  by (cases xs) (auto split: list.splits)

lemma hd_split_on: "hd (split_on P xs) = takeWhile (\<lambda>x. \<not> P x) xs"
  by (induction xs) (auto split: list.splits)

lemma split_on_append:
  "\<forall>x \<in> set a. \<not> P x \<Longrightarrow> P s \<Longrightarrow> split_on P (a @ s # b) = a # split_on P b"
  by (induction a) auto

lemma split_on_none: "\<forall>x \<in> set a. \<not> P x \<Longrightarrow> split_on P a = [a]"
  by (induction a) auto

lemma split_on_append_sep: "P s \<Longrightarrow> split_on P (a @ s # b) = split_on P a @ split_on P b"
  by (induction a) (auto split: list.split)

lemma split_once_append: "c \<notin> set a \<Longrightarrow> split_once c (a @ c # b) = Some (a, b)"
  by (induction a) auto

lemma split_once_eq_Some: "split_once c s = Some (a, b) \<longleftrightarrow> s = a @ c # b \<and> c \<notin> set a"
proof
  show "split_once c s = Some (a, b) \<Longrightarrow> s = a @ c # b \<and> c \<notin> set a"
    by (induction s arbitrary: a) (auto split: if_splits)
qed (simp add: split_once_append)

lemma split_once_eq_None: "split_once c s = None \<longleftrightarrow> c \<notin> set s"
  by (induction s) auto

section \<open>White space\<close>

text \<open>
  The UTF-8 encodings of the characters with the Unicode property \<open>White_Space\<close>, which is
  what \<open>trim\<close>, \<open>trim_start\<close> and \<open>split_whitespace\<close> use.
\<close>

definition ws_seqs :: "string list" where
  "ws_seqs =
     [[CHR 0x09], [CHR 0x0A], [CHR 0x0B], [CHR 0x0C], [CHR 0x0D], [CHR 0x20],
      [CHR 0xC2, CHR 0x85], [CHR 0xC2, CHR 0xA0], [CHR 0xE1, CHR 0x9A, CHR 0x80]]
     @ map (\<lambda>b. [CHR 0xE2, CHR 0x80, b])
         [CHR 0x80, CHR 0x81, CHR 0x82, CHR 0x83, CHR 0x84, CHR 0x85, CHR 0x86,
          CHR 0x87, CHR 0x88, CHR 0x89, CHR 0x8A, CHR 0xA8, CHR 0xA9, CHR 0xAF]
     @ [[CHR 0xE2, CHR 0x81, CHR 0x9F], [CHR 0xE3, CHR 0x80, CHR 0x80]]"

text \<open>Remove the patterns from the front of the string, as long as one is there.\<close>

function strip_front :: "string list \<Rightarrow> string \<Rightarrow> string" where
  "strip_front ps s =
     (case find (\<lambda>p. p \<noteq> [] \<and> prefix p s) ps of
        None \<Rightarrow> s
      | Some p \<Rightarrow> strip_front ps (drop (length p) s))"
  by pat_completeness auto
termination
  by (relation "measure (\<lambda>(ps, s). length s)") (auto simp: find_Some_iff prefix_def)

declare strip_front.simps [simp del]

definition trim_start :: "string \<Rightarrow> string" where
  "trim_start s = strip_front ws_seqs s"

definition trim_end :: "string \<Rightarrow> string" where
  "trim_end s = rev (strip_front (map rev ws_seqs) (rev s))"

definition trim :: "string \<Rightarrow> string" where
  "trim s = trim_end (trim_start s)"

text \<open>\<open>str::split_whitespace\<close>: the maximal runs of characters that are not white space.\<close>

function split_ws :: "string \<Rightarrow> string \<Rightarrow> string list" where
  "split_ws cur s =
     (case s of
        [] \<Rightarrow> (if cur = [] then [] else [cur])
      | x # xs \<Rightarrow>
          (case find (\<lambda>p. p \<noteq> [] \<and> prefix p s) ws_seqs of
             Some p \<Rightarrow> (if cur = [] then [] else [cur]) @ split_ws [] (drop (length p) s)
           | None \<Rightarrow> split_ws (cur @ [x]) xs))"
  by pat_completeness auto
termination
  by (relation "measure (\<lambda>(cur, s). length s)") (auto simp: find_Some_iff prefix_def)

declare split_ws.simps [simp del]

definition split_whitespace :: "string \<Rightarrow> string list" where
  "split_whitespace s = split_ws [] s"

text \<open>
  Printable ASCII characters are no white space, at the front or at the end: strings over
  them are fixed points of \<^term>\<open>trim\<close>.
\<close>

definition graphic :: "char \<Rightarrow> bool" where
  "graphic c \<longleftrightarrow> 33 \<le> byte_val c \<and> byte_val c \<le> 126"

lemma ws_seqs_ends:
  "p \<in> set ws_seqs \<Longrightarrow> p \<noteq> [] \<and> \<not> graphic (hd p) \<and> \<not> graphic (last p)"
  by (auto simp: ws_seqs_def graphic_def)

lemma strip_front_fix:
  "(\<And>p. p \<in> set ps \<Longrightarrow> p \<noteq> [] \<Longrightarrow> \<not> prefix p s) \<Longrightarrow> strip_front ps s = s"
proof -
  assume no: "\<And>p. p \<in> set ps \<Longrightarrow> p \<noteq> [] \<Longrightarrow> \<not> prefix p s"
  have "find (\<lambda>p. p \<noteq> [] \<and> prefix p s) ps = None"
    using no by (auto simp: find_None_iff)
  then show ?thesis by (simp add: strip_front.simps [of ps s])
qed

lemma trim_start_fix: "s = [] \<or> graphic (hd s) \<Longrightarrow> trim_start s = s"
  unfolding trim_start_def
  by (rule strip_front_fix) (auto dest!: ws_seqs_ends simp: prefix_def)

lemma trim_end_fix: "s = [] \<or> graphic (last s) \<Longrightarrow> trim_end s = s"
proof -
  assume s: "s = [] \<or> graphic (last s)"
  have "strip_front (map rev ws_seqs) (rev s) = rev s"
  proof (rule strip_front_fix)
    fix p assume "p \<in> set (map rev ws_seqs)" and "p \<noteq> []"
    then have p: "\<not> graphic (hd p)" by (auto dest!: ws_seqs_ends simp: hd_rev)
    show "\<not> prefix p (rev s)"
    proof
      assume "prefix p (rev s)"
      then have "rev s \<noteq> []" and "hd (rev s) = hd p"
        using \<open>p \<noteq> []\<close> by (auto simp: prefix_def)
      with s p show False by (auto simp: hd_rev)
    qed
  qed
  then show ?thesis by (simp add: trim_end_def)
qed

lemma trim_fix: "\<forall>c \<in> set s. graphic c \<Longrightarrow> trim s = s"
  by (cases s) (auto simp: trim_def trim_start_fix trim_end_fix)

text \<open>Leading ASCII white space is removed one character at a time.\<close>

definition ascii_ws :: "char \<Rightarrow> bool" where
  "ascii_ws c \<longleftrightarrow> c \<in> {CHR 0x09, CHR 0x0A, CHR 0x0B, CHR 0x0C, CHR 0x0D, CHR 0x20}"

lemma find_ws_ascii:
  assumes "ascii_ws c"
  shows "find (\<lambda>p. p \<noteq> [] \<and> prefix p (c # s)) ws_seqs = Some [c]"
    and "find (\<lambda>p. p \<noteq> [] \<and> prefix p (c # s)) (map rev ws_seqs) = Some [c]"
proof -
  have "c = CHR 0x09 \<or> c = CHR 0x0A \<or> c = CHR 0x0B \<or> c = CHR 0x0C \<or> c = CHR 0x0D \<or> c = CHR 0x20"
    using assms by (simp add: ascii_ws_def)
  then show "find (\<lambda>p. p \<noteq> [] \<and> prefix p (c # s)) ws_seqs = Some [c]"
    and "find (\<lambda>p. p \<noteq> [] \<and> prefix p (c # s)) (map rev ws_seqs) = Some [c]"
    by (elim disjE; simp add: ws_seqs_def)+
qed

lemma strip_front_ws_Cons:
  assumes "ascii_ws c"
  shows "strip_front ws_seqs (c # s) = strip_front ws_seqs s"
    and "strip_front (map rev ws_seqs) (c # s) = strip_front (map rev ws_seqs) s"
  by (subst strip_front.simps, simp only: find_ws_ascii [OF assms] option.case, simp)+

lemma strip_front_ascii_ws:
  "\<forall>c \<in> set a. ascii_ws c \<Longrightarrow> strip_front ws_seqs (a @ s) = strip_front ws_seqs s"
  "\<forall>c \<in> set a. ascii_ws c \<Longrightarrow>
     strip_front (map rev ws_seqs) (a @ s) = strip_front (map rev ws_seqs) s"
  by (induction a) (simp_all add: strip_front_ws_Cons)

text \<open>A string whose first and last characters are printable has nothing to trim.\<close>

definition trimmed :: "string \<Rightarrow> bool" where
  "trimmed s \<longleftrightarrow> s = [] \<or> graphic (hd s) \<and> graphic (last s)"

lemma trimmed_graphic: "\<forall>c \<in> set s. graphic c \<Longrightarrow> trimmed s"
  by (cases s) (auto simp: trimmed_def)

lemma trim_padded:
  assumes "\<forall>c \<in> set a. ascii_ws c" and "\<forall>c \<in> set b. ascii_ws c" and "trimmed s"
  shows "trim (a @ s @ b) = s"
proof (cases "s = []")
  case True
  have "trim_start (a @ b) = []"
    using strip_front_ascii_ws(1) [of "a @ b" "[]"] assms
    by (simp add: trim_start_def ball_Un strip_front_fix)
  with True show ?thesis
    by (simp add: trim_def trim_end_fix)
next
  case False
  have "trim_start (a @ s @ b) = trim_start (s @ b)"
    using strip_front_ascii_ws(1) [OF assms(1)] by (simp add: trim_start_def)
  also have "\<dots> = s @ b"
    using False assms(3) by (intro trim_start_fix) (simp add: trimmed_def)
  finally have "trim (a @ s @ b) = trim_end (s @ b)"
    by (simp add: trim_def)
  also have "\<dots> = trim_end s"
    using strip_front_ascii_ws(2) [of "rev b" "rev s"] assms(2) by (simp add: trim_end_def)
  also have "\<dots> = s"
    using False assms(3) by (intro trim_end_fix) (simp add: trimmed_def)
  finally show ?thesis .
qed

end
