(* ===== verification/Crates.thy ===== *)
theory Crates
  imports Core_Types Rust_Std
begin

text \<open>
  The third-party crates the program calls, as parameters of the model: \<^emph>\<open>no\<close> definition of
  theirs is given here. Every function that uses them takes the record of the functions it
  may call (\<open>libs\<close>: \<open>sha2\<close>, \<open>hex\<close>, \<open>base64\<close>, \<open>ed25519_dalek\<close> and the \<open>serde_json\<close> codecs of
  the program's own types; \<open>json_lib\<close>: dynamic \<open>serde_json::Value\<close>s). What the program
  relies on is stated as a named law per crate, used as a hypothesis only where it is
  needed; \<open>Reference_Crates\<close> exhibits concrete functions that satisfy all of them.
\<close>

section \<open>Hashing, encodings, signatures and typed JSON\<close>

record libs =
  sha256 :: "bytes \<Rightarrow> bytes"  \<comment> \<open>\<open>Sha256::digest\<close>\<close>
  hex_encode :: "bytes \<Rightarrow> string"
  hex_decode :: "string \<Rightarrow> bytes option"
  b64_encode :: "bytes \<Rightarrow> string"  \<comment> \<open>engine \<open>URL_SAFE_NO_PAD\<close>\<close>
  b64_decode :: "string \<Rightarrow> bytes option"
  vk_from_bytes :: "bytes \<Rightarrow> bytes option"  \<comment> \<open>\<open>VerifyingKey::from_bytes\<close>; a key is its 32 bytes\<close>
  vk_verify :: "bytes \<Rightarrow> bytes \<Rightarrow> bytes \<Rightarrow> bool"  \<comment> \<open>key, message, signature bytes: \<open>is_ok()\<close>\<close>
  sk_public :: "bytes \<Rightarrow> bytes"  \<comment> \<open>\<open>SigningKey::verifying_key().to_bytes()\<close>\<close>
  sk_sign :: "bytes \<Rightarrow> bytes \<Rightarrow> bytes"  \<comment> \<open>\<open>SigningKey::sign(msg).to_bytes()\<close>\<close>
  claim_to_json :: "leg_claim \<Rightarrow> bytes"
  receipt_to_json :: "harness_receipt \<Rightarrow> bytes"
  receipt_from_json :: "bytes \<Rightarrow> harness_receipt option"
  attestation_to_json :: "leg_attestation \<Rightarrow> bytes"
  attestation_from_json :: "bytes \<Rightarrow> leg_attestation option"
  string_map_to_json :: "(string \<times> string) list \<Rightarrow> bytes"  \<comment> \<open>of a \<open>BTreeMap\<close>, in key order\<close>
  string_map_from_json :: "bytes \<Rightarrow> (string \<times> string) list option"

text \<open>The documented laws.\<close>

definition sha256_law :: "libs \<Rightarrow> bool" where
  "sha256_law L \<longleftrightarrow> (\<forall>b. length (sha256 L b) = 32)"

definition hex_law :: "libs \<Rightarrow> bool" where
  "hex_law L \<longleftrightarrow> (\<forall>b. hex_decode L (hex_encode L b) = Some b)"

text \<open>URL-safe base64 without padding: letters, digits, \<open>-\<close> and \<open>_\<close>, all printable ASCII.\<close>

definition base64_law :: "libs \<Rightarrow> bool" where
  "base64_law L \<longleftrightarrow>
     (\<forall>b. b64_decode L (b64_encode L b) = Some b \<and> (\<forall>c \<in> set (b64_encode L b). graphic c))"

definition ed25519_law :: "libs \<Rightarrow> bool" where
  "ed25519_law L \<longleftrightarrow>
     (\<forall>sk. length sk = 32 \<longrightarrow>
        length (sk_public L sk) = 32 \<and> vk_from_bytes L (sk_public L sk) = Some (sk_public L sk)
        \<and> (\<forall>m. length (sk_sign L sk m) = 64 \<and> vk_verify L (sk_public L sk) m (sk_sign L sk m)))"

text \<open>A derived serializer keeps every field, so different claims have different JSON.\<close>

definition claim_json_law :: "libs \<Rightarrow> bool" where
  "claim_json_law L \<longleftrightarrow> (\<forall>c c'. claim_to_json L c = claim_to_json L c' \<longrightarrow> c = c')"

definition receipt_json_law :: "libs \<Rightarrow> bool" where
  "receipt_json_law L \<longleftrightarrow> (\<forall>r. receipt_from_json L (receipt_to_json L r) = Some r)"

definition attestation_json_law :: "libs \<Rightarrow> bool" where
  "attestation_json_law L \<longleftrightarrow> (\<forall>a. attestation_from_json L (attestation_to_json L a) = Some a)"

definition string_map_json_law :: "libs \<Rightarrow> bool" where
  "string_map_json_law L \<longleftrightarrow>
     (\<forall>m. sorted_wrt (<) (map fst m) \<longrightarrow> string_map_from_json L (string_map_to_json L m) = Some m)"

lemma hex_roundtrip [simp]: "hex_law L \<Longrightarrow> hex_decode L (hex_encode L b) = Some b"
  by (simp add: hex_law_def)

lemma hex_encode_inject: "hex_law L \<Longrightarrow> hex_encode L a = hex_encode L b \<longleftrightarrow> a = b"
  by (metis hex_roundtrip option.inject)

lemma base64_roundtrip [simp]: "base64_law L \<Longrightarrow> b64_decode L (b64_encode L b) = Some b"
  by (simp add: base64_law_def)

lemma base64_graphic: "base64_law L \<Longrightarrow> \<forall>c \<in> set (b64_encode L b). graphic c"
  by (simp add: base64_law_def)

section \<open>Dynamic JSON values\<close>

text \<open>
  \<open>serde_json::Value\<close> with the operations the program applies to it. \<open>jkey v k\<close> and
  \<open>jpos v i\<close> are the reading index operators \<open>v[k]\<close> and \<open>v[i]\<close> (total: \<open>Null\<close> when there
  is nothing); \<open>jget_key\<close> and \<open>jget_pos\<close> are \<open>get_mut\<close> (\<open>None\<close> when there is nothing), with
  \<open>jput_key\<close> and \<open>jput_pos\<close> replacing what they point to; \<open>jassign v k x\<close> is the assignment
  \<open>v[k] = x\<close>, which panics (\<open>None\<close>) when \<open>v\<close> is neither an object nor \<open>Null\<close>.
\<close>

record 'v json_lib =
  jparse :: "bytes \<Rightarrow> 'v option"  \<comment> \<open>\<open>serde_json::from_slice::<Value>\<close>\<close>
  jrender :: "'v \<Rightarrow> bytes"  \<comment> \<open>\<open>serde_json::to_vec(&Value)\<close>\<close>
  jkey :: "'v \<Rightarrow> string \<Rightarrow> 'v"
  jpos :: "'v \<Rightarrow> nat \<Rightarrow> 'v"
  jas_str :: "'v \<Rightarrow> string option"
  jget_key :: "'v \<Rightarrow> string \<Rightarrow> 'v option"
  jget_pos :: "'v \<Rightarrow> nat \<Rightarrow> 'v option"
  jput_key :: "'v \<Rightarrow> string \<Rightarrow> 'v \<Rightarrow> 'v"
  jput_pos :: "'v \<Rightarrow> nat \<Rightarrow> 'v \<Rightarrow> 'v"
  jassign :: "'v \<Rightarrow> string \<Rightarrow> 'v \<Rightarrow> 'v option"
  jstring :: "string \<Rightarrow> 'v"
  jnumber :: "nat \<Rightarrow> 'v"
  jarray :: "'v list \<Rightarrow> 'v"
  jobject :: "(string \<times> 'v) list \<Rightarrow> 'v"

end
