(* ===== verification/Core.thy ===== *)
theory Core
  imports Crates
begin

text \<open>
  The functions of \<open>crates/provably-core/src/lib.rs\<close>: the canonical digest, the signing
  message of a leg claim, the self-check of a leg attestation, and the header form of a
  receipt. The header codec is the first instance of the interface \<open>header_codec\<close>, which
  collects what the two ends of the HTTP exchange rely on.
\<close>

section \<open>Digests and signing messages\<close>

definition DOMAIN :: bytes where
  "DOMAIN = ''provably/leg-attestation/v1''"

definition sha256_hex :: "libs \<Rightarrow> bytes \<Rightarrow> string" where
  "sha256_hex L bs = hex_encode L (sha256 L bs)"

definition signing_message :: "libs \<Rightarrow> leg_claim \<Rightarrow> bytes" where
  "signing_message L c =
     (let json = claim_to_json L c;
          m = DOMAIN;
          m = m @ [CHR 0x00];
          m = m @ json
      in m)"

text \<open>Equal digests are equal bytes or a collision of SHA-256.\<close>

definition sha_collision :: "libs \<Rightarrow> bytes \<Rightarrow> bytes \<Rightarrow> bool" where
  "sha_collision L a b \<longleftrightarrow> a \<noteq> b \<and> sha256 L a = sha256 L b"

lemma sha256_hex_eqD: "hex_law L \<Longrightarrow> sha256_hex L a = sha256_hex L b \<Longrightarrow> a = b \<or> sha_collision L a b"
  by (auto simp: sha256_hex_def sha_collision_def hex_encode_inject)

lemma signing_message_eq_iff:
  "claim_json_law L \<Longrightarrow> signing_message L c = signing_message L c' \<longleftrightarrow> c = c'"
  by (auto simp: signing_message_def claim_json_law_def)

section \<open>The self-check of an attestation\<close>

definition decode_fixed :: "libs \<Rightarrow> nat \<Rightarrow> string \<Rightarrow> verify_error + bytes" where
  "decode_fixed L n hex_str =
     (case hex_decode L hex_str of
        None \<Rightarrow> Inl (Malformed ''hex'')
      | Some b \<Rightarrow> if length b = n then Inr b else Inl (Malformed ''length''))"

definition verify_proof :: "libs \<Rightarrow> leg_attestation \<Rightarrow> verify_error + unit" where
  "verify_proof L att =
     (case leg_proof_of att of
        NotarySig pubkey signature \<Rightarrow>
          (case decode_fixed L 32 pubkey of
             Inl e \<Rightarrow> Inl e
           | Inr pk \<Rightarrow>
               (case vk_from_bytes L pk of
                  None \<Rightarrow> Inl BadKey
                | Some vk \<Rightarrow>
                    (case decode_fixed L 64 signature of
                       Inl e \<Rightarrow> Inl e
                     | Inr sig \<Rightarrow>
                         if vk_verify L vk (signing_message L (claim att)) sig
                         then Inr () else Inl BadSignature))))"

definition notary_pubkey :: "leg_attestation \<Rightarrow> string option" where
  "notary_pubkey att = (case leg_proof_of att of NotarySig pubkey _ \<Rightarrow> Some pubkey)"

text \<open>\<open>Result::is_ok\<close>\<close>

definition is_ok :: "'e + 'a \<Rightarrow> bool" where
  "is_ok r = (case r of Inl _ \<Rightarrow> False | Inr _ \<Rightarrow> True)"

lemma is_ok_simps [simp]: "is_ok (Inr x)" "\<not> is_ok (Inl e)"
  by (simp_all add: is_ok_def)

lemma is_ok_iff: "is_ok r \<longleftrightarrow> (\<exists>x. r = Inr x)"
  by (cases r) simp_all

lemma decode_fixed_Inr:
  "decode_fixed L n s = Inr b \<longleftrightarrow> hex_decode L s = Some b \<and> length b = n"
  by (auto simp: decode_fixed_def split: option.splits)

text \<open>
  What a passing self-check says: both hex fields decode to the right lengths, the key is a
  key, and the signature verifies over the claim's signing message.
\<close>

definition signed_under :: "libs \<Rightarrow> bytes \<Rightarrow> leg_attestation \<Rightarrow> bool" where
  "signed_under L pk att \<longleftrightarrow>
     (\<exists>vk sig. hex_decode L (proof_pubkey (leg_proof_of att)) = Some pk \<and> length pk = 32
        \<and> vk_from_bytes L pk = Some vk
        \<and> hex_decode L (proof_signature (leg_proof_of att)) = Some sig \<and> length sig = 64
        \<and> vk_verify L vk (signing_message L (claim att)) sig)"

lemma verify_proof_ok_iff: "is_ok (verify_proof L att) \<longleftrightarrow> (\<exists>pk. signed_under L pk att)"
  by (cases "leg_proof_of att")
    (auto simp: verify_proof_def signed_under_def decode_fixed_def split: option.splits)

lemma notary_pubkey_eq: "notary_pubkey att = Some (proof_pubkey (leg_proof_of att))"
  by (cases "leg_proof_of att") (simp add: notary_pubkey_def)

section \<open>Header form of a receipt\<close>

definition to_header :: "libs \<Rightarrow> harness_receipt \<Rightarrow> string" where
  "to_header L r = b64_encode L (receipt_to_json L r)"

definition from_header :: "libs \<Rightarrow> string \<Rightarrow> verify_error + harness_receipt" where
  "from_header L value =
     (case b64_decode L (trim value) of
        None \<Rightarrow> Inl (Malformed ''base64'')
      | Some json \<Rightarrow>
          (case receipt_from_json L json of
             None \<Rightarrow> Inl (Malformed ''json'')
           | Some r \<Rightarrow> Inr r))"

text \<open>
  The contract of a header codec: under the laws \<open>lawful\<close> of the crates behind it, decoding
  gives back every encoded well-formed value, an encoded value is printable ASCII, and
  decoding only looks at the trimmed header.
\<close>

locale header_codec =
  fixes lawful :: "libs \<Rightarrow> bool"
    and wf :: "'a \<Rightarrow> bool"
    and enc :: "libs \<Rightarrow> 'a \<Rightarrow> string"
    and dec :: "libs \<Rightarrow> string \<Rightarrow> verify_error + 'a"
  assumes dec_enc: "lawful L \<Longrightarrow> wf x \<Longrightarrow> dec L (enc L x) = Inr x"
    and enc_graphic: "lawful L \<Longrightarrow> \<forall>c \<in> set (enc L x). graphic c"
    and dec_trim: "trim s = trim s' \<Longrightarrow> dec L s = dec L s'"
begin

lemma dec_padded:
  assumes "lawful L" and "wf x"
    and "\<forall>c \<in> set a. ascii_ws c" and "\<forall>c \<in> set b. ascii_ws c"
  shows "dec L (a @ enc L x @ b) = Inr x"
proof -
  have "trim (a @ enc L x @ b) = trim (enc L x)"
    using assms enc_graphic by (simp add: trim_padded trim_fix trimmed_graphic)
  then have "dec L (a @ enc L x @ b) = dec L (enc L x)" by (rule dec_trim)
  with assms show ?thesis by (simp add: dec_enc)
qed

lemma enc_inject: "lawful L \<Longrightarrow> wf x \<Longrightarrow> wf y \<Longrightarrow> enc L x = enc L y \<Longrightarrow> x = y"
  by (metis dec_enc sum.inject(2))

end

definition receipt_codec_law :: "libs \<Rightarrow> bool" where
  "receipt_codec_law L \<longleftrightarrow> base64_law L \<and> receipt_json_law L"

interpretation receipt_codec: header_codec receipt_codec_law "\<lambda>_. True" to_header from_header
proof unfold_locales
  fix L and x :: harness_receipt
  assume law: "receipt_codec_law L"
  show "\<forall>c \<in> set (to_header L x). graphic c"
    using law by (simp add: to_header_def receipt_codec_law_def base64_law_def)
  then have "trim (to_header L x) = to_header L x" by (rule trim_fix)
  with law show "from_header L (to_header L x) = Inr x"
    by (simp add: from_header_def) (simp add: to_header_def receipt_codec_law_def receipt_json_law_def)
qed (simp add: from_header_def)

end
