(* ===== verification/Rust_Text.thy ===== *)
theory Rust_Text
  imports Rust_Std
begin

text \<open>
  Text functions of the Rust standard library: ASCII case folding, lines, UTF-8 checking
  (\<open>str::from_utf8\<close>), lossy decoding (\<open>String::from_utf8_lossy\<close>) and unsigned integer
  parsing (\<open>from_str_radix\<close>, \<open>parse\<close>). Lossy decoding is the identity on ASCII, and parsing
  is the inverse of printing in the given radix, below the width's limit.
\<close>

section \<open>ASCII case and lines\<close>

definition ascii_lower :: "char \<Rightarrow> char" where
  "ascii_lower c = (if 65 \<le> byte_val c \<and> byte_val c \<le> 90 then byte_of (byte_val c + 32) else c)"

definition to_ascii_lowercase :: "string \<Rightarrow> string" where
  "to_ascii_lowercase s = map ascii_lower s"

lemma char_eq_byte_val: "c = d \<longleftrightarrow> byte_val c = byte_val d"
  by simp

lemma byte_val_ascii_lower:
  "byte_val (ascii_lower c) =
     (if 65 \<le> byte_val c \<and> byte_val c \<le> 90 then byte_val c + 32 else byte_val c)"
  by (simp add: ascii_lower_def)

lemma ascii_lower_LF:
  "ascii_lower c = CHR 0x0A \<longleftrightarrow> c = CHR 0x0A" "CHR 0x0A = ascii_lower c \<longleftrightarrow> c = CHR 0x0A"
proof -
  show "ascii_lower c = CHR 0x0A \<longleftrightarrow> c = CHR 0x0A"
    unfolding char_eq_byte_val [of _ "CHR 0x0A"] byte_val_ascii_lower by auto
  then show "CHR 0x0A = ascii_lower c \<longleftrightarrow> c = CHR 0x0A" by auto
qed

lemma LF_in_lowercase: "CHR 0x0A \<in> set (to_ascii_lowercase s) \<longleftrightarrow> CHR 0x0A \<in> set s"
  by (induction s) (auto simp: to_ascii_lowercase_def ascii_lower_LF)

text \<open>
  \<open>str::lines\<close>: pieces between line feeds, each without a carriage return before its line
  feed; an empty piece after the last line feed is no line.
\<close>

definition strip_cr :: "string \<Rightarrow> string" where
  "strip_cr l = (if l \<noteq> [] \<and> last l = CHR 0x0D then butlast l else l)"

definition str_lines :: "string \<Rightarrow> string list" where
  "str_lines s =
     (let ps = split_on (\<lambda>c. c = CHR 0x0A) s
      in map strip_cr (butlast ps) @ (if last ps = [] then [] else [last ps]))"

lemma prefix_strip_cr: "prefix (strip_cr l) l"
  by (simp add: strip_cr_def prefixeq_butlast)

lemma str_lines_append: "str_lines (a @ CHR 0x0A # b) = map strip_cr (split_on (\<lambda>c. c = CHR 0x0A) a) @ str_lines b"
  by (simp add: str_lines_def split_on_append_sep Let_def butlast_append)

lemma str_lines_line:
  assumes "CHR 0x0A \<notin> set l"
  shows "str_lines l = (if l = [] then [] else [l])" and "str_lines (l @ CHR 0x0A # b) = strip_cr l # str_lines b"
proof -
  have "split_on (\<lambda>c. c = CHR 0x0A) l = [l]"
    using assms by (intro split_on_none) auto
  then show "str_lines l = (if l = [] then [] else [l])" and "str_lines (l @ CHR 0x0A # b) = strip_cr l # str_lines b"
    by (simp_all add: str_lines_def [of l] str_lines_append)
qed

section \<open>UTF-8\<close>

definition byte_in :: "nat \<Rightarrow> nat \<Rightarrow> bytes \<Rightarrow> nat \<Rightarrow> bool" where
  "byte_in lo hi bs i \<longleftrightarrow> i < length bs \<and> lo \<le> byte_val (bs ! i) \<and> byte_val (bs ! i) \<le> hi"

text \<open>
  The range allowed for the second byte after a three- or four-byte lead (no overlong forms,
  no surrogates, nothing above U+10FFFF).
\<close>

definition second_ok :: "nat \<Rightarrow> bytes \<Rightarrow> bool" where
  "second_ok v bs \<longleftrightarrow>
     (if v = 224 then byte_in 160 191 bs 1
      else if v = 237 then byte_in 128 159 bs 1
      else if v = 240 then byte_in 144 191 bs 1
      else if v = 244 then byte_in 128 143 bs 1
      else byte_in 128 191 bs 1)"

text \<open>
  One step of the decoder at the front of a non-empty byte string: whether a character is
  there, and how many bytes the character, or else the ill-formed piece, takes.
\<close>

definition utf8_step :: "bytes \<Rightarrow> bool \<times> nat" where
  "utf8_step bs =
     (let v = byte_val (hd bs) in
      if v < 128 then (True, 1)
      else if 194 \<le> v \<and> v \<le> 223 then
        (if byte_in 128 191 bs 1 then (True, 2) else (False, 1))
      else if 224 \<le> v \<and> v \<le> 239 then
        (if \<not> second_ok v bs then (False, 1)
         else if byte_in 128 191 bs 2 then (True, 3) else (False, 2))
      else if 240 \<le> v \<and> v \<le> 244 then
        (if \<not> second_ok v bs then (False, 1)
         else if \<not> byte_in 128 191 bs 2 then (False, 2)
         else if byte_in 128 191 bs 3 then (True, 4) else (False, 3))
      else (False, 1))"

lemma utf8_step_pos: "0 < snd (utf8_step bs)"
  by (simp add: utf8_step_def Let_def)

text \<open>\<open>str::from_utf8(bs).is_ok()\<close>\<close>

function utf8_valid :: "bytes \<Rightarrow> bool" where
  "utf8_valid bs =
     (if bs = [] then True
      else if fst (utf8_step bs) then utf8_valid (drop (snd (utf8_step bs)) bs)
      else False)"
  by pat_completeness auto
termination
  by (relation "measure length") (auto simp: utf8_step_pos)

definition from_utf8 :: "bytes \<Rightarrow> string option" where
  "from_utf8 bs = (if utf8_valid bs then Some bs else None)"

text \<open>\<open>String::from_utf8_lossy\<close>: every ill-formed piece becomes U+FFFD.\<close>

definition replacement :: string where
  "replacement = [CHR 0xEF, CHR 0xBF, CHR 0xBD]"

function utf8_lossy :: "bytes \<Rightarrow> string" where
  "utf8_lossy bs =
     (if bs = [] then []
      else (if fst (utf8_step bs) then take (snd (utf8_step bs)) bs else replacement)
           @ utf8_lossy (drop (snd (utf8_step bs)) bs))"
  by pat_completeness auto
termination
  by (relation "measure length") (auto simp: utf8_step_pos)

declare utf8_valid.simps [simp del] utf8_lossy.simps [simp del]

text \<open>Well-formed bytes are decoded to themselves; ASCII bytes are well-formed.\<close>

lemma utf8_lossy_valid: "utf8_valid bs \<Longrightarrow> utf8_lossy bs = bs"
proof (induction bs rule: utf8_valid.induct)
  case (1 bs)
  show ?case
  proof (cases "bs = []")
    case False
    with "1.prems" have "fst (utf8_step bs)" and "utf8_valid (drop (snd (utf8_step bs)) bs)"
      by (simp_all add: utf8_valid.simps [of bs] split: if_splits)
    with False 1 show ?thesis
      by (simp add: utf8_lossy.simps [of bs])
  qed (simp add: utf8_lossy.simps)
qed

definition ascii :: "bytes \<Rightarrow> bool" where
  "ascii bs \<longleftrightarrow> (\<forall>c \<in> set bs. byte_val c < 128)"

lemma utf8_valid_ascii_append: "ascii a \<Longrightarrow> utf8_valid (a @ b) = utf8_valid b"
proof (induction a)
  case (Cons c a)
  then have step: "utf8_step (c # a @ b) = (True, 1)" and "utf8_valid (a @ b) = utf8_valid b"
    by (simp_all add: utf8_step_def ascii_def)
  have "utf8_valid (c # a @ b) = utf8_valid (a @ b)"
    by (subst utf8_valid.simps) (simp add: step)
  then show ?case
    using \<open>utf8_valid (a @ b) = utf8_valid b\<close> by simp
qed simp

lemma utf8_valid_ascii: "ascii bs \<Longrightarrow> utf8_valid bs"
  using utf8_valid_ascii_append [of bs "[]"] by (simp add: utf8_valid.simps)

lemma utf8_lossy_ascii [simp]: "ascii bs \<Longrightarrow> utf8_lossy bs = bs"
  by (simp add: utf8_lossy_valid utf8_valid_ascii)

section \<open>Unsigned integers\<close>

definition digit_value :: "nat \<Rightarrow> char \<Rightarrow> nat option" where
  "digit_value radix c =
     (let v = byte_val c;
          d = (if 48 \<le> v \<and> v \<le> 57 then v - 48
               else if 97 \<le> v \<and> v \<le> 122 then v - 87
               else if 65 \<le> v \<and> v \<le> 90 then v - 55
               else radix)
      in if d < radix then Some d else None)"

text \<open>
  The digits are accumulated with the checked arithmetic of the type: reaching \<open>limit\<close>
  (\<open>2 ^ 16\<close> for \<open>u16\<close>, \<open>2 ^ 64\<close> for \<open>usize\<close>) is an overflow error.
\<close>

fun parse_digits :: "nat \<Rightarrow> nat \<Rightarrow> nat \<Rightarrow> string \<Rightarrow> nat option" where
  "parse_digits radix limit acc [] = Some acc"
| "parse_digits radix limit acc (c # cs) =
     (case digit_value radix c of
        None \<Rightarrow> None
      | Some d \<Rightarrow> if acc * radix + d < limit
                  then parse_digits radix limit (acc * radix + d) cs else None)"

text \<open>\<open>from_str_radix\<close> of an unsigned type: one leading \<open>+\<close> is accepted, no \<open>-\<close>.\<close>

definition parse_uint :: "nat \<Rightarrow> nat \<Rightarrow> string \<Rightarrow> nat option" where
  "parse_uint radix limit s =
     (let ds = (if s \<noteq> [] \<and> hd s = CHR ''+'' then tl s else s)
      in if ds = [] then None else parse_digits radix limit 0 ds)"

definition parse_u16 :: "string \<Rightarrow> u16 option" where
  "parse_u16 s = map_option word_of_nat (parse_uint 10 (2 ^ 16) s)"

lemma parse_digits_bound:
  "parse_digits radix limit acc s = Some n \<Longrightarrow> acc < limit \<Longrightarrow> n < limit"
  by (induction radix limit acc s rule: parse_digits.induct) (auto split: option.splits if_splits)

lemma parse_uint_bound: "0 < limit \<Longrightarrow> parse_uint radix limit s = Some n \<Longrightarrow> n < limit"
  by (auto simp: parse_uint_def Let_def split: if_splits dest: parse_digits_bound)

text \<open>Printing in a radix, and parsing back what was printed.\<close>

definition digit_char :: "nat \<Rightarrow> char" where
  "digit_char d = byte_of (if d < 10 then d + 48 else d + 87)"

fun show_radix :: "nat \<Rightarrow> nat \<Rightarrow> string" where
  "show_radix radix n =
     (if n < radix \<or> radix < 2 then [digit_char n]
      else show_radix radix (n div radix) @ [digit_char (n mod radix)])"

declare show_radix.simps [simp del]

lemma byte_val_digit_char:
  "d < 36 \<Longrightarrow> byte_val (digit_char d) = (if d < 10 then d + 48 else d + 87)"
  by (simp add: digit_char_def)

lemma digit_value_char: "d < radix \<Longrightarrow> radix \<le> 36 \<Longrightarrow> digit_value radix (digit_char d) = Some d"
  by (auto simp: digit_value_def byte_val_digit_char Let_def)

lemma parse_digits_append:
  "parse_digits radix limit acc (a @ b) =
     (case parse_digits radix limit acc a of
        None \<Rightarrow> None | Some n \<Rightarrow> parse_digits radix limit n b)"
  by (induction radix limit acc a rule: parse_digits.induct) (auto split: option.splits)

lemma parse_digits_show:
  "2 \<le> radix \<Longrightarrow> radix \<le> 36 \<Longrightarrow> n < limit \<Longrightarrow>
     parse_digits radix limit 0 (show_radix radix n) = Some n"
proof (induction radix n rule: show_radix.induct)
  case (1 radix n)
  show ?case
  proof (cases "n < radix")
    case True
    with 1 show ?thesis
      by (subst show_radix.simps) (simp add: digit_value_char)
  next
    case False
    have "n div radix < limit"
      using 1 div_le_dividend le_less_trans by blast
    with 1 False have "parse_digits radix limit 0 (show_radix radix (n div radix)) = Some (n div radix)"
      by simp
    moreover have "n mod radix < radix"
      using 1 by simp
    ultimately show ?thesis
      using 1 False
      by (subst show_radix.simps)
        (simp add: parse_digits_append digit_value_char del: mod_less_divisor)
  qed
qed

lemma digit_char_graphic: "d < 36 \<Longrightarrow> graphic (digit_char d) \<and> digit_char d \<noteq> CHR ''+''
    \<and> digit_char d \<noteq> CHR '';'' \<and> byte_val (digit_char d) < 128"
  by (auto simp: graphic_def byte_val_digit_char split: if_splits
      dest!: arg_cong [where f = byte_val])

lemma show_radix_chars:
  "2 \<le> radix \<Longrightarrow> radix \<le> 36 \<Longrightarrow> c \<in> set (show_radix radix n) \<Longrightarrow> \<exists>d<radix. c = digit_char d"
proof (induction radix n rule: show_radix.induct)
  case (1 radix n)
  show ?case
  proof (cases "n < radix")
    case True
    with 1 show ?thesis by (subst (asm) show_radix.simps) auto
  next
    case False
    with 1 have "c \<in> set (show_radix radix (n div radix)) \<or> c = digit_char (n mod radix)"
      by (subst (asm) (2) show_radix.simps) auto
    then show ?thesis
      using 1 False by (auto intro: exI [of _ "n mod radix"])
  qed
qed

lemma show_radix_not_Nil [simp]: "show_radix radix n \<noteq> []"
  by (subst show_radix.simps) simp

lemma parse_uint_show:
  assumes "2 \<le> radix" and "radix \<le> 36" and "n < limit"
  shows "parse_uint radix limit (show_radix radix n) = Some n"
proof -
  have "hd (show_radix radix n) \<in> set (show_radix radix n)" by simp
  then obtain d where "d < radix" and "hd (show_radix radix n) = digit_char d"
    using show_radix_chars assms by blast
  then have "hd (show_radix radix n) \<noteq> CHR ''+''"
    using digit_char_graphic [of d] assms by simp
  then show ?thesis
    using assms by (simp add: parse_uint_def parse_digits_show)
qed

section \<open>Debug output\<close>

text \<open>
  \<open>{:?}\<close> of a string: quotes, with quotes, backslashes and control characters escaped. Bytes
  of other characters are copied, which is what \<open>Debug\<close> does for printable ones.
\<close>

definition debug_byte :: "char \<Rightarrow> string" where
  "debug_byte c =
     (if c = CHR 0x22 \<or> c = CHR 0x5C then [CHR 0x5C, c]
      else if c = CHR 0x09 then [CHR 0x5C, CHR ''t'']
      else if c = CHR 0x0A then [CHR 0x5C, CHR ''n'']
      else if c = CHR 0x0D then [CHR 0x5C, CHR ''r'']
      else if c = CHR 0x00 then [CHR 0x5C, CHR ''0'']
      else if byte_val c < 32 \<or> byte_val c = 127
        then [CHR 0x5C] @ ''u{'' @ show_radix 16 (byte_val c) @ ''}''
      else [c])"

definition quoted :: "string \<Rightarrow> string" where
  "quoted s = [CHR 0x22] @ concat (map debug_byte s) @ [CHR 0x22]"

end
