(* ===== verification/Prover_Session.thy ===== *)
theory Prover_Session
  imports Core Rust_Text
begin

text \<open>
  \<open>run_prover\<close> of \<open>tlsn/reseller/src/main.rs\<close>: the upstream call as the TLSNotary prover, with
  the selective disclosure that keeps the API key from the notary. The session is a script
  of calls; what they yield in a run is the record \<open>prover_env\<close>. The lemmas follow the
  disclosure: which positions of the sent transcript are revealed before anything is proved.
\<close>

section \<open>State of the reseller\<close>

datatype mode = Honest | CheatSubstitute

text \<open>\<open>App\<close>, without the payment handler, which is a parameter of the handlers.\<close>

record app =
  notary_addr :: string
  upstream_host :: string
  api_key :: "string option"
  upstream_headers :: "(string \<times> string) list"
  app_notary_pubkey :: string
  price :: string
  app_mode :: mode

record upstream_request =
  req_uri :: string
  req_method :: string
  req_headers :: "(string \<times> string) list"
  req_body :: bytes

definition build_request :: "app \<Rightarrow> bytes \<Rightarrow> upstream_request" where
  "build_request st body =
     \<lparr>req_uri = ''/v1/messages'',
      req_method = ''POST'',
      req_headers =
        [(''Host'', upstream_host st),
         (''content-type'', ''application/json''),
         (''accept'', ''application/json''),
         (''accept-encoding'', ''identity''),
         (''connection'', ''close'')]
        @ upstream_headers st
        @ (case api_key st of Some key \<Rightarrow> [(''x-api-key'', key)] | None \<Rightarrow> []),
      req_body = body\<rparr>"

section \<open>Selective disclosure\<close>

text \<open>
  The ranges of the sent transcript to reveal. \<open>windows\<close> panics on width \<open>0\<close>, that is, on
  an empty key; a key that does not occur aborts the proof.
\<close>

definition em_dash :: string where
  "em_dash = [CHR 0xE2, CHR 0x80, CHR 0x94]"

definition reveal_plan :: "string option \<Rightarrow> bytes \<Rightarrow> fault + (nat \<times> nat) list" where
  "reveal_plan key sent =
     (case key of
        Some k \<Rightarrow>
          (if length k = 0 then Inl (Panic ''window size must be non-zero'')
           else (case position (\<lambda>w. w = k) (windows (length k) sent) of
                   Some pos \<Rightarrow> Inr [(0, pos), (pos + length k, length sent)]
                 | None \<Rightarrow>
                     Inl (Bail (''aborting proof: could not locate the api-key in the sent ''
                                @ ''transcript to redact it '' @ em_dash @ '' refusing to disclose the request ''
                                @ ''and leak the key to the notary''))))
      | None \<Rightarrow> Inr [(0, length sent)])"

text \<open>The positions in a list of half-open ranges.\<close>

definition positions :: "(nat \<times> nat) list \<Rightarrow> nat set" where
  "positions rs = (\<Union>(a, b) \<in> set rs. {a..<b})"

lemma reveal_plan_key:
  assumes "reveal_plan (Some k) sent = Inr rs"
  shows "\<exists>pos. occurs_at k sent pos \<and> (\<forall>j<pos. \<not> occurs_at k sent j)
           \<and> rs = [(0, pos), (pos + length k, length sent)]
           \<and> positions rs = {..<length sent} - {pos..<pos + length k}"
proof -
  obtain pos where pos: "position (\<lambda>w. w = k) (windows (length k) sent) = Some pos"
      and rs: "rs = [(0, pos), (pos + length k, length sent)]"
    using assms by (auto simp: reveal_plan_def split: if_splits option.splits)
  have "occurs_at k sent pos" and "\<forall>j<pos. \<not> occurs_at k sent j"
    using pos by (simp_all add: position_windows_Some)
  moreover from this have "positions rs = {..<length sent} - {pos..<pos + length k}"
    by (auto simp: rs positions_def occurs_at_def)
  ultimately show ?thesis using rs by blast
qed

lemma reveal_plan_found:
  assumes "k \<noteq> []" and "occurs_at k sent i"
  shows "\<exists>rs. reveal_plan (Some k) sent = Inr rs"
proof (cases "position (\<lambda>w. w = k) (windows (length k) sent)")
  case None
  with assms(2) show ?thesis by (simp add: position_windows_None)
next
  case (Some pos)
  with assms(1) show ?thesis by (simp add: reveal_plan_def)
qed

section \<open>The session\<close>

datatype prover_call =
    ConnectNotary string
  | NotaryNodelay
  | BuildProverConfig
  | NewProver
  | CommitServerName string
  | BuildProxyConfig
  | CommitProxy
  | TlsServerName string
  | BuildTlsConfig
  | ConnectTls
  | Handshake
  | BuildRequest upstream_request
  | SendRequest upstream_request
  | CollectBody
  | JoinProver
  | FinishProver
  | RevealIdentity
  | RevealRecv nat nat
  | RevealSent nat nat
  | BuildProveConfig
  | Prove
  | CloseProver
  | CloseSession
  | JoinSession
  | FinishSession
  | ReadAttestation

record prover_env =
  pv_fails :: "prover_call \<Rightarrow> string option"
  pv_body :: bytes  \<comment> \<open>the response body the HTTP client collected\<close>
  pv_sent :: bytes  \<comment> \<open>\<open>prover.transcript().sent()\<close>\<close>
  pv_received :: bytes  \<comment> \<open>\<open>prover.transcript().received()\<close>\<close>
  pv_attestation :: bytes  \<comment> \<open>what the notary writes to the socket until EOF\<close>
  pv_decode_error :: string  \<comment> \<open>what \<open>serde_json\<close> says of these bytes, if it rejects them\<close>

fun reveal_ranges ::
  "(prover_call \<Rightarrow> string option) \<Rightarrow> (nat \<times> nat) list \<Rightarrow> (prover_call, 'a) script \<Rightarrow> (prover_call, 'a) script"
where
  "reveal_ranges fails [] k = k"
| "reveal_ranges fails ((a, b) # rs) k = call fails (RevealSent a b) (reveal_ranges fails rs k)"

text \<open>From the disclosure to the decoded attestation.\<close>

definition prove_and_read ::
  "libs \<Rightarrow> prover_env \<Rightarrow> app \<Rightarrow> (prover_call, bytes \<times> leg_attestation) script" where
  "prove_and_read L E st =
     event RevealIdentity (
     call (pv_fails E) (RevealRecv 0 (length (pv_received E))) (
     (case reveal_plan (api_key st) (pv_sent E) of
        Inl f \<Rightarrow> return_fault f
      | Inr ranges \<Rightarrow>
          reveal_ranges (pv_fails E) ranges (
          call (pv_fails E) BuildProveConfig (
          call (pv_fails E) Prove (
          call (pv_fails E) CloseProver (
          event CloseSession (
          call (pv_fails E) JoinSession (
          call (pv_fails E) FinishSession (
          call (pv_fails E) ReadAttestation (
          (let buf = pv_attestation E
           in case attestation_from_json L buf of
                None \<Rightarrow> return_fault (Bail (''decoding notary attestation (''
                                            @ show_radix 10 (length buf) @ '' bytes): ''
                                            @ pv_decode_error E))
              | Some leg \<Rightarrow> return_ok (pv_body E, leg)))))))))))))"

definition run_prover ::
  "libs \<Rightarrow> prover_env \<Rightarrow> app \<Rightarrow> bytes \<Rightarrow> (prover_call, bytes \<times> leg_attestation) script" where
  "run_prover L E st body =
     call (pv_fails E) (ConnectNotary (notary_addr st)) (
     call (pv_fails E) NotaryNodelay (
     call (pv_fails E) BuildProverConfig (
     call (pv_fails E) NewProver (
     call (pv_fails E) (CommitServerName (upstream_host st)) (
     call (pv_fails E) BuildProxyConfig (
     call (pv_fails E) CommitProxy (
     call (pv_fails E) (TlsServerName (upstream_host st)) (
     call (pv_fails E) BuildTlsConfig (
     call (pv_fails E) ConnectTls (
     call (pv_fails E) Handshake (
     (let req = build_request st body
      in call (pv_fails E) (BuildRequest req) (
         call (pv_fails E) (SendRequest req) (
         call (pv_fails E) CollectBody (
         call (pv_fails E) JoinProver (
         call (pv_fails E) FinishProver (
         prove_and_read L E st)))))))))))))))))"

text \<open>
  What the calls made so far have put up for disclosure: the sent ranges that were added to
  the proof configuration. They reach the notary only when \<open>Prove\<close> is called.
\<close>

definition sent_ranges :: "prover_call list \<Rightarrow> (nat \<times> nat) list" where
  "sent_ranges tr = List.map_filter (\<lambda>c. case c of RevealSent a b \<Rightarrow> Some (a, b) | _ \<Rightarrow> None) tr"

lemma sent_ranges_append [simp]: "sent_ranges (a @ b) = sent_ranges a @ sent_ranges b"
  by (simp add: sent_ranges_def List.map_filter_def)

definition reveal_call :: "nat \<times> nat \<Rightarrow> prover_call" where
  "reveal_call = (\<lambda>(a, b). RevealSent a b)"

lemma sent_ranges_reveal [simp]: "sent_ranges (map reveal_call rs) = rs"
  by (induction rs) (auto simp: sent_ranges_def List.map_filter_simps reveal_call_def)

lemma stops_reveal_ranges [stops_rules]:
  "(\<And>i e. i < length rs \<Longrightarrow> P (Inl (Bail e)) (tr @ map reveal_call (take (Suc i) rs))) \<Longrightarrow>
   stops k P (tr @ map reveal_call rs) \<Longrightarrow> stops (reveal_ranges fails rs k) P tr"
proof (induction rs arbitrary: tr)
  case (Cons r rs)
  obtain a b where r: "r = (a, b)" by (cases r)
  have "stops (reveal_ranges fails rs k) P (tr @ [RevealSent a b])"
  proof (rule Cons.IH)
    show "P (Inl (Bail e)) ((tr @ [RevealSent a b]) @ map reveal_call (take (Suc i) rs))"
      if "i < length rs" for i e
      using Cons.prems(1) [of "Suc i" e] that by (simp add: r reveal_call_def)
    show "stops k P ((tr @ [RevealSent a b]) @ map reveal_call rs)"
      using Cons.prems(2) by (simp add: r reveal_call_def)
  qed
  moreover have "P (Inl (Bail e)) (tr @ [RevealSent a b])" for e
    using Cons.prems(1) [of 0 e] by (simp add: r reveal_call_def)
  ultimately show ?case
    by (simp add: r stops_call)
qed simp

text \<open>The calls before the disclosure.\<close>

definition before_disclosure :: "app \<Rightarrow> bytes \<Rightarrow> prover_env \<Rightarrow> prover_call list" where
  "before_disclosure st body E =
     [ConnectNotary (notary_addr st), NotaryNodelay, BuildProverConfig, NewProver,
      CommitServerName (upstream_host st), BuildProxyConfig, CommitProxy,
      TlsServerName (upstream_host st), BuildTlsConfig, ConnectTls, Handshake,
      BuildRequest (build_request st body), SendRequest (build_request st body), CollectBody,
      JoinProver, FinishProver, RevealIdentity, RevealRecv 0 (length (pv_received E))]"

text \<open>
  How a session can end: somewhere before the proof, having put up at most a part of the
  plan; or after the complete plan was put up and the proof was made, with or without an
  attestation.
\<close>

definition prover_ends ::
  "libs \<Rightarrow> prover_env \<Rightarrow> app \<Rightarrow> bytes \<Rightarrow> fault + bytes \<times> leg_attestation \<Rightarrow> prover_call list \<Rightarrow> bool" where
  "prover_ends L E st body r tr \<longleftrightarrow>
     (Prove \<notin> set tr \<and> (\<exists>f. r = Inl f) \<and>
        (sent_ranges tr = [] \<or>
         (\<exists>rs. reveal_plan (api_key st) (pv_sent E) = Inr rs \<and> prefix (sent_ranges tr) rs)))
     \<or> (\<exists>rs rest. reveal_plan (api_key st) (pv_sent E) = Inr rs
          \<and> tr = before_disclosure st body E @ map reveal_call rs @ BuildProveConfig # Prove # rest
          \<and> sent_ranges rest = []
          \<and> (\<forall>b leg. r = Inr (b, leg) \<longrightarrow>
               b = pv_body E \<and> attestation_from_json L (pv_attestation E) = Some leg
               \<and> rest = [CloseProver, CloseSession, JoinSession, FinishSession, ReadAttestation]))"

lemma sent_ranges_Cons [simp]:
  "sent_ranges [] = []"
  "sent_ranges (c # tr) = (case c of RevealSent a b \<Rightarrow> (a, b) # sent_ranges tr | _ \<Rightarrow> sent_ranges tr)"
  by (auto simp: sent_ranges_def List.map_filter_simps split: prover_call.split)

lemma Prove_not_reveal [simp]: "Prove \<notin> reveal_call ` A" "reveal_call x \<noteq> Prove"
  by (auto simp: reveal_call_def split: prod.splits)

lemma run_prover_ends: "stops (run_prover L E st body) (prover_ends L E st body) []"
  unfolding run_prover_def prove_and_read_def Let_def
  by (intro stops_rules)
    (auto simp: prover_ends_def before_disclosure_def take_is_prefix)

text \<open>A session in which every call succeeds and the key is found ends with the attestation.\<close>

lemma reveal_ranges_quiet:
  "\<forall>k. fails k = None \<Longrightarrow> reveal_ranges fails rs k tr = k (tr @ map reveal_call rs)"
  by (induction rs arbitrary: tr) (auto simp: script_simps reveal_call_def)

lemma run_prover_quiet:
  assumes "\<forall>k. pv_fails E k = None" and "reveal_plan (api_key st) (pv_sent E) = Inr rs"
    and "attestation_from_json L (pv_attestation E) = Some leg"
  shows "run_prover L E st body [] =
    (Inr (pv_body E, leg),
     before_disclosure st body E @ map reveal_call rs
       @ [BuildProveConfig, Prove, CloseProver, CloseSession, JoinSession, FinishSession, ReadAttestation])"
  using assms
  by (simp add: run_prover_def prove_and_read_def script_simps reveal_ranges_quiet before_disclosure_def
      Let_def)

text \<open>The request is sent before anything is disclosed, and it carries the buyer's body and the key.\<close>

lemma build_request_sel [simp]:
  "req_body (build_request st body) = body"
  "req_uri (build_request st body) = ''/v1/messages''"
  "req_method (build_request st body) = ''POST''"
  by (simp_all add: build_request_def)

lemma reveal_plan_cases:
  "reveal_plan None sent = Inr [(0, length sent)]"
  "reveal_plan (Some []) sent = Inl (Panic ''window size must be non-zero'')"
  "k \<noteq> [] \<Longrightarrow> (\<forall>i. \<not> occurs_at k sent i) \<Longrightarrow> \<exists>m. reveal_plan (Some k) sent = Inl (Bail m)"
  by (auto simp: reveal_plan_def position_windows_Some split: option.split)

end
