(* ===== verification/Transport.thy ===== *)
theory Transport
  imports Core
begin

text \<open>
  \<open>crates/provably-transport\<close>: the notary's signing identity and the trait \<open>Attester\<close>. The
  trait is the locale \<open>attester\<close>: what its users rely on is that an attested leg carries the
  claim it was made for, names the attester's key, and passes its own self-check. The notary
  is its interpretation, with the crates it signs with as part of the attester.
\<close>

section \<open>The signing identity\<close>

record notary =
  signing_key :: bytes

definition from_seed :: "libs \<Rightarrow> string \<Rightarrow> notary" where
  "from_seed L seed = \<lparr>signing_key = sha256 L seed\<rparr>"

definition public_key_hex :: "libs \<Rightarrow> notary \<Rightarrow> string" where
  "public_key_hex L n = hex_encode L (sk_public L (signing_key n))"

definition attest :: "libs \<Rightarrow> notary \<Rightarrow> leg_claim \<Rightarrow> leg_attestation" where
  "attest L n c =
     (let sig = sk_sign L (signing_key n) (signing_message L c)
      in \<lparr>claim = c,
          leg_proof_of = NotarySig (public_key_hex L n) (hex_encode L sig)\<rparr>)"

lemma attest_sel [simp]:
  "claim (attest L n c) = c"
  "leg_proof_of (attest L n c) =
     NotarySig (public_key_hex L n) (hex_encode L (sk_sign L (signing_key n) (signing_message L c)))"
  by (simp_all add: attest_def)

section \<open>The trait Attester\<close>

locale attester =
  fixes ready :: "'n \<Rightarrow> bool"
    and crates :: "'n \<Rightarrow> libs"
    and key_of :: "'n \<Rightarrow> string"
    and make :: "'n \<Rightarrow> leg_claim \<Rightarrow> leg_attestation"
  assumes make_claim: "claim (make n c) = c"
    and make_key: "notary_pubkey (make n c) = Some (key_of n)"
    and make_valid: "ready n \<Longrightarrow> verify_proof (crates n) (make n c) = Inr ()"
begin

text \<open>
  A claim can be exchanged under an existing proof only if the signature also covers the
  other claim's message.
\<close>

lemma make_inject: "make n c = make n c' \<Longrightarrow> c = c'"
  by (metis make_claim)

lemma make_signed: "ready n \<Longrightarrow> \<exists>pk. signed_under (crates n) pk (make n c)"
  using verify_proof_ok_iff make_valid by fastforce

end

definition notary_ready :: "libs \<times> notary \<Rightarrow> bool" where
  "notary_ready = (\<lambda>(L, n). hex_law L \<and> ed25519_law L \<and> length (signing_key n) = 32)"

lemma signed_under_attest:
  assumes "hex_law L" and "ed25519_law L" and "length (signing_key n) = 32"
  shows "signed_under L (sk_public L (signing_key n)) (attest L n c)"
  using assms by (auto simp: signed_under_def public_key_hex_def ed25519_law_def)

lemma verify_proof_attest:
  assumes "hex_law L" and "ed25519_law L" and "length (signing_key n) = 32"
  shows "verify_proof L (attest L n c) = Inr ()"
proof -
  have "is_ok (verify_proof L (attest L n c))"
    using signed_under_attest [OF assms] verify_proof_ok_iff by blast
  then show ?thesis by (auto simp: is_ok_iff)
qed

lemma notary_pubkey_attest [simp]: "notary_pubkey (attest L n c) = Some (public_key_hex L n)"
  by (simp add: notary_pubkey_def)

interpretation notary: attester notary_ready fst "\<lambda>(L, n). public_key_hex L n" "\<lambda>(L, n). attest L n"
  by unfold_locales (auto simp: notary_ready_def verify_proof_attest)

lemma from_seed_ready: "hex_law L \<Longrightarrow> ed25519_law L \<Longrightarrow> sha256_law L \<Longrightarrow> notary_ready (L, from_seed L seed)"
  by (simp add: notary_ready_def from_seed_def sha256_law_def)

text \<open>
  Exchanging the claim under a proof: the self-check then asks the old signature to verify
  over the new claim's message, which is another message.
\<close>

lemma verify_proof_exchanged:
  assumes "hex_law L" and "ed25519_law L" and "length (signing_key n) = 32"
  shows "verify_proof L ((attest L n c)\<lparr>claim := c'\<rparr>) =
    (if vk_verify L (sk_public L (signing_key n)) (signing_message L c')
          (sk_sign L (signing_key n) (signing_message L c))
     then Inr () else Inl BadSignature)"
  using assms
  by (simp add: verify_proof_def public_key_hex_def decode_fixed_def ed25519_law_def)

text \<open>Damage in the hex fields is reported as such.\<close>

lemma verify_proof_malformed:
  "hex_decode L k = None \<Longrightarrow> verify_proof L \<lparr>claim = c, leg_proof_of = NotarySig k s\<rparr> = Inl (Malformed ''hex'')"
  "hex_decode L k = Some b \<Longrightarrow> length b \<noteq> 32 \<Longrightarrow>
     verify_proof L \<lparr>claim = c, leg_proof_of = NotarySig k s\<rparr> = Inl (Malformed ''length'')"
  "hex_decode L k = Some b \<Longrightarrow> length b = 32 \<Longrightarrow> vk_from_bytes L b = None \<Longrightarrow>
     verify_proof L \<lparr>claim = c, leg_proof_of = NotarySig k s\<rparr> = Inl BadKey"
  by (simp_all add: verify_proof_def decode_fixed_def)

end
