(* ===== verification/Rust_Map.thy ===== *)
theory Rust_Map
  imports Prelude "HOL-Library.AList"
begin

text \<open>
  \<open>HashMap\<close> and \<open>BTreeMap\<close> with string keys. Both are kept as association lists without
  repeated keys: a hash map in an arbitrary order (the program never iterates over one), a
  B-tree map in the order of its keys (the byte-wise order of Rust strings), which is the
  order it is iterated in. The contract the rest of the development relies on is the locale
  \<open>string_map\<close>; both containers are interpretations of it.
\<close>

section \<open>The contract\<close>

lemma map_of_rev_distinct:
  assumes "distinct (map fst kvs)"
  shows "map_of (rev kvs) = map_of kvs"
proof (rule ext)
  fix k
  have "distinct (map fst (rev kvs))" using assms by (simp add: rev_map [symmetric])
  then have "map_of (rev kvs) k = Some v \<longleftrightarrow> map_of kvs k = Some v" for v
    using assms by (simp add: map_of_eq_Some_iff)
  then show "map_of (rev kvs) k = map_of kvs k"
    by (metis not_None_eq)
qed

locale string_map =
  fixes empty :: "'m"
    and insert :: "string \<Rightarrow> 'v \<Rightarrow> 'm \<Rightarrow> 'm"
    and get :: "'m \<Rightarrow> string \<Rightarrow> 'v option"
    and entries :: "'m \<Rightarrow> (string \<times> 'v) list"
    and invar :: "'m \<Rightarrow> bool"
  assumes get_empty: "get empty k = None"
    and get_insert: "invar m \<Longrightarrow> get (insert k v m) = (get m)(k \<mapsto> v)"
    and map_of_entries: "invar m \<Longrightarrow> map_of (entries m) = get m"
    and distinct_entries: "invar m \<Longrightarrow> distinct (map fst (entries m))"
    and invar_empty: "invar empty"
    and invar_insert: "invar m \<Longrightarrow> invar (insert k v m)"
begin

text \<open>
  \<open>iter.collect()\<close> into a map inserts the pairs in order, so for a repeated key the last
  value stays.
\<close>

lemma invar_inserts: "invar m \<Longrightarrow> invar (foldl (\<lambda>m (k, v). insert k v m) m kvs)"
  by (induction kvs arbitrary: m) (auto simp: invar_insert)

lemma get_inserts:
  "invar m \<Longrightarrow> get (foldl (\<lambda>m (k, v). insert k v m) m kvs) = get m ++ map_of (rev kvs)"
proof (induction kvs arbitrary: m)
  case (Cons kv kvs)
  obtain k v where kv: "kv = (k, v)" by (cases kv)
  have "get (foldl (\<lambda>m (k, v). insert k v m) (insert k v m) kvs)
      = (get m)(k \<mapsto> v) ++ map_of (rev kvs)"
    using Cons by (simp add: invar_insert get_insert fun_upd_def)
  then show ?case
    by (auto simp: kv map_of_append fun_eq_iff map_add_def split: option.splits)
qed auto

lemma get_collect: "get (foldl (\<lambda>m (k, v). insert k v m) empty kvs) = map_of (rev kvs)"
  using get_inserts [OF invar_empty, of kvs] by (simp add: get_empty map_add_def fun_eq_iff
      split: option.splits)

lemma get_collect_distinct:
  "distinct (map fst kvs) \<Longrightarrow> get (foldl (\<lambda>m (k, v). insert k v m) empty kvs) = map_of kvs"
  by (simp add: get_collect map_of_rev_distinct)

lemma get_collect_dom: "dom (get (foldl (\<lambda>m (k, v). insert k v m) empty kvs)) = fst ` set kvs"
  by (simp add: get_collect dom_map_of_conv_image_fst)

end

section \<open>HashMap\<close>

type_synonym 'v hash_map = "(string \<times> 'v) list"

definition hm_insert :: "string \<Rightarrow> 'v \<Rightarrow> 'v hash_map \<Rightarrow> 'v hash_map" where
  "hm_insert k v m = AList.update k v m"

definition hm_get :: "'v hash_map \<Rightarrow> string \<Rightarrow> 'v option" where
  "hm_get m k = map_of m k"

definition hm_collect :: "(string \<times> 'v) list \<Rightarrow> 'v hash_map" where
  "hm_collect kvs = foldl (\<lambda>m (k, v). hm_insert k v m) [] kvs"

interpretation hash: string_map "[]" hm_insert hm_get "\<lambda>m. m" "\<lambda>m. distinct (map fst m)"
  by unfold_locales (auto simp: hm_insert_def hm_get_def update_conv' distinct_update)

lemma hm_get_collect: "hm_get (hm_collect kvs) = map_of (rev kvs)"
  unfolding hm_collect_def by (rule hash.get_collect)

lemma dom_hm_collect: "dom (hm_get (hm_collect kvs)) = fst ` set kvs"
  unfolding hm_collect_def by (rule hash.get_collect_dom)

lemma hm_get_collect_distinct: "distinct (map fst kvs) \<Longrightarrow> hm_get (hm_collect kvs) = map_of kvs"
  unfolding hm_collect_def by (rule hash.get_collect_distinct)

section \<open>BTreeMap\<close>

type_synonym 'v btree_map = "(string \<times> 'v) list"

fun bt_insert :: "string \<Rightarrow> 'v \<Rightarrow> 'v btree_map \<Rightarrow> 'v btree_map" where
  "bt_insert k v [] = [(k, v)]"
| "bt_insert k v ((a, b) # m) =
     (if k < a then (k, v) # (a, b) # m
      else if k = a then (k, v) # m
      else (a, b) # bt_insert k v m)"

definition bt_get :: "'v btree_map \<Rightarrow> string \<Rightarrow> 'v option" where
  "bt_get m k = map_of m k"

definition bt_collect :: "(string \<times> 'v) list \<Rightarrow> 'v btree_map" where
  "bt_collect kvs = foldl (\<lambda>m (k, v). bt_insert k v m) [] kvs"

definition bt_sorted :: "'v btree_map \<Rightarrow> bool" where
  "bt_sorted m \<longleftrightarrow> sorted_wrt (<) (map fst m)"

lemma bt_get_insert: "bt_get (bt_insert k v m) = (bt_get m)(k \<mapsto> v)"
  unfolding bt_get_def by (induction k v m rule: bt_insert.induct) auto

lemma fst_bt_insert: "fst ` set (bt_insert k v m) = insert k (fst ` set m)"
  by (induction k v m rule: bt_insert.induct) auto

lemma bt_sorted_Cons:
  "bt_sorted ((a, b) # m) \<longleftrightarrow> (\<forall>x \<in> fst ` set m. a < x) \<and> bt_sorted m"
  by (simp add: bt_sorted_def)

lemma bt_sorted_insert: "bt_sorted m \<Longrightarrow> bt_sorted (bt_insert k v m)"
proof (induction k v m rule: bt_insert.induct)
  case (1 k v)
  show ?case by (simp add: bt_sorted_def)
next
  case (2 k v a b m)
  have less: "\<forall>x \<in> fst ` set m. a < x" and sorted: "bt_sorted m"
    using "2.prems" unfolding bt_sorted_Cons by blast+
  consider "k < a" | "k = a" | "a < k"
    using less_linear by blast
  then show ?case
  proof cases
    case 1
    then have "\<forall>x \<in> fst ` set ((a, b) # m). k < x"
      using less by (auto intro: less_trans)
    with 1 "2.prems" show ?thesis
      by (simp only: bt_insert.simps if_True bt_sorted_Cons [of k] simp_thms)
  next
    case 2
    with less sorted show ?thesis
      by (simp add: bt_sorted_Cons)
  next
    case 3
    then have "\<not> k < a" and "k \<noteq> a" by auto
    with 3 less sorted "2.IH" show ?thesis
      by (simp add: bt_sorted_Cons fst_bt_insert)
  qed
qed

lemma bt_sorted_distinct: "bt_sorted m \<Longrightarrow> distinct (map fst m)"
  unfolding bt_sorted_def by (simp add: strict_sorted_iff)

interpretation btree: string_map "[]" bt_insert bt_get "\<lambda>m. m" bt_sorted
proof unfold_locales
  show "bt_get [] k = None" for k by (simp add: bt_get_def)
  show "bt_sorted []" by (simp add: bt_sorted_def)
  show "map_of m = bt_get m" for m :: "'a btree_map" by (simp add: bt_get_def fun_eq_iff)
qed (simp_all add: bt_get_insert bt_sorted_insert bt_sorted_distinct)

lemma bt_get_collect: "bt_get (bt_collect kvs) = map_of (rev kvs)"
  unfolding bt_collect_def by (rule btree.get_collect)

lemma bt_sorted_collect: "bt_sorted (bt_collect kvs)"
  unfolding bt_collect_def by (rule btree.invar_inserts) (simp add: bt_sorted_def)

text \<open>
  Two B-tree maps with the same lookups are equal, and collecting the entries of one gives
  it back.
\<close>

lemma bt_ext:
  assumes "bt_sorted m" and "bt_sorted m'" and "bt_get m = bt_get m'"
  shows "m = m'"
proof -
  have "p \<in> set m \<longleftrightarrow> p \<in> set m'" for p
  proof (cases p)
    case (Pair a b)
    have "p \<in> set m \<longleftrightarrow> bt_get m a = Some b" and "p \<in> set m' \<longleftrightarrow> bt_get m' a = Some b"
      using assms(1,2) by (simp_all add: Pair bt_get_def bt_sorted_distinct map_of_eq_Some_iff)
    with assms(3) show ?thesis by simp
  qed
  then have "set m = set m'" by blast
  moreover have "sorted (map fst m)" "distinct (map fst m)"
      "sorted (map fst m')" "distinct (map fst m')"
    using assms(1,2) by (auto simp: bt_sorted_def strict_sorted_iff)
  moreover from calculation have "inj_on fst (set m \<union> set m')"
    by (simp add: distinct_map)
  ultimately show ?thesis
    by (intro map_sorted_distinct_set_unique [of fst m m']) auto
qed

lemma bt_collect_sorted: "bt_sorted m \<Longrightarrow> bt_collect m = m"
  by (rule bt_ext)
    (auto simp: bt_sorted_collect bt_get_collect bt_get_def map_of_rev_distinct bt_sorted_distinct)

end
