(* ===== verification/Verifier.thy ===== *)
theory Verifier
  imports Transport Rust_Map
begin

text \<open>
  \<open>crates/provably-verifier/src/lib.rs\<close>: the expectation, the checks, the search for the
  legs an output depends on, and \<open>verify\<close>. The search is an explicit stack with a set of
  visited ids; it terminates because every id is expanded once. Its specification is
  reachability along the \<open>inputs\<close> edges of interior nodes, and the specification of the whole
  verifier is \<open>accepts\<close>, a predicate without lists of checks.
\<close>

section \<open>Data\<close>

record expectation =
  exp_manifest :: manifest
  exp_notary_pubkey :: "string option"
  served_output_digest :: string
  exp_payment_reference :: string
  served_request_digest :: "string option"
  recomputed :: "(node_ident \<times> string) list"

record check =
  check_name :: string
  passed :: bool

definition check_new :: "string \<Rightarrow> bool \<Rightarrow> check" where
  "check_new name ok = \<lparr>check_name = name, passed = ok\<rparr>"

lemma passed_check_new [simp]: "passed (check_new name ok) = ok"
  by (simp add: check_new_def)

text \<open>The map from ids to nodes; for a repeated id the last node stays.\<close>

definition node_map :: "node list \<Rightarrow> node hash_map" where
  "node_map ns = hm_collect (map (\<lambda>n. (node_id n, n)) ns)"

lemma node_map_get: "hm_get (node_map ns) = map_of (rev (map (\<lambda>n. (node_id n, n)) ns))"
  by (simp add: node_map_def hm_get_collect)

lemma node_map_get_Some: "hm_get (node_map ns) k = Some n \<Longrightarrow> n \<in> set ns \<and> node_id n = k"
  by (auto simp: node_map_get dest!: map_of_SomeD)

lemma node_map_dom: "dom (hm_get (node_map ns)) = node_id ` set ns"
  by (simp add: node_map_def dom_hm_collect image_image)

section \<open>The legs an output depends on\<close>

text \<open>
  The measure of the search: the ids of the map that are not visited yet, then the stack.
\<close>

definition leg_walk_order ::
  "((node hash_map \<times> node_ident list \<times> node_ident set \<times> leg_attestation list) \<times>
    (node hash_map \<times> node_ident list \<times> node_ident set \<times> leg_attestation list)) set" where
  "leg_walk_order =
     measures [\<lambda>(m, stack, seen, legs). card (fst ` set m - seen),
               \<lambda>(m, stack, seen, legs). length stack]"

lemma unvisited_decreases:
  assumes "hm_get m x = Some n" and "x \<notin> seen"
  shows "card (fst ` set m - insert x seen) < card (fst ` set m - seen)"
proof (rule psubset_card_mono)
  have "x \<in> fst ` set m"
    using assms(1) by (force simp: hm_get_def dest: map_of_SomeD)
  with assms(2) show "fst ` set m - insert x seen \<subset> fst ` set m - seen" by auto
qed simp

lemma unvisited_le: "card (fst ` set m - insert x seen) \<le> card (fst ` set m - seen)"
  by (rule card_mono) auto

text \<open>
  The loop of \<open>leg_ancestors\<close>. The stack has its top at the head of the list, so the
  \<open>inputs\<close> that \<open>Vec::extend\<close> pushes in order come off in reverse order.
\<close>

function leg_walk ::
  "node hash_map \<Rightarrow> node_ident list \<Rightarrow> node_ident set \<Rightarrow> leg_attestation list \<Rightarrow> leg_attestation list"
where
  "leg_walk m [] seen legs = legs"
| "leg_walk m (x # stack) seen legs =
     (if x \<in> seen then leg_walk m stack seen legs
      else (case hm_get m x of
              None \<Rightarrow> leg_walk m stack (insert x seen) legs
            | Some n \<Rightarrow>
                (case node_proof_of n of
                   Leg att \<Rightarrow> leg_walk m stack (insert x seen) (legs @ [att])
                 | Interior _ \<Rightarrow> leg_walk m (rev (inputs n) @ stack) (insert x seen) legs)))"
  by pat_completeness auto
termination
proof (relation leg_walk_order)
  show "wf leg_walk_order" by (simp add: leg_walk_order_def)
qed (auto simp: leg_walk_order_def le_neq_implies_less unvisited_decreases unvisited_le)

definition leg_ancestors :: "node hash_map \<Rightarrow> node_ident \<Rightarrow> leg_attestation list" where
  "leg_ancestors m start = leg_walk m [start] {} []"

text \<open>Its specification: reachability over the edges of interior nodes.\<close>

definition depends :: "node hash_map \<Rightarrow> (node_ident \<times> node_ident) set" where
  "depends m = {(a, b). \<exists>n ip. hm_get m a = Some n \<and> node_proof_of n = Interior ip \<and> b \<in> set (inputs n)}"

definition leg_at :: "node hash_map \<Rightarrow> node_ident \<Rightarrow> leg_attestation option" where
  "leg_at m x =
     (case hm_get m x of
        None \<Rightarrow> None
      | Some n \<Rightarrow> (case node_proof_of n of Leg att \<Rightarrow> Some att | Interior _ \<Rightarrow> None))"

definition ancestor_legs :: "node hash_map \<Rightarrow> node_ident \<Rightarrow> leg_attestation set" where
  "ancestor_legs m start = {att. \<exists>x. (start, x) \<in> (depends m)\<^sup>* \<and> leg_at m x = Some att}"

text \<open>
  The ids the loop expands, in order: the loop collects exactly the legs among them. They
  are distinct, reachable, and closed under the edges.
\<close>

function walk_ids :: "node hash_map \<Rightarrow> node_ident list \<Rightarrow> node_ident set \<Rightarrow> node_ident list" where
  "walk_ids m [] seen = []"
| "walk_ids m (x # stack) seen =
     (if x \<in> seen then walk_ids m stack seen
      else x # walk_ids m
                 ((case hm_get m x of
                     None \<Rightarrow> []
                   | Some n \<Rightarrow> (case node_proof_of n of Leg att \<Rightarrow> [] | Interior _ \<Rightarrow> rev (inputs n)))
                  @ stack)
                 (insert x seen))"
  by pat_completeness auto
termination
proof (relation "inv_image leg_walk_order (\<lambda>(m, stack, seen). (m, stack, seen, []))")
  show "wf (inv_image leg_walk_order (\<lambda>(m, stack, seen). (m, stack, seen, [])))"
    by (simp add: leg_walk_order_def)
qed (auto simp: leg_walk_order_def le_neq_implies_less unvisited_decreases unvisited_le
      split: option.splits node_proof.splits)

definition succs :: "node hash_map \<Rightarrow> node_ident \<Rightarrow> node_ident list" where
  "succs m x =
     (case hm_get m x of
        None \<Rightarrow> []
      | Some n \<Rightarrow> (case node_proof_of n of Leg att \<Rightarrow> [] | Interior _ \<Rightarrow> rev (inputs n)))"

lemma walk_ids_Cons:
  "walk_ids m (x # stack) seen =
     (if x \<in> seen then walk_ids m stack seen
      else x # walk_ids m (succs m x @ stack) (insert x seen))"
  by (simp add: succs_def)

declare walk_ids.simps(2) [simp del]

lemma set_succs: "set (succs m x) = depends m `` {x}"
proof (cases "hm_get m x")
  case (Some n)
  then show ?thesis
    by (cases "node_proof_of n") (auto simp: succs_def depends_def)
qed (auto simp: succs_def depends_def)

lemma walk_ids_induct [case_names Nil Seen New]:
  assumes "\<And>seen. P [] seen"
    and "\<And>x stack seen. x \<in> seen \<Longrightarrow> P stack seen \<Longrightarrow> P (x # stack) seen"
    and "\<And>x stack seen. x \<notin> seen \<Longrightarrow> P (succs m x @ stack) (insert x seen) \<Longrightarrow> P (x # stack) seen"
  shows "P stack seen"
proof -
  have "m' = m \<longrightarrow> P stack seen" for m'
  proof (induction m' stack seen rule: walk_ids.induct)
    case (1 m' seen)
    show ?case using assms(1) by blast
  next
    case (2 m' x stack seen)
    show ?case
    proof (intro impI, cases "x \<in> seen")
      assume m: "m' = m" and "x \<in> seen"
      with "2.IH"(1) show "P (x # stack) seen" by (intro assms(2)) simp_all
    next
      assume m: "m' = m" and "x \<notin> seen"
      with "2.IH"(2) show "P (x # stack) seen" by (intro assms(3)) (simp_all add: succs_def)
    qed
  qed
  then show ?thesis by blast
qed

lemma leg_walk_ids: "leg_walk m stack seen legs = legs @ List.map_filter (leg_at m) (walk_ids m stack seen)"
proof (induction stack seen arbitrary: legs rule: walk_ids_induct [where m = m])
  case (Nil seen)
  show ?case by (simp add: List.map_filter_simps)
next
  case (Seen x stack seen)
  then show ?case by (simp add: walk_ids_Cons)
next
  case (New x stack seen)
  have "leg_walk m (x # stack) seen legs =
      leg_walk m (succs m x @ stack) (insert x seen)
        (legs @ (case leg_at m x of None \<Rightarrow> [] | Some att \<Rightarrow> [att]))"
    using New.hyps by (simp add: succs_def leg_at_def split: option.split node_proof.split)
  also have "\<dots> = legs @ (case leg_at m x of None \<Rightarrow> [] | Some att \<Rightarrow> [att])
      @ List.map_filter (leg_at m) (walk_ids m (succs m x @ stack) (insert x seen))"
    by (simp add: New.IH)
  finally show ?case
    using New.hyps by (simp add: walk_ids_Cons List.map_filter_simps split: option.split)
qed

lemma walk_ids_distinct: "distinct (walk_ids m stack seen) \<and> set (walk_ids m stack seen) \<inter> seen = {}"
  by (induction stack seen rule: walk_ids_induct [where m = m]) (auto simp: walk_ids_Cons)

lemma walk_ids_covers: "set stack \<subseteq> seen \<union> set (walk_ids m stack seen)"
  by (induction stack seen rule: walk_ids_induct [where m = m]) (auto simp: walk_ids_Cons)

lemma walk_ids_sound: "set (walk_ids m stack seen) \<subseteq> (depends m)\<^sup>* `` set stack"
proof (induction stack seen rule: walk_ids_induct [where m = m])
  case (New x stack seen)
  have "(depends m)\<^sup>* `` set (succs m x @ stack) \<subseteq> (depends m)\<^sup>* `` set (x # stack)"
    by (auto simp: set_succs intro: converse_rtrancl_into_rtrancl)
  with New show ?case
    by (auto simp: walk_ids_Cons)
qed (auto simp: walk_ids_Cons)

lemma walk_ids_closed:
  "depends m `` seen \<subseteq> seen \<union> set stack \<Longrightarrow>
     depends m `` (seen \<union> set (walk_ids m stack seen)) \<subseteq> seen \<union> set (walk_ids m stack seen)"
proof (induction stack seen rule: walk_ids_induct [where m = m])
  case (New x stack seen)
  have "depends m `` insert x seen \<subseteq> insert x seen \<union> set (succs m x @ stack)"
    using New.prems by (auto simp: set_succs)
  from New.IH [OF this] show ?case
    using New.hyps by (simp add: walk_ids_Cons)
qed (auto simp: walk_ids_Cons)

lemma walk_ids_reachable: "set (walk_ids m [start] {}) = {x. (start, x) \<in> (depends m)\<^sup>*}"
proof
  show "set (walk_ids m [start] {}) \<subseteq> {x. (start, x) \<in> (depends m)\<^sup>*}"
    using walk_ids_sound [of m "[start]" "{}"] by auto
  have start: "start \<in> set (walk_ids m [start] {})"
    using walk_ids_covers [of "[start]" "{}" m] by simp
  have closed: "depends m `` set (walk_ids m [start] {}) \<subseteq> set (walk_ids m [start] {})"
    using walk_ids_closed [of m "{}" "[start]"] by simp
  show "{x. (start, x) \<in> (depends m)\<^sup>*} \<subseteq> set (walk_ids m [start] {})"
  proof safe
    fix x assume "(start, x) \<in> (depends m)\<^sup>*"
    then show "x \<in> set (walk_ids m [start] {})"
      by (induction rule: rtrancl_induct) (use start closed in auto)
  qed
qed

lemma leg_ancestors_ids:
  "leg_ancestors m start = List.map_filter (leg_at m) (walk_ids m [start] {})"
  by (simp add: leg_ancestors_def leg_walk_ids)

lemma set_leg_ancestors: "set (leg_ancestors m start) = ancestor_legs m start"
proof -
  have "set (List.map_filter f xs) = {y. \<exists>x \<in> set xs. f x = Some y}" for f :: "node_ident \<Rightarrow> leg_attestation option" and xs
    by (induction xs) (auto simp: List.map_filter_simps split: option.splits)
  then show ?thesis
    by (auto simp: leg_ancestors_ids walk_ids_reachable ancestor_legs_def)
qed

text \<open>Hence no id contributes twice, whatever the shape of the graph.\<close>

lemma leg_ancestors_listing:
  obtains ids where "distinct ids" "set ids = {x. (start, x) \<in> (depends m)\<^sup>*}"
    "leg_ancestors m start = List.map_filter (leg_at m) ids"
  using walk_ids_distinct [of m "[start]" "{}"] walk_ids_reachable leg_ancestors_ids by blast

section \<open>The verifier\<close>

definition edge_checks :: "node hash_map \<Rightarrow> node \<Rightarrow> check list" where
  "edge_checks m n =
     map (\<lambda>inp. check_new (''node '' @ node_id n @ '' input '' @ inp @ '' resolves'')
                  (hm_get m inp \<noteq> None))
       (inputs n)"

definition leg_checks :: "libs \<Rightarrow> expectation \<Rightarrow> node \<Rightarrow> leg_attestation \<Rightarrow> check list" where
  "leg_checks L e n att =
     [check_new (''node '' @ node_id n @ '' leg proof valid'') (is_ok (verify_proof L att)),
      check_new (''node '' @ node_id n @ '' host allowed ('' @ host (claim att) @ '')'')
        (\<exists>h \<in> set (hosts (exp_manifest e)). h = host (claim att)),
      check_new (''node '' @ node_id n @ '' output == leg response'')
        (output_digest n = response_digest (claim att))]
     @ (case exp_notary_pubkey e of
          Some pin \<Rightarrow>
            [check_new (''node '' @ node_id n @ '' notary key matches pinned'')
               (notary_pubkey att = Some pin)]
        | None \<Rightarrow> [])"

definition interior_checks :: "expectation \<Rightarrow> node \<Rightarrow> interior_proof \<Rightarrow> check list" where
  "interior_checks e n ip =
     (case ip of Recompute _ \<Rightarrow>
        (case map_option snd (find (\<lambda>(i, _). i = node_id n) (recomputed e)) of
           Some d \<Rightarrow>
             [check_new (''node '' @ node_id n @ '' recompute matches'') (d = output_digest n)]
         | None \<Rightarrow>
             [check_new (''node '' @ node_id n @ '' recompute NOT re-verified (no recomputer)'') False]))"

definition node_checks :: "libs \<Rightarrow> node hash_map \<Rightarrow> expectation \<Rightarrow> node \<Rightarrow> check list" where
  "node_checks L m e n =
     edge_checks m n
     @ (case node_proof_of n of
          Leg att \<Rightarrow> leg_checks L e n att
        | Interior ip \<Rightarrow> interior_checks e n ip)"

definition verify :: "libs \<Rightarrow> harness_receipt \<Rightarrow> expectation \<Rightarrow> check list" where
  "verify L r e =
     (let checks = [check_new ''manifest matches'' (manifest_id r = manifest_ident (exp_manifest e))];
          m = node_map (nodes r);
          checks = checks @
            (case hm_get m (output_node r) of
               Some out \<Rightarrow> [check_new ''delivered bytes match output node''
                             (output_digest out = served_output_digest e)]
             | None \<Rightarrow> [check_new ''output node exists'' False]);
          checks = checks @
            [check_new ''bound to this payment'' (payment_reference r = Some (exp_payment_reference e))];
          checks = checks @
            (case served_request_digest e of
               Some expected_req \<Rightarrow>
                 (let legs = leg_ancestors m (output_node r);
                      bound = (legs \<noteq> [] \<and>
                               (\<forall>att \<in> set legs. request_digest (claim att) = expected_req))
                  in [check_new ''output answers the buyer's request'' bound])
             | None \<Rightarrow> [])
      in checks @ concat (map (node_checks L m e) (nodes r)))"

text \<open>
  What acceptance means, without the list of checks: this is the specification \<^term>\<open>verify\<close>
  refines.
\<close>

definition node_accepted :: "libs \<Rightarrow> harness_receipt \<Rightarrow> expectation \<Rightarrow> node \<Rightarrow> bool" where
  "node_accepted L r e n \<longleftrightarrow>
     set (inputs n) \<subseteq> node_id ` set (nodes r) \<and>
     (case node_proof_of n of
        Leg att \<Rightarrow>
          (\<exists>pk. signed_under L pk att) \<and>
          host (claim att) \<in> set (hosts (exp_manifest e)) \<and>
          output_digest n = response_digest (claim att) \<and>
          (\<forall>pin. exp_notary_pubkey e = Some pin \<longrightarrow> proof_pubkey (leg_proof_of att) = pin)
      | Interior _ \<Rightarrow> map_of (recomputed e) (node_id n) = Some (output_digest n))"

definition accepts :: "libs \<Rightarrow> harness_receipt \<Rightarrow> expectation \<Rightarrow> bool" where
  "accepts L r e \<longleftrightarrow>
     manifest_id r = manifest_ident (exp_manifest e) \<and>
     (\<exists>out. hm_get (node_map (nodes r)) (output_node r) = Some out
            \<and> output_digest out = served_output_digest e) \<and>
     payment_reference r = Some (exp_payment_reference e) \<and>
     (\<forall>req. served_request_digest e = Some req \<longrightarrow>
        ancestor_legs (node_map (nodes r)) (output_node r) \<noteq> {} \<and>
        (\<forall>att \<in> ancestor_legs (node_map (nodes r)) (output_node r). request_digest (claim att) = req)) \<and>
     (\<forall>n \<in> set (nodes r). node_accepted L r e n)"

definition all_passed :: "check list \<Rightarrow> bool" where
  "all_passed cs \<longleftrightarrow> (\<forall>c \<in> set cs. passed c)"

lemma all_passed_simps [simp]:
  "all_passed []" "all_passed (c # cs) \<longleftrightarrow> passed c \<and> all_passed cs"
  "all_passed (cs @ ds) \<longleftrightarrow> all_passed cs \<and> all_passed ds"
  by (auto simp: all_passed_def)

lemma all_passed_concat: "all_passed (concat (map f xs)) \<longleftrightarrow> (\<forall>x \<in> set xs. all_passed (f x))"
  by (auto simp: all_passed_def)

lemma find_fst_map_of: "map_option snd (find (\<lambda>(i, _). i = k) kvs) = map_of kvs k"
  by (induction kvs) auto

lemma edge_checks_passed:
  "all_passed (edge_checks (node_map ns) n) \<longleftrightarrow> set (inputs n) \<subseteq> node_id ` set ns"
  unfolding node_map_dom [symmetric]
  by (auto simp: edge_checks_def all_passed_def dom_def)

lemma leg_checks_passed:
  "all_passed (leg_checks L e n att) \<longleftrightarrow>
     (\<exists>pk. signed_under L pk att) \<and>
     host (claim att) \<in> set (hosts (exp_manifest e)) \<and>
     output_digest n = response_digest (claim att) \<and>
     (\<forall>pin. exp_notary_pubkey e = Some pin \<longrightarrow> proof_pubkey (leg_proof_of att) = pin)"
  by (auto simp: leg_checks_def verify_proof_ok_iff notary_pubkey_eq split: option.split)

lemma interior_checks_passed:
  "all_passed (interior_checks e n ip) \<longleftrightarrow> map_of (recomputed e) (node_id n) = Some (output_digest n)"
  by (cases ip) (simp add: interior_checks_def find_fst_map_of split: option.split)

lemma node_checks_passed:
  "all_passed (node_checks L (node_map (nodes r)) e n) \<longleftrightarrow> node_accepted L r e n"
  by (simp add: node_checks_def node_accepted_def edge_checks_passed leg_checks_passed
      interior_checks_passed split: node_proof.split)

lemma verify_accepts: "all_passed (verify L r e) \<longleftrightarrow> accepts L r e"
proof -
  have req: "leg_ancestors m x \<noteq> [] \<longleftrightarrow> ancestor_legs m x \<noteq> {}" for m x
    using set_leg_ancestors [of m x] by (metis set_empty)
  show ?thesis
    by (auto simp: verify_def accepts_def Let_def all_passed_concat node_checks_passed req
        set_leg_ancestors split: option.split)
qed

text \<open>Consequences of acceptance, one per kind of node.\<close>

lemma accepts_leg:
  assumes "accepts L r e" and "n \<in> set (nodes r)" and "node_proof_of n = Leg att"
  shows "\<exists>pk. signed_under L pk att" and "host (claim att) \<in> set (hosts (exp_manifest e))"
    and "output_digest n = response_digest (claim att)"
    and "exp_notary_pubkey e = Some pin \<Longrightarrow> proof_pubkey (leg_proof_of att) = pin"
  using assms by (auto simp: accepts_def node_accepted_def split: node_proof.splits)

lemma accepts_interior:
  assumes "accepts L r e" and "n \<in> set (nodes r)" and "node_proof_of n = Interior ip"
  shows "map_of (recomputed e) (node_id n) = Some (output_digest n)"
  using assms by (force simp: accepts_def node_accepted_def)

lemma accepts_edges:
  assumes "accepts L r e" and "n \<in> set (nodes r)"
  shows "set (inputs n) \<subseteq> node_id ` set (nodes r)"
  using assms by (simp add: accepts_def node_accepted_def)

context attester
begin

text \<open>A leg made by a ready attester passes every check of the verifier on it.\<close>

lemma make_leg_checks:
  assumes "ready a" and "host c \<in> set (hosts (exp_manifest e))"
    and "output_digest n = response_digest c"
    and "exp_notary_pubkey e = None \<or> exp_notary_pubkey e = Some (key_of a)"
  shows "all_passed (leg_checks (crates a) e n (make a c))"
  using assms make_signed [of a c] make_key [of a c]
  by (auto simp: leg_checks_passed make_claim notary_pubkey_eq)

end

end
