(* ===== verification/Mpp_Seams.thy ===== *)
theory Mpp_Seams
  imports Verifier
begin

text \<open>
  \<open>crates/provably-mpp/src/lib.rs\<close>: the headers the proof rides in, the codec of the
  materials sidecar (the second instance of \<open>header_codec\<close>), the advertised manifest, and
  the settlement gate.
\<close>

definition PROVABLY_RECEIPT_HEADER :: string where
  "PROVABLY_RECEIPT_HEADER = ''x-provably-receipt''"

definition PROVABLY_MATERIALS_HEADER :: string where
  "PROVABLY_MATERIALS_HEADER = ''x-provably-materials''"

section \<open>Materials\<close>

definition materials_to_header :: "libs \<Rightarrow> bytes btree_map \<Rightarrow> string" where
  "materials_to_header L materials =
     (let encoded = bt_collect (map (\<lambda>(i, bytes). (i, b64_encode L bytes)) materials)
      in b64_encode L (string_map_to_json L encoded))"

text \<open>\<open>into_iter().map(..).collect::<Result<_, _>>()\<close>: the first entry that does not decode ends it.\<close>

fun decode_entries :: "libs \<Rightarrow> (string \<times> string) list \<Rightarrow> verify_error + (string \<times> bytes) list" where
  "decode_entries L [] = Inr []"
| "decode_entries L ((i, b) # rest) =
     (case b64_decode L (trim b) of
        None \<Rightarrow> Inl (Malformed ''base64'')
      | Some bytes \<Rightarrow>
          (case decode_entries L rest of Inl e \<Rightarrow> Inl e | Inr kvs \<Rightarrow> Inr ((i, bytes) # kvs)))"

definition materials_from_header :: "libs \<Rightarrow> string \<Rightarrow> verify_error + bytes btree_map" where
  "materials_from_header L value =
     (case b64_decode L (trim value) of
        None \<Rightarrow> Inl (Malformed ''base64'')
      | Some json \<Rightarrow>
          (case string_map_from_json L json of
             None \<Rightarrow> Inl (Malformed ''json'')
           | Some encoded \<Rightarrow> map_sum id bt_collect (decode_entries L encoded)))"

definition materials_codec_law :: "libs \<Rightarrow> bool" where
  "materials_codec_law L \<longleftrightarrow> base64_law L \<and> string_map_json_law L"

lemma trim_b64 [simp]: "base64_law L \<Longrightarrow> trim (b64_encode L b) = b64_encode L b"
  by (simp add: trim_fix base64_graphic)

lemma decode_entries_encoded:
  "base64_law L \<Longrightarrow> decode_entries L (map (\<lambda>(i, bytes). (i, b64_encode L bytes)) m) = Inr m"
  by (induction m) auto

lemma encoded_sorted:
  "bt_sorted m \<Longrightarrow> bt_sorted (map (\<lambda>(i, bytes). (i, b64_encode L bytes)) m)"
  by (simp add: bt_sorted_def comp_def case_prod_unfold)

interpretation materials_codec:
  header_codec materials_codec_law bt_sorted materials_to_header materials_from_header
proof unfold_locales
  fix L and x :: "bytes btree_map"
  assume law: "materials_codec_law L"
  then have base64: "base64_law L" by (simp add: materials_codec_law_def)
  show "\<forall>c \<in> set (materials_to_header L x). graphic c"
    using base64 by (simp add: materials_to_header_def Let_def base64_graphic)
  assume "bt_sorted x"
  then have sorted: "bt_sorted (map (\<lambda>(i, bytes). (i, b64_encode L bytes)) x)"
    by (rule encoded_sorted)
  then have "string_map_from_json L (string_map_to_json L (map (\<lambda>(i, bytes). (i, b64_encode L bytes)) x))
      = Some (map (\<lambda>(i, bytes). (i, b64_encode L bytes)) x)"
    using law by (simp add: materials_codec_law_def string_map_json_law_def bt_sorted_def)
  then show "materials_from_header L (materials_to_header L x) = Inr x"
    using base64 sorted \<open>bt_sorted x\<close>
    by (simp add: materials_from_header_def materials_to_header_def Let_def bt_collect_sorted
        decode_entries_encoded)
qed (simp add: materials_from_header_def)

text \<open>
  Whatever the header says, a decoded materials map is a map: sorted, so with each id once.
\<close>

lemma materials_from_header_sorted: "materials_from_header L v = Inr m \<Longrightarrow> bt_sorted m"
  by (auto simp: materials_from_header_def bt_sorted_collect map_sum_def
      split: option.splits sum.splits)

section \<open>Advertisement, receipt header and gate\<close>

definition advertise :: "'v json_lib \<Rightarrow> manifest \<Rightarrow> 'v" where
  "advertise J m =
     jobject J
       [(''provably'',
         jobject J
           [(''manifestId'', jstring J (manifest_ident m)),
            (''hosts'', jarray J (map (jstring J) (hosts m)))])]"

definition receipt_header :: "libs \<Rightarrow> harness_receipt \<Rightarrow> string" where
  "receipt_header L r = to_header L r"

definition read_receipt_header :: "libs \<Rightarrow> string \<Rightarrow> verify_error + harness_receipt" where
  "read_receipt_header L value = from_header L value"

definition gate :: "libs \<Rightarrow> harness_receipt \<Rightarrow> expectation \<Rightarrow> bool" where
  "gate L r e \<longleftrightarrow> (\<forall>c \<in> set (verify L r e). passed c)"

lemma gate_accepts: "gate L r e \<longleftrightarrow> accepts L r e"
  using verify_accepts [of L r e] by (simp add: gate_def all_passed_def)

end
