(* ===== verification/Harness.thy ===== *)
theory Harness
  imports Crates Rust_Text
begin

text \<open>
  \<open>examples/harness/src/lib.rs\<close>: the seller's public transform and the dispatch on its id.
  JSON values stay abstract (\<open>json_lib\<close>); trimming, case folding and the prefix test are the
  standard library's. The lemmas say when the verdict is \<open>1\<close> and which ids are known.
\<close>

definition MANIFEST_ID :: string where
  "MANIFEST_ID = ''starts-with-yes-v1''"

definition VERDICT_FN_ID :: string where
  "VERDICT_FN_ID = ''starts_with_yes''"

definition starts_with_yes :: "'v json_lib \<Rightarrow> bytes \<Rightarrow> bytes" where
  "starts_with_yes J answer =
     (let text = (case jparse J answer of
                    None \<Rightarrow> None
                  | Some v \<Rightarrow> jas_str J (jkey J (jpos J (jkey J v ''content'') 0) ''text''));
          yes = (case text of
                   None \<Rightarrow> False
                 | Some t \<Rightarrow> prefix ''yes'' (to_ascii_lowercase (trim_start t)))
      in if yes then ''1'' else ''0'')"

definition recompute :: "'v json_lib \<Rightarrow> string \<Rightarrow> bytes list \<Rightarrow> bytes option" where
  "recompute J f ins =
     (if f = VERDICT_FN_ID
      then Some (starts_with_yes J (case ins of [] \<Rightarrow> [] | x # _ \<Rightarrow> x))
      else None)"

text \<open>The text of an answer, when it has one.\<close>

definition answer_text :: "'v json_lib \<Rightarrow> bytes \<Rightarrow> string option" where
  "answer_text J answer =
     Option.bind (jparse J answer) (\<lambda>v. jas_str J (jkey J (jpos J (jkey J v ''content'') 0) ''text''))"

lemma ascii_lower_letter:
  "ascii_lower c = CHR ''y'' \<longleftrightarrow> c = CHR ''y'' \<or> c = CHR ''Y''"
  "ascii_lower c = CHR ''e'' \<longleftrightarrow> c = CHR ''e'' \<or> c = CHR ''E''"
  "ascii_lower c = CHR ''s'' \<longleftrightarrow> c = CHR ''s'' \<or> c = CHR ''S''"
  unfolding char_eq_byte_val [of _ "CHR ''y''"] char_eq_byte_val [of _ "CHR ''Y''"]
    char_eq_byte_val [of _ "CHR ''e''"] char_eq_byte_val [of _ "CHR ''E''"]
    char_eq_byte_val [of _ "CHR ''s''"] char_eq_byte_val [of _ "CHR ''S''"]
    byte_val_ascii_lower
  by auto

lemma starts_with_yes_iff:
  "starts_with_yes J answer = ''1'' \<longleftrightarrow>
     (\<exists>t y e s rest. answer_text J answer = Some t \<and> trim_start t = y # e # s # rest
        \<and> y \<in> set ''yY'' \<and> e \<in> set ''eE'' \<and> s \<in> set ''sS'')"
proof -
  have "prefix ''yes'' (to_ascii_lowercase u) \<longleftrightarrow>
      (\<exists>y e s rest. u = y # e # s # rest \<and> y \<in> set ''yY'' \<and> e \<in> set ''eE'' \<and> s \<in> set ''sS'')" for u
    by (cases u; cases "tl u"; cases "tl (tl u)")
      (auto simp: to_ascii_lowercase_def ascii_lower_letter
          eq_commute [of "CHR ''y''"] eq_commute [of "CHR ''e''"] eq_commute [of "CHR ''s''"])
  then show ?thesis
    by (auto simp: starts_with_yes_def answer_text_def Let_def bind_eq_Some_conv
        split: option.splits)
qed

lemma starts_with_yes_cases: "starts_with_yes J answer = ''1'' \<or> starts_with_yes J answer = ''0''"
  by (simp add: starts_with_yes_def Let_def)

end
