(* ===== verification/Reseller.thy ===== *)
theory Reseller
  imports Prover_Session Mpp_Seams Harness
begin

text \<open>
  The payment-gated endpoint of \<open>tlsn/reseller/src/main.rs\<close>: header configuration, the 402
  challenge, the substitution of the cheating mode, the two-node receipt and the handler
  \<open>messages\<close>. The handler is a script that verifies a credential and runs the prover
  session; the lemmas say on which branch it replies what, and that nothing is sent upstream
  before a payment has verified.
\<close>

section \<open>Configuration\<close>

definition parse_headers :: "string \<Rightarrow> (string \<times> string) list" where
  "parse_headers raw =
     List.map_filter
       (\<lambda>pair. case split_once (CHR '':'') (trim pair) of
                 None \<Rightarrow> None
               | Some (name, value) \<Rightarrow> Some (trim name, trim value))
       (split_on (\<lambda>c. c = CHR '';'') raw)"

text \<open>The state \<open>main\<close> builds from the environment, and the URL of the RPC node.\<close>

definition reseller_setup :: "libs \<Rightarrow> (string \<Rightarrow> string option) \<Rightarrow> fault + string \<times> app" where
  "reseller_setup L var =
     (let or_default = (\<lambda>name d. case var name of Some s \<Rightarrow> s | None \<Rightarrow> d);
          rpc_url = or_default ''RPC_URL'' ''https://rpc.moderato.tempo.xyz'';
          na = or_default ''NOTARY_ADDR'' ''127.0.0.1:7047''
      in case var ''UPSTREAM_HOST'' of
           None \<Rightarrow> Inl (Panic ''UPSTREAM_HOST must be set (the TLS server to proxy and attest)'')
         | Some uh \<Rightarrow>
             Inr (rpc_url,
               \<lparr>notary_addr = na,
                upstream_host = uh,
                api_key = var ''UPSTREAM_API_KEY'',
                upstream_headers = (case var ''UPSTREAM_HEADERS'' of
                                      Some s \<Rightarrow> parse_headers s | None \<Rightarrow> []),
                app_notary_pubkey =
                  public_key_hex L (from_seed L (or_default ''NOTARY_SEED'' ''demo-notary-key'')),
                price = or_default ''PRICE'' ''0.05'',
                app_mode = (if var ''RESELLER_MODE'' = Some ''cheat-substitute''
                            then CheatSubstitute else Honest)\<rparr>))"

section \<open>Payments and replies\<close>

text \<open>
  The \<open>mpp\<close> SDK and the HTTP header types, as parameters: credentials \<open>'c\<close>, challenges
  \<open>'ch\<close> and payment receipts \<open>'r\<close> stay abstract.
\<close>

record ('c, 'ch, 'r) mpp_lib =
  parse_authorization :: "string \<Rightarrow> 'c option"
  verify_credential :: "'c \<Rightarrow> string + 'r"
  charge :: "string \<Rightarrow> string + 'ch"
  format_www_authenticate :: "'ch \<Rightarrow> string + string"
  reference :: "'r \<Rightarrow> string"
  payment_to_header :: "'r \<Rightarrow> string option"
  parse_receipt :: "string \<Rightarrow> 'r option"
  header_to_str :: "bytes \<Rightarrow> string option"  \<comment> \<open>\<open>HeaderValue::to_str\<close>\<close>
  valid_header :: "string \<Rightarrow> bool"  \<comment> \<open>\<open>HeaderValue\<close> accepts the string\<close>

datatype 'v reply_body = JsonBody 'v | TextBody bytes

record 'v reply =
  reply_status :: nat
  reply_headers :: "(string \<times> string) list"
  reply_body :: "'v reply_body"

definition json_reply :: "'v json_lib \<Rightarrow> nat \<Rightarrow> (string \<times> string) list \<Rightarrow> string \<Rightarrow> 'v reply" where
  "json_reply J status hs msg =
     \<lparr>reply_status = status, reply_headers = (''content-type'', ''application/json'') # hs,
      reply_body = JsonBody (jobject J [(''error'', jstring J msg)])\<rparr>"

definition server_error :: "'v json_lib \<Rightarrow> string \<Rightarrow> 'v reply" where
  "server_error J msg = json_reply J 500 [] msg"

definition challenge :: "'v json_lib \<Rightarrow> ('c, 'ch, 'r) mpp_lib \<Rightarrow> app \<Rightarrow> 'v reply" where
  "challenge J M st =
     (case charge M (price st) of
        Inr ch \<Rightarrow>
          (case format_www_authenticate M ch of
             Inr www_auth \<Rightarrow> json_reply J 402 [(''www-authenticate'', www_auth)] ''Payment Required''
           | Inl e \<Rightarrow> server_error J e)
      | Inl e \<Rightarrow> server_error J e)"

definition notary_pubkey_route :: "'v json_lib \<Rightarrow> app \<Rightarrow> 'v" where
  "notary_pubkey_route J st = jobject J [(''pubkey'', jstring J (app_notary_pubkey st))]"

section \<open>The cheating mode\<close>

definition substitute_model :: string where
  "substitute_model = ''claude-haiku-cheap-substitute''"

definition substitute_text :: string where
  "substitute_text = ''[SUBSTITUTED cheaper output '' @ em_dash @ '' not the notarized bytes]''"

text \<open>The assignment \<open>v["model"] = ..\<close> panics on a JSON value that is no object and not null.\<close>

definition substitute :: "'v json_lib \<Rightarrow> bytes \<Rightarrow> fault + bytes" where
  "substitute J real =
     (case jparse J real of
        Some v \<Rightarrow>
          (case jassign J v ''model'' (jstring J substitute_model) of
             None \<Rightarrow> Inl (Panic ''cannot access key in JSON'')
           | Some v \<Rightarrow>
               (let v = (case jget_key J v ''content'' of
                           None \<Rightarrow> v
                         | Some c \<Rightarrow>
                             (case jget_pos J c 0 of
                                None \<Rightarrow> v
                              | Some p \<Rightarrow>
                                  (case jget_key J p ''text'' of
                                     None \<Rightarrow> v
                                   | Some _ \<Rightarrow>
                                       jput_key J v ''content''
                                         (jput_pos J c 0
                                           (jput_key J p ''text'' (jstring J substitute_text))))))
                in Inr (jrender J v)))
      | None \<Rightarrow> Inr real)"

section \<open>The receipt and the response\<close>

definition make_bundle :: "leg_attestation \<Rightarrow> string \<Rightarrow> string \<Rightarrow> harness_receipt" where
  "make_bundle leg verdict_digest payment_ref =
     \<lparr>manifest_id = MANIFEST_ID,
      nodes =
        [\<lparr>node_id = ''leg0'', inputs = [], output_digest = response_digest (claim leg),
          node_proof_of = Leg leg\<rparr>,
         \<lparr>node_id = ''verdict'', inputs = [''leg0''], output_digest = verdict_digest,
          node_proof_of = Interior (Recompute VERDICT_FN_ID)\<rparr>],
      output_node = ''verdict'',
      payment_reference = Some payment_ref\<rparr>"

text \<open>
  From the attested upstream answer to the response. The builder's \<open>expect\<close> panics if a
  header value is not accepted.
\<close>

definition deliver ::
  "libs \<Rightarrow> 'v json_lib \<Rightarrow> ('c, 'ch, 'r) mpp_lib \<Rightarrow> app \<Rightarrow> 'r \<Rightarrow> bytes \<Rightarrow> leg_attestation \<Rightarrow> fault + 'v reply"
where
  "deliver L J M st receipt response_body leg =
     (case (case app_mode st of
              Honest \<Rightarrow> Inr response_body
            | CheatSubstitute \<Rightarrow> substitute J response_body) of
        Inl f \<Rightarrow> Inl f
      | Inr leg_output \<Rightarrow>
          (let verdict = starts_with_yes J leg_output;
               verdict_digest = sha256_hex L verdict;
               harness_receipt = make_bundle leg verdict_digest (reference M receipt);
               materials = bt_insert ''leg0'' leg_output [];
               hs = [(''content-type'', ''text/plain; charset=utf-8''),
                     (''payment-receipt'',
                      (case payment_to_header M receipt of Some h \<Rightarrow> h | None \<Rightarrow> [])),
                     (PROVABLY_RECEIPT_HEADER, to_header L harness_receipt),
                     (PROVABLY_MATERIALS_HEADER, materials_to_header L materials)]
           in if \<forall>(n, v) \<in> set hs. valid_header M v
              then Inr \<lparr>reply_status = 200, reply_headers = hs, reply_body = TextBody verdict\<rparr>
              else Inl (Panic ''valid response'')))"

section \<open>The handler\<close>

datatype 'c reseller_call = VerifyCredential 'c | ProverCall prover_call

definition return_sum :: "fault + 'a \<Rightarrow> ('c, 'a) script" where
  "return_sum x = (case x of Inl f \<Rightarrow> return_fault f | Inr v \<Rightarrow> return_ok v)"

definition messages ::
  "libs \<Rightarrow> 'v json_lib \<Rightarrow> ('c, 'ch, 'r) mpp_lib \<Rightarrow> prover_env \<Rightarrow> app \<Rightarrow> (string \<Rightarrow> bytes option) \<Rightarrow> bytes
     \<Rightarrow> ('c reseller_call, 'v reply) script"
where
  "messages L J M E st headers body =
     (case Option.bind (Option.bind (headers ''authorization'') (header_to_str M))
             (parse_authorization M) of
        Some credential \<Rightarrow>
          event (VerifyCredential credential)
            (case verify_credential M credential of
               Inl e \<Rightarrow> return_ok (json_reply J 402 [] e)
             | Inr receipt \<Rightarrow>
                 sub_script ProverCall (run_prover L E st body)
                   (\<lambda>result. case result of
                      Inl f \<Rightarrow>
                        (case f of
                           Bail e \<Rightarrow> return_ok (json_reply J 502 [] (''notarized upstream call failed: '' @ e))
                         | Panic m \<Rightarrow> return_fault (Panic m))
                    | Inr (response_body, leg) \<Rightarrow>
                        return_sum (deliver L J M st receipt response_body leg)))
      | None \<Rightarrow> return_ok (challenge J M st))"

section \<open>Extra headers as configured\<close>

text \<open>
  An entry of \<open>UPSTREAM_HEADERS\<close> as a user writes it: name, colon, value, with any white space
  around the two; entries are separated by semicolons.
\<close>

definition header_entry :: "string \<Rightarrow> string \<times> string \<Rightarrow> string" where
  "header_entry ws = (\<lambda>(name, value). ws @ name @ ws @ '':'' @ ws @ value @ ws)"

definition header_entry_ok :: "string \<times> string \<Rightarrow> bool" where
  "header_entry_ok = (\<lambda>(name, value).
     name \<noteq> [] \<and> value \<noteq> [] \<and> trimmed name \<and> trimmed value
     \<and> CHR '':'' \<notin> set name \<and> CHR '';'' \<notin> set name \<and> CHR '';'' \<notin> set value)"

fun header_entries :: "string \<Rightarrow> (string \<times> string) list \<Rightarrow> string" where
  "header_entries ws [] = []"
| "header_entries ws [h] = header_entry ws h"
| "header_entries ws (h # hs) = header_entry ws h @ '';'' @ header_entries ws hs"

lemma ascii_ws_no_sep: "\<forall>c \<in> set ws. ascii_ws c \<Longrightarrow> CHR '':'' \<notin> set ws \<and> CHR '';'' \<notin> set ws"
proof -
  have "\<not> ascii_ws (CHR '':'')" and "\<not> ascii_ws (CHR '';'')" by (simp_all add: ascii_ws_def)
  then show "\<forall>c \<in> set ws. ascii_ws c \<Longrightarrow> CHR '':'' \<notin> set ws \<and> CHR '';'' \<notin> set ws" by blast
qed

lemma split_entry:
  assumes "header_entry_ok (name, val)" and "\<forall>c \<in> set ws. ascii_ws c"
  shows "split_once (CHR '':'') (trim (header_entry ws (name, val))) = Some (name @ ws, ws @ val)"
    and "trim (name @ ws) = name" and "trim (ws @ val) = val"
    and "CHR '';'' \<notin> set (header_entry ws (name, val))"
proof -
  let ?core = "name @ ws @ '':'' @ ws @ val"
  have "trimmed ?core"
    using assms(1) by (auto simp: trimmed_def header_entry_ok_def)
  then have "trim (ws @ ?core @ ws) = ?core"
    using assms(2) by (intro trim_padded)
  then show "split_once (CHR '':'') (trim (header_entry ws (name, val))) = Some (name @ ws, ws @ val)"
    using split_once_append [of "CHR '':''" "name @ ws" "ws @ val"] assms ascii_ws_no_sep [OF assms(2)]
    by (simp add: header_entry_def header_entry_ok_def)
  show "trim (name @ ws) = name" and "trim (ws @ val) = val"
    using trim_padded [of "[]" ws name] trim_padded [of ws "[]" val] assms
    by (simp_all add: header_entry_ok_def)
  show "CHR '';'' \<notin> set (header_entry ws (name, val))"
    using assms ascii_ws_no_sep [OF assms(2)] by (simp add: header_entry_def header_entry_ok_def)
qed

lemma parse_headers_Nil: "parse_headers [] = []"
  by (simp add: parse_headers_def List.map_filter_simps trim_fix)

lemma parse_headers_pieces:
  assumes "CHR '';'' \<notin> set piece"
  shows "parse_headers piece =
           (case split_once (CHR '':'') (trim piece) of
              None \<Rightarrow> [] | Some (name, value) \<Rightarrow> [(trim name, trim value)])"
    and "parse_headers (piece @ '';'' @ raw) = parse_headers piece @ parse_headers raw"
proof -
  have no: "\<forall>x \<in> set piece. x \<noteq> CHR '';''" using assms by auto
  show one: "parse_headers piece =
           (case split_once (CHR '':'') (trim piece) of
              None \<Rightarrow> [] | Some (name, value) \<Rightarrow> [(trim name, trim value)])"
    using split_on_none [of piece "\<lambda>c. c = CHR '';''"] no
    by (simp add: parse_headers_def List.map_filter_simps split: option.split)
  show "parse_headers (piece @ '';'' @ raw) = parse_headers piece @ parse_headers raw"
    using split_on_append [of piece "\<lambda>c. c = CHR '';''" "CHR '';''" raw] no
    unfolding one
    by (simp add: parse_headers_def List.map_filter_simps split: option.split)
qed

lemma parse_header_entry:
  assumes "header_entry_ok h" and "\<forall>c \<in> set ws. ascii_ws c"
  shows "parse_headers (header_entry ws h) = [h]"
    and "parse_headers (header_entry ws h @ '';'' @ raw) = h # parse_headers raw"
proof -
  obtain name val where h: "h = (name, val)" by (cases h)
  note split = split_entry [OF assms(1) [unfolded h] assms(2)]
  show one: "parse_headers (header_entry ws h) = [h]"
    using split by (simp add: h parse_headers_pieces(1))
  then show "parse_headers (header_entry ws h @ '';'' @ raw) = h # parse_headers raw"
    using parse_headers_pieces(2) [OF split(4), of raw] by (simp add: h)
qed

lemma parse_headers_entries:
  assumes "\<forall>c \<in> set ws. ascii_ws c"
  shows "\<forall>h \<in> set hs. header_entry_ok h \<Longrightarrow> parse_headers (header_entries ws hs) = hs"
proof (induction hs rule: induct_list012)
  case (3 h h' hs)
  then have "header_entry_ok h" and "parse_headers (header_entries ws (h' # hs)) = h' # hs" by simp_all
  then show ?case
    by (simp only: header_entries.simps parse_header_entry(2) [OF _ assms])
qed (simp_all add: parse_headers_Nil parse_header_entry(1) assms)

section \<open>The handler, branch by branch\<close>

definition presented :: "('c, 'ch, 'r) mpp_lib \<Rightarrow> (string \<Rightarrow> bytes option) \<Rightarrow> 'c option" where
  "presented M headers =
     Option.bind (Option.bind (headers ''authorization'') (header_to_str M)) (parse_authorization M)"

lemma messages_unpaid:
  "presented M headers = None \<Longrightarrow> messages L J M E st headers body [] = (Inr (challenge J M st), [])"
  by (simp add: messages_def presented_def return_ok_def)

lemma messages_refused:
  "presented M headers = Some c \<Longrightarrow> verify_credential M c = Inl e \<Longrightarrow>
   messages L J M E st headers body [] = (Inr (json_reply J 402 [] e), [VerifyCredential c])"
  by (simp add: messages_def presented_def script_simps)

lemma messages_paid:
  assumes "presented M headers = Some c" and "verify_credential M c = Inr receipt"
    and "run_prover L E st body [] = (result, calls)"
  shows "messages L J M E st headers body [] =
    ((case result of
        Inl (Bail e) \<Rightarrow> Inr (json_reply J 502 [] (''notarized upstream call failed: '' @ e))
      | Inl (Panic m) \<Rightarrow> Inl (Panic m)
      | Inr (response_body, leg) \<Rightarrow> deliver L J M st receipt response_body leg),
     VerifyCredential c # map ProverCall calls)"
  using assms
  by (simp add: messages_def presented_def script_simps return_sum_def
      split: sum.split fault.split prod.split)

lemma messages_cases:
  assumes "messages L J M E st headers body [] = (res, tr)"
  obtains (unpaid) "presented M headers = None" "res = Inr (challenge J M st)" "tr = []"
  | (refused) c e where "presented M headers = Some c" "verify_credential M c = Inl e"
      "res = Inr (json_reply J 402 [] e)" "tr = [VerifyCredential c]"
  | (failed) c receipt e calls where "presented M headers = Some c" "verify_credential M c = Inr receipt"
      "run_prover L E st body [] = (Inl (Bail e), calls)"
      "res = Inr (json_reply J 502 [] (''notarized upstream call failed: '' @ e))"
      "tr = VerifyCredential c # map ProverCall calls"
  | (crashed) c receipt m calls where "presented M headers = Some c" "verify_credential M c = Inr receipt"
      "run_prover L E st body [] = (Inl (Panic m), calls)" "res = Inl (Panic m)"
      "tr = VerifyCredential c # map ProverCall calls"
  | (answered) c receipt response_body leg calls where "presented M headers = Some c"
      "verify_credential M c = Inr receipt"
      "run_prover L E st body [] = (Inr (response_body, leg), calls)"
      "res = deliver L J M st receipt response_body leg"
      "tr = VerifyCredential c # map ProverCall calls"
proof (cases "presented M headers")
  case None
  show ?thesis
    by (rule unpaid) (use None assms messages_unpaid [OF None, of L J E st body] in simp_all)
next
  case (Some c)
  show ?thesis
  proof (cases "verify_credential M c")
    case (Inl e)
    show ?thesis
      by (rule refused [OF Some Inl])
        (use assms messages_refused [OF Some Inl, of L J E st body] in simp_all)
  next
    case (Inr receipt)
    obtain result calls where run: "run_prover L E st body [] = (result, calls)"
      by (cases "run_prover L E st body []")
    note eq = messages_paid [OF Some Inr run, of J, unfolded assms]
    consider (b) e where "result = Inl (Bail e)" | (p) m where "result = Inl (Panic m)"
      | (ok) response_body leg where "result = Inr (response_body, leg)"
      by (cases result; cases "projl result"; cases "projr result") auto
    then show ?thesis
    proof cases
      case b
      with eq run show ?thesis by (intro failed [OF Some Inr]) simp_all
    next
      case p
      with eq run show ?thesis by (intro crashed [OF Some Inr]) simp_all
    next
      case ok
      with eq run show ?thesis by (intro answered [OF Some Inr]) simp_all
    qed
  qed
qed

text \<open>Only a delivery has status 200.\<close>

lemma json_reply_status [simp]: "reply_status (json_reply J s hs m) = s"
  by (simp add: json_reply_def)

lemma challenge_status: "reply_status (challenge J M st) \<in> {402, 500}"
  by (simp add: challenge_def server_error_def split: sum.split)

lemma deliver_reply:
  assumes "deliver L J M st receipt response_body leg = Inr reply"
  shows "reply_status reply = 200"
    and "\<exists>answer. (case app_mode st of Honest \<Rightarrow> Inr response_body
                   | CheatSubstitute \<Rightarrow> substitute J response_body) = Inr answer
           \<and> reply_body reply = TextBody (starts_with_yes J answer)"
  using assms by (auto simp: deliver_def Let_def split: sum.splits if_splits)

end
