(* ===== verification/Buyer.thy ===== *)
theory Buyer
  imports Reseller
begin

text \<open>
  \<open>examples/buyer/src/main.rs\<close>: the paying agent. It pins a notary key, sends the paid
  request, checks the shipped materials against the receipt's digests, re-runs the interior
  transforms over the materials that passed, and verifies the receipt. The network, the
  wallet and the payment protocol are parameters; every \<open>expect\<close> is a panic of the outcome.
  The lemmas relate a verified outcome to what the receipt then justifies.
\<close>

section \<open>The response\<close>

record http_response =
  resp_success :: bool  \<comment> \<open>\<open>status().is_success()\<close>\<close>
  resp_headers :: "string \<Rightarrow> bytes option"
  resp_body :: "bytes option"  \<comment> \<open>\<open>None\<close> if reading the body fails\<close>

definition resp_header :: "('c, 'ch, 'r) mpp_lib \<Rightarrow> http_response \<Rightarrow> string \<Rightarrow> string option" where
  "resp_header M resp name = Option.bind (resp_headers resp name) (header_to_str M)"

section \<open>Materials and recomputation\<close>

definition committed_digests :: "harness_receipt \<Rightarrow> string hash_map" where
  "committed_digests r = hm_collect (map (\<lambda>n. (node_id n, output_digest n)) (nodes r))"

definition material_ok :: "libs \<Rightarrow> string hash_map \<Rightarrow> string \<times> bytes \<Rightarrow> bool" where
  "material_ok L committed = (\<lambda>(i, bytes).
     case hm_get committed i of Some d \<Rightarrow> d = sha256_hex L bytes | None \<Rightarrow> False)"

definition material_checks :: "libs \<Rightarrow> harness_receipt \<Rightarrow> bytes btree_map \<Rightarrow> check list" where
  "material_checks L r materials =
     map (\<lambda>(i, bytes). check_new (''material '' @ i @ '' matches committed digest'')
                          (material_ok L (committed_digests r) (i, bytes)))
       materials"

definition trusted_materials :: "libs \<Rightarrow> harness_receipt \<Rightarrow> bytes btree_map \<Rightarrow> bytes hash_map" where
  "trusted_materials L r materials =
     hm_collect (filter (material_ok L (committed_digests r)) materials)"

definition recompute_node :: "libs \<Rightarrow> 'v json_lib \<Rightarrow> bytes hash_map \<Rightarrow> node \<Rightarrow> (string \<times> string) option" where
  "recompute_node L J trusted n =
     (case node_proof_of n of
        Leg _ \<Rightarrow> None
      | Interior (Recompute f) \<Rightarrow>
          (case those (map (hm_get trusted) (inputs n)) of
             None \<Rightarrow> None
           | Some ins \<Rightarrow>
               (case recompute J f ins of
                  None \<Rightarrow> None
                | Some out \<Rightarrow> Some (node_id n, sha256_hex L out))))"

definition recompute_all ::
  "libs \<Rightarrow> 'v json_lib \<Rightarrow> harness_receipt \<Rightarrow> bytes hash_map \<Rightarrow> (string \<times> string) list" where
  "recompute_all L J r trusted = List.map_filter (recompute_node L J trusted) (nodes r)"

section \<open>The decision\<close>

datatype buyer_outcome =
    BuyerPanic string
  | NotServed bytes
  | Verified "check list"
  | Rejected "check list"

definition buyer_expectation ::
  "libs \<Rightarrow> 'v json_lib \<Rightarrow> string \<Rightarrow> string \<Rightarrow> string \<Rightarrow> string \<Rightarrow> bytes \<Rightarrow> harness_receipt
     \<Rightarrow> bytes btree_map \<Rightarrow> expectation" where
  "buyer_expectation L J pinned_pubkey expected_upstream request_dig payment_ref body r materials =
     \<lparr>exp_manifest = \<lparr>manifest_ident = MANIFEST_ID, hosts = [expected_upstream]\<rparr>,
      exp_notary_pubkey = Some pinned_pubkey,
      served_output_digest = sha256_hex L body,
      exp_payment_reference = payment_ref,
      served_request_digest = Some request_dig,
      recomputed = recompute_all L J r (trusted_materials L r materials)\<rparr>"

lemma buyer_expectation_sel [simp]:
  "exp_manifest (buyer_expectation L J k h q p b r m) = \<lparr>manifest_ident = MANIFEST_ID, hosts = [h]\<rparr>"
  "exp_notary_pubkey (buyer_expectation L J k h q p b r m) = Some k"
  "served_output_digest (buyer_expectation L J k h q p b r m) = sha256_hex L b"
  "exp_payment_reference (buyer_expectation L J k h q p b r m) = p"
  "served_request_digest (buyer_expectation L J k h q p b r m) = Some q"
  "recomputed (buyer_expectation L J k h q p b r m) = recompute_all L J r (trusted_materials L r m)"
  by (simp_all add: buyer_expectation_def)

definition judge_bundle ::
  "libs \<Rightarrow> 'v json_lib \<Rightarrow> string \<Rightarrow> string \<Rightarrow> string \<Rightarrow> string \<Rightarrow> bytes \<Rightarrow> harness_receipt
     \<Rightarrow> bytes btree_map \<Rightarrow> buyer_outcome" where
  "judge_bundle L J pinned_pubkey expected_upstream request_dig payment_ref body r materials =
     (let checks = verify L r (buyer_expectation L J pinned_pubkey expected_upstream request_dig
                                 payment_ref body r materials);
          all = material_checks L r materials @ checks
      in if \<forall>c \<in> set all. passed c then Verified all else Rejected all)"

definition judge_response ::
  "libs \<Rightarrow> 'v json_lib \<Rightarrow> ('c, 'ch, 'r) mpp_lib \<Rightarrow> string \<Rightarrow> string \<Rightarrow> string \<Rightarrow> http_response
     \<Rightarrow> buyer_outcome" where
  "judge_response L J M pinned_pubkey expected_upstream request_dig resp =
     (let receipt_hdr = resp_header M resp ''payment-receipt'';
          bundle_hdr = resp_header M resp PROVABLY_RECEIPT_HEADER;
          materials_hdr = resp_header M resp PROVABLY_MATERIALS_HEADER
      in case resp_body resp of
           None \<Rightarrow> BuyerPanic ''read body''
         | Some body \<Rightarrow>
             if \<not> resp_success resp then NotServed body
             else (case map_option (materials_from_header L) materials_hdr of
               None \<Rightarrow> BuyerPanic ''missing materials header''
             | Some (Inl _) \<Rightarrow> BuyerPanic ''malformed materials header''
             | Some (Inr materials) \<Rightarrow>
                 (case Option.bind receipt_hdr (parse_receipt M) of
                    None \<Rightarrow> BuyerPanic ''missing/invalid payment receipt''
                  | Some receipt \<Rightarrow>
                      (case map_option (read_receipt_header L) bundle_hdr of
                         None \<Rightarrow> BuyerPanic ''missing provably receipt''
                       | Some (Inl _) \<Rightarrow> BuyerPanic ''malformed provably receipt''
                       | Some (Inr harness_receipt) \<Rightarrow>
                           judge_bundle L J pinned_pubkey expected_upstream request_dig
                             (reference M receipt) body harness_receipt materials))))"

section \<open>The whole run\<close>

text \<open>What the environment and the network yield in a run.\<close>

record 'v buyer_env =
  be_var :: "string \<Rightarrow> string option"
  be_arg :: "string option"  \<comment> \<open>\<open>args().nth(1)\<close>\<close>
  be_url_ok :: "string \<Rightarrow> bool"  \<comment> \<open>the RPC URL parses\<close>
  be_fund :: bool  \<comment> \<open>the faucet call succeeds\<close>
  be_provider :: bool  \<comment> \<open>\<open>TempoProvider::new\<close> succeeds\<close>
  be_get :: "string \<Rightarrow> string + 'v"  \<comment> \<open>GET and decode JSON, or the failed \<open>expect\<close>\<close>
  be_send :: "string \<Rightarrow> bytes \<Rightarrow> http_response option"  \<comment> \<open>the paid POST\<close>

definition var_or :: "'v buyer_env \<Rightarrow> string \<Rightarrow> string \<Rightarrow> string" where
  "var_or E name d = (case be_var E name of Some s \<Rightarrow> s | None \<Rightarrow> d)"

definition request_payload :: "'v json_lib \<Rightarrow> string \<Rightarrow> 'v" where
  "request_payload J prompt =
     jobject J
       [(''model'', jstring J ''claude-haiku-4-5-20251001''),
        (''max_tokens'', jnumber J 256),
        (''messages'',
         jarray J [jobject J [(''role'', jstring J ''user''), (''content'', jstring J prompt)]])]"

definition pinned_key :: "'v json_lib \<Rightarrow> 'v buyer_env \<Rightarrow> string \<Rightarrow> string + string" where
  "pinned_key J E reseller =
     (case be_var E ''NOTARY_PUBKEY'' of
        Some k \<Rightarrow> Inr k
      | None \<Rightarrow>
          (case be_get E (reseller @ ''/notary/pubkey'') of
             Inl m \<Rightarrow> Inl m
           | Inr v \<Rightarrow> Inr (case jas_str J (jkey J v ''pubkey'') of Some s \<Rightarrow> s | None \<Rightarrow> [])))"

definition buyer_main ::
  "libs \<Rightarrow> 'v json_lib \<Rightarrow> ('c, 'ch, 'r) mpp_lib \<Rightarrow> 'v buyer_env \<Rightarrow> buyer_outcome" where
  "buyer_main L J M E =
     (let rpc_url = var_or E ''RPC_URL'' ''https://rpc.moderato.tempo.xyz'';
          reseller = var_or E ''RESELLER_URL'' ''http://localhost:3000'';
          expected_upstream = var_or E ''EXPECTED_UPSTREAM'' ''api.anthropic.com'';
          prompt = (case be_arg E of Some p \<Rightarrow> p
                    | None \<Rightarrow> ''Is the sky blue? Begin your answer with Yes or No.'')
      in if \<not> be_url_ok E rpc_url then BuyerPanic ''called `Result::unwrap()` on an `Err` value''
         else if \<not> be_fund E then BuyerPanic ''faucet funding failed''
         else if \<not> be_provider E then BuyerPanic ''provider''
         else (case pinned_key J E reseller of
             Inl m \<Rightarrow> BuyerPanic m
           | Inr pinned_pubkey \<Rightarrow>
               (let request_body = jrender J (request_payload J prompt);
                    request_dig = sha256_hex L request_body
                in case be_send E (reseller @ ''/v1/messages'') request_body of
                     None \<Rightarrow> BuyerPanic ''request failed''
                   | Some resp \<Rightarrow>
                       judge_response L J M pinned_pubkey expected_upstream request_dig resp)))"

section \<open>What a verified outcome says\<close>

lemma material_checks_passed:
  "all_passed (material_checks L r m) \<longleftrightarrow> (\<forall>x \<in> set m. material_ok L (committed_digests r) x)"
  by (induction m) (auto simp: material_checks_def)

lemma judge_bundle_verified:
  "(\<exists>cs. judge_bundle L J k h q p body r m = Verified cs) \<longleftrightarrow>
     accepts L r (buyer_expectation L J k h q p body r m) \<and>
     (\<forall>x \<in> set m. material_ok L (committed_digests r) x)"
proof -
  let ?v = "verify L r (buyer_expectation L J k h q p body r m)"
  have "(\<exists>cs. judge_bundle L J k h q p body r m = Verified cs) \<longleftrightarrow> all_passed (material_checks L r m @ ?v)"
    by (simp only: judge_bundle_def Let_def all_passed_def [symmetric]) simp
  then show ?thesis
    by (simp only: all_passed_simps verify_accepts material_checks_passed) blast
qed

lemma judge_bundle_cases:
  "(\<exists>cs. judge_bundle L J k h q p body r m = Verified cs) \<or>
   (\<exists>cs. judge_bundle L J k h q p body r m = Rejected cs)"
  by (simp add: judge_bundle_def Let_def)

lemma committed_digestsD:
  "hm_get (committed_digests r) i = Some d \<Longrightarrow> \<exists>n \<in> set (nodes r). node_id n = i \<and> output_digest n = d"
  by (auto simp: committed_digests_def hm_get_collect dest!: map_of_SomeD)

lemma trusted_materialsD:
  assumes "hm_get (trusted_materials L r m) i = Some b"
  shows "(i, b) \<in> set m" and "hm_get (committed_digests r) i = Some (sha256_hex L b)"
proof -
  have "(i, b) \<in> set (filter (material_ok L (committed_digests r)) m)"
    using assms by (auto simp: trusted_materials_def hm_get_collect dest!: map_of_SomeD)
  then show "(i, b) \<in> set m" and "hm_get (committed_digests r) i = Some (sha256_hex L b)"
    by (auto simp: material_ok_def split: option.splits)
qed

lemma those_eq_Some:
  "those xs = Some ys \<longleftrightarrow> xs = map Some ys"
  by (induction xs arbitrary: ys) (auto split: option.splits)

text \<open>A recomputed digest comes from a node of that id, run over trusted inputs.\<close>

lemma recompute_allD:
  assumes "map_of (recompute_all L J r (trusted_materials L r m)) i = Some d"
  shows "\<exists>n f ins out. n \<in> set (nodes r) \<and> node_id n = i \<and> node_proof_of n = Interior (Recompute f)
           \<and> length ins = length (inputs n)
           \<and> (\<forall>j < length ins. hm_get (trusted_materials L r m) (inputs n ! j) = Some (ins ! j))
           \<and> recompute J f ins = Some out \<and> d = sha256_hex L out"
proof -
  have "(i, d) \<in> set (recompute_all L J r (trusted_materials L r m))"
    using assms by (rule map_of_SomeD)
  then obtain n where n: "n \<in> set (nodes r)"
      and rn: "recompute_node L J (trusted_materials L r m) n = Some (i, d)"
    by (auto simp: recompute_all_def List.map_filter_def)
  then obtain f ins out where "node_proof_of n = Interior (Recompute f)"
      and ins: "map (hm_get (trusted_materials L r m)) (inputs n) = map Some ins"
      and "recompute J f ins = Some out" and "i = node_id n" and "d = sha256_hex L out"
    by (auto simp: recompute_node_def those_eq_Some split: node_proof.splits interior_proof.splits
        option.splits)
  moreover have "length ins = length (inputs n)"
    using ins by (metis length_map)
  moreover have "\<forall>j < length ins. hm_get (trusted_materials L r m) (inputs n ! j) = Some (ins ! j)"
    using ins by (metis calculation(6) nth_map)
  ultimately show ?thesis using n by blast
qed

text \<open>With distinct ids that node is the one in question.\<close>

lemma interior_justified:
  assumes "accepts L r (buyer_expectation L J k h q p body r m)" and "distinct (map node_id (nodes r))"
    and "n \<in> set (nodes r)" and "node_proof_of n = Interior (Recompute f)"
  shows "\<exists>ins out. length ins = length (inputs n)
     \<and> (\<forall>j < length ins. (inputs n ! j, ins ! j) \<in> set m
          \<and> (\<exists>n' \<in> set (nodes r). node_id n' = inputs n ! j \<and> output_digest n' = sha256_hex L (ins ! j)))
     \<and> f = VERDICT_FN_ID \<and> recompute J f ins = Some out \<and> output_digest n = sha256_hex L out"
proof -
  have "map_of (recompute_all L J r (trusted_materials L r m)) (node_id n) = Some (output_digest n)"
    using accepts_interior [OF assms(1,3,4)] by simp
  from recompute_allD [OF this] obtain n' g ins out where n': "n' \<in> set (nodes r)" "node_id n' = node_id n"
      "node_proof_of n' = Interior (Recompute g)" "length ins = length (inputs n')"
      "\<forall>j < length ins. hm_get (trusted_materials L r m) (inputs n' ! j) = Some (ins ! j)"
      "recompute J g ins = Some out" "output_digest n = sha256_hex L out"
    by blast
  have same: "n' = n"
    using assms(2,3) n'(1,2) by (auto simp: distinct_map inj_on_def)
  have "f = VERDICT_FN_ID"
    using n'(3,6) assms(4) by (auto simp: same recompute_def split: if_splits)
  moreover have "(inputs n ! j, ins ! j) \<in> set m
      \<and> (\<exists>n' \<in> set (nodes r). node_id n' = inputs n ! j \<and> output_digest n' = sha256_hex L (ins ! j))"
    if "j < length ins" for j
    using that n'(5) trusted_materialsD committed_digestsD unfolding same by metis
  ultimately show ?thesis
    using n' assms(4) by (intro exI [of _ ins] exI [of _ out]) (auto simp: same)
qed

section \<open>The whole run, when it ends well\<close>

text \<open>The three headers and the body of a successful response, decoded.\<close>

definition served :: "libs \<Rightarrow> ('c, 'ch, 'r) mpp_lib \<Rightarrow> http_response \<Rightarrow> bytes \<Rightarrow> bytes btree_map \<Rightarrow> 'r
     \<Rightarrow> harness_receipt \<Rightarrow> bool" where
  "served L M resp body materials receipt r \<longleftrightarrow>
     resp_success resp \<and> resp_body resp = Some body \<and>
     map_option (materials_from_header L) (resp_header M resp PROVABLY_MATERIALS_HEADER) = Some (Inr materials) \<and>
     Option.bind (resp_header M resp ''payment-receipt'') (parse_receipt M) = Some receipt \<and>
     map_option (read_receipt_header L) (resp_header M resp PROVABLY_RECEIPT_HEADER) = Some (Inr r)"

lemma judge_response_served:
  "served L M resp body materials receipt r \<Longrightarrow>
     judge_response L J M k h q resp = judge_bundle L J k h q (reference M receipt) body r materials"
  by (auto simp: judge_response_def served_def Let_def)

lemma judge_response_verified:
  assumes "judge_response L J M k h q resp = Verified cs"
  obtains body materials receipt r where "served L M resp body materials receipt r"
    "judge_bundle L J k h q (reference M receipt) body r materials = Verified cs"
  using assms
  by (auto simp: judge_response_def served_def Let_def split: option.splits if_splits sum.splits)

definition buyer_request :: "'v json_lib \<Rightarrow> 'v buyer_env \<Rightarrow> bytes" where
  "buyer_request J E =
     jrender J (request_payload J
       (case be_arg E of Some p \<Rightarrow> p
        | None \<Rightarrow> ''Is the sky blue? Begin your answer with Yes or No.''))"

definition buyer_ready :: "'v buyer_env \<Rightarrow> bool" where
  "buyer_ready E \<longleftrightarrow> be_url_ok E (var_or E ''RPC_URL'' ''https://rpc.moderato.tempo.xyz'')
     \<and> be_fund E \<and> be_provider E"

definition reseller_url :: "'v buyer_env \<Rightarrow> string" where
  "reseller_url E = var_or E ''RESELLER_URL'' ''http://localhost:3000''"

lemma buyer_main_ready:
  assumes "buyer_ready E" and "pinned_key J E (reseller_url E) = Inr k"
    and "be_send E (reseller_url E @ ''/v1/messages'') (buyer_request J E) = Some resp"
  shows "buyer_main L J M E =
    judge_response L J M k (var_or E ''EXPECTED_UPSTREAM'' ''api.anthropic.com'')
      (sha256_hex L (buyer_request J E)) resp"
  using assms
  by (cases "be_arg E")
    (simp_all add: buyer_main_def buyer_ready_def reseller_url_def buyer_request_def Let_def)

lemma buyer_main_verified:
  assumes "buyer_main L J M E = Verified cs"
  obtains k resp where "buyer_ready E" "pinned_key J E (reseller_url E) = Inr k"
    "be_send E (reseller_url E @ ''/v1/messages'') (buyer_request J E) = Some resp"
    "judge_response L J M k (var_or E ''EXPECTED_UPSTREAM'' ''api.anthropic.com'')
       (sha256_hex L (buyer_request J E)) resp = Verified cs"
proof -
  have ready: "buyer_ready E"
    using assms by (auto simp: buyer_main_def buyer_ready_def Let_def split: if_splits)
  obtain k where k: "pinned_key J E (reseller_url E) = Inr k"
    using assms
    by (cases "pinned_key J E (reseller_url E)")
      (auto simp: buyer_main_def reseller_url_def Let_def split: if_splits)
  obtain resp where resp: "be_send E (reseller_url E @ ''/v1/messages'') (buyer_request J E) = Some resp"
    using assms ready k
    by (cases "be_send E (reseller_url E @ ''/v1/messages'') (buyer_request J E)")
      (auto simp: buyer_main_def buyer_ready_def reseller_url_def buyer_request_def Let_def)
  show thesis
    using that [OF ready k resp] assms buyer_main_ready [OF ready k resp, of L M] by simp
qed

end
