(* ===== verification/Http_Message.thy ===== *)
theory Http_Message
  imports Rust_Text
begin

text \<open>
  The HTTP reading functions of \<open>tlsn/notary/src/main.rs\<close>: the decoded body of a message,
  with the chunked transfer coding undone, the request line and the status code. The loop of
  \<open>dechunk\<close> terminates because every round consumes a line end. It undoes every well-formed
  chunked coding, and on any input it returns a subsequence of it.
\<close>

definition crlf :: bytes where
  "crlf = [CHR 0x0D, CHR 0x0A]"

lemma length_crlf [simp]: "length crlf = 2"
  by (simp add: crlf_def)

section \<open>Chunked bodies\<close>

text \<open>The size a chunk line announces; anything unreadable counts as \<open>0\<close>.\<close>

definition chunk_size :: "bytes \<Rightarrow> nat" where
  "chunk_size line =
     (let hex = hd (split_on (\<lambda>b. b = CHR '';'') line)
      in case from_utf8 hex of
           None \<Rightarrow> 0
         | Some s \<Rightarrow> (case parse_uint 16 (2 ^ 64) (trim s) of None \<Rightarrow> 0 | Some n \<Rightarrow> n))"

function dechunk_loop :: "bytes \<Rightarrow> bytes \<Rightarrow> bytes" where
  "dechunk_loop body out =
     (case position (\<lambda>w. w = crlf) (windows 2 body) of
        None \<Rightarrow> out
      | Some nl \<Rightarrow>
          (let size = chunk_size (take nl body);
               data = drop (nl + 2) body
           in if size = 0 \<or> length data < size then out
              else (let rest = drop size data
                    in dechunk_loop (if prefix crlf rest then drop 2 rest else rest)
                         (out @ take size data))))"
  by pat_completeness auto
termination
proof (relation "measure (\<lambda>(body, out). length body)", simp)
  fix body out nl size data rest
  assume "position (\<lambda>w. w = crlf) (windows 2 body) = Some nl"
  then have "nl + 2 \<le> length body"
    using position_windows_Some [of crlf body nl] by (simp add: occurs_at_def)
  moreover assume "data = drop (nl + 2) body" and "rest = drop size data"
  ultimately show "((if prefix crlf rest then drop 2 rest else rest, out @ take size data), body, out)
      \<in> measure (\<lambda>(body, out). length body)"
    by auto
qed

declare dechunk_loop.simps [simp del]

definition dechunk :: "bytes \<Rightarrow> bytes" where
  "dechunk body = dechunk_loop body []"

text \<open>The accumulator is only appended to.\<close>

lemma dechunk_loop_out: "dechunk_loop body (pre @ out) = pre @ dechunk_loop body out"
proof (induction body out rule: dechunk_loop.induct)
  case (1 body out)
  show ?case
  proof (cases "position (\<lambda>w. w = crlf) (windows 2 body)")
    case None
    then show ?thesis by (simp add: dechunk_loop.simps [of body])
  next
    case (Some nl)
    note IH = 1 [OF Some refl refl _ refl]
    show ?thesis
      using Some IH by (auto simp: dechunk_loop.simps [of body] Let_def)
  qed
qed

lemma dechunk_loop_dechunk: "dechunk_loop body out = out @ dechunk body"
  using dechunk_loop_out [of body out "[]"] by (simp add: dechunk_def)

text \<open>One round of the loop, as an equation for \<^term>\<open>dechunk\<close>.\<close>

definition skip_crlf :: "bytes \<Rightarrow> bytes" where
  "skip_crlf rest = (if prefix crlf rest then drop 2 rest else rest)"

lemma dechunk_unfold:
  "dechunk body =
     (case position (\<lambda>w. w = crlf) (windows 2 body) of
        None \<Rightarrow> []
      | Some nl \<Rightarrow>
          (let size = chunk_size (take nl body);
               data = drop (nl + 2) body
           in if size = 0 \<or> length data < size then []
              else take size data @ dechunk (skip_crlf (drop size data))))"
  unfolding dechunk_def [of body]
  by (subst dechunk_loop.simps)
    (simp add: skip_crlf_def dechunk_loop_dechunk Let_def split: option.split)

lemma dechunk_induct [case_names step]:
  assumes "\<And>body. (\<And>nl data. position (\<lambda>w. w = crlf) (windows 2 body) = Some nl \<Longrightarrow>
       data = drop (nl + 2) body \<Longrightarrow> chunk_size (take nl body) \<noteq> 0 \<Longrightarrow>
       chunk_size (take nl body) \<le> length data \<Longrightarrow>
       P (skip_crlf (drop (chunk_size (take nl body)) data))) \<Longrightarrow> P body"
  shows "P body"
proof (induction body rule: length_induct)
  case (1 body)
  show ?case
  proof (rule assms)
    fix nl data
    assume nl: "position (\<lambda>w. w = crlf) (windows 2 body) = Some nl" and data: "data = drop (nl + 2) body"
    have "nl + 2 \<le> length body"
      using nl position_windows_Some [of crlf body nl] by (simp add: occurs_at_def)
    then have "length (skip_crlf (drop (chunk_size (take nl body)) data)) < length body"
      by (auto simp: data skip_crlf_def)
    with 1 show "P (skip_crlf (drop (chunk_size (take nl body)) data))" by blast
  qed
qed

text \<open>On any input the result only has bytes of the input, in their order.\<close>

lemma subseq_drop_prefix: "subseq xs (drop n ys) \<Longrightarrow> subseq xs ys"
  by (metis append_take_drop_id list_emb_append2)

lemma subseq_skip_crlf: "subseq xs (skip_crlf ys) \<Longrightarrow> subseq xs ys"
  by (auto simp: skip_crlf_def dest: subseq_drop_prefix split: if_splits)

lemma subseq_dechunk: "subseq (dechunk body) body"
proof (induction body rule: dechunk_induct)
  case (step body)
  show ?case
  proof (cases "position (\<lambda>w. w = crlf) (windows 2 body)")
    case None
    then show ?thesis by (simp add: dechunk_unfold [of body])
  next
    case (Some nl)
    define size where "size = chunk_size (take nl body)"
    define data where "data = drop (nl + 2) body"
    show ?thesis
    proof (cases "size = 0 \<or> length data < size")
      case True
      with Some show ?thesis
        by (simp add: dechunk_unfold [of body] Let_def size_def data_def)
    next
      case False
      with step [OF Some data_def] have "subseq (dechunk (skip_crlf (drop size data))) (drop size data)"
        by (auto intro: subseq_skip_crlf simp: size_def)
      then have "subseq (take size data @ dechunk (skip_crlf (drop size data))) (take size data @ drop size data)"
        by (intro list_emb_append_mono subseq_order.order_refl)
      moreover have "dechunk body = take size data @ dechunk (skip_crlf (drop size data))"
        using Some False
        by (simp add: dechunk_unfold [of body] Let_def size_def data_def)
      ultimately have "subseq (dechunk body) data"
        by (simp only: append_take_drop_id)
      then show ?thesis
        unfolding data_def by (rule subseq_drop_prefix)
    qed
  qed
qed

text \<open>
  A chunk on the wire: a size line that announces the data's length (without a carriage
  return in it), the data, a line end. The size in hexadecimal, with or without a chunk
  extension, is such a line.
\<close>

definition announces :: "bytes \<Rightarrow> nat \<Rightarrow> bool" where
  "announces line n \<longleftrightarrow> CHR 0x0D \<notin> set line \<and> chunk_size line = n"

lemma position_crlf:
  "CHR 0x0D \<notin> set line \<Longrightarrow> position (\<lambda>w. w = crlf) (windows 2 (line @ crlf @ rest)) = Some (length line)"
proof -
  assume no_cr: "CHR 0x0D \<notin> set line"
  have "position (\<lambda>w. w = crlf) (windows (length crlf) (line @ crlf @ rest)) = Some (length line)"
    unfolding position_windows_Some
  proof (intro conjI allI impI notI)
    show "occurs_at crlf (line @ crlf @ rest) (length line)"
      by (simp add: occurs_at_def)
    fix j assume j: "j < length line" and "occurs_at crlf (line @ crlf @ rest) j"
    then have "take 2 (drop j (line @ crlf @ rest)) ! 0 = crlf ! 0"
      by (simp add: occurs_at_def)
    with j have "line ! j = CHR 0x0D"
      by (simp add: crlf_def nth_append)
    with j no_cr show False
      using nth_mem by fastforce
  qed
  then show ?thesis by simp
qed

lemma dechunk_chunk:
  assumes "announces line (length d)" and "d \<noteq> []"
  shows "dechunk (line @ crlf @ d @ crlf @ rest) = d @ dechunk rest"
  using assms
  by (subst dechunk_unfold)
    (simp add: announces_def position_crlf Let_def skip_crlf_def)

lemma dechunk_last:
  assumes "announces line 0"
  shows "dechunk (line @ crlf @ rest) = []"
  using assms by (subst dechunk_unfold) (simp add: announces_def position_crlf Let_def)

lemma dechunk_truncated:
  assumes "announces line n" and "length d < n"
  shows "dechunk (line @ crlf @ d) = []"
  using assms by (subst dechunk_unfold) (simp add: announces_def position_crlf Let_def)

definition chunked :: "(bytes \<times> bytes) list \<Rightarrow> bytes" where
  "chunked cs = concat (map (\<lambda>(line, d). line @ crlf @ d @ crlf) cs)"

lemma dechunk_chunked:
  "\<forall>(line, d) \<in> set cs. announces line (length d) \<and> d \<noteq> [] \<Longrightarrow>
     dechunk (chunked cs @ rest) = concat (map snd cs) @ dechunk rest"
  by (induction cs) (auto simp: chunked_def dechunk_chunk)

lemma announces_hex:
  assumes "n < 2 ^ 64" and "ext = [] \<or> hd ext = CHR '';''" and "CHR 0x0D \<notin> set ext"
  shows "announces (show_radix 16 n @ ext) n"
proof -
  let ?s = "show_radix 16 n"
  have chars: "graphic c \<and> c \<noteq> CHR '';'' \<and> c \<noteq> CHR 0x0D \<and> byte_val c < 128" if "c \<in> set ?s" for c
  proof -
    obtain d where "d < 16" and "c = digit_char d"
      using show_radix_chars [of 16 c n] \<open>c \<in> set ?s\<close> by auto
    then show ?thesis
      using digit_char_graphic [of d] by (auto simp: graphic_def)
  qed
  have "hd (split_on (\<lambda>b. b = CHR '';'') (?s @ ext)) = ?s"
    using assms(2) chars by (cases ext) (auto simp: hd_split_on takeWhile_append2)
  moreover have "from_utf8 ?s = Some ?s"
    using chars by (simp add: from_utf8_def utf8_valid_ascii ascii_def)
  moreover have "trim ?s = ?s"
    using chars by (simp add: trim_fix)
  moreover have "parse_uint 16 (2 ^ 64) ?s = Some n"
    using assms(1) by (intro parse_uint_show) simp_all
  ultimately show ?thesis
    using assms(3) chars by (auto simp: announces_def chunk_size_def)
qed

section \<open>The decoded body\<close>

text \<open>\<open>header_is_chunked\<close> and \<open>decoded_body\<close>\<close>

definition header_is_chunked :: "bytes \<Rightarrow> bool" where
  "header_is_chunked head \<longleftrightarrow>
     (\<exists>l \<in> set (str_lines (to_ascii_lowercase (utf8_lossy head))).
        prefix ''transfer-encoding:'' l \<and> sublist ''chunked'' l)"

definition decoded_body :: "bytes \<Rightarrow> bytes" where
  "decoded_body buf =
     (let split = (case position (\<lambda>w. w = crlf @ crlf) (windows 4 buf) of
                     Some i \<Rightarrow> i + 4 | None \<Rightarrow> 0);
          head = take split buf;
          body = drop split buf
      in if header_is_chunked head then dechunk body else body)"

definition chunked_line :: "string \<Rightarrow> bool" where
  "chunked_line l \<longleftrightarrow> prefix ''transfer-encoding:'' l \<and> sublist ''chunked'' l"

lemma header_is_chunked_lines:
  "header_is_chunked head \<longleftrightarrow> (\<exists>l \<in> set (str_lines (to_ascii_lowercase (utf8_lossy head))). chunked_line l)"
  by (simp add: header_is_chunked_def chunked_line_def)

text \<open>A head ends at the first empty line.\<close>

definition http_head :: "bytes \<Rightarrow> bool" where
  "http_head h \<longleftrightarrow> (\<exists>a. h = a @ crlf @ crlf) \<and>
     position (\<lambda>w. w = crlf @ crlf) (windows 4 h) = Some (length h - 4)"

lemma http_head_iff:
  "http_head h \<longleftrightarrow> 4 \<le> length h \<and> occurs_at (crlf @ crlf) h (length h - 4) \<and>
     (\<forall>j < length h - 4. \<not> occurs_at (crlf @ crlf) h j)"
proof -
  have four: "4 = length (crlf @ crlf)" by simp
  have pos: "position (\<lambda>w. w = crlf @ crlf) (windows 4 h) = Some i \<longleftrightarrow>
      occurs_at (crlf @ crlf) h i \<and> (\<forall>j<i. \<not> occurs_at (crlf @ crlf) h j)" for i
    unfolding four by (rule position_windows_Some)
  have "(\<exists>a. h = a @ crlf @ crlf) \<and> 4 \<le> length h"
    if occ: "occurs_at (crlf @ crlf) h (length h - 4)"
  proof -
    have len: "4 \<le> length h" using occ by (simp add: occurs_at_def)
    obtain a b where "h = a @ (crlf @ crlf) @ b" and "length a = length h - 4"
      using occ unfolding occurs_at_split by blast
    then show ?thesis using len by (cases b) auto
  qed
  note ends = this
  show ?thesis
    unfolding http_head_def pos
  proof (rule iffI; elim conjE)
    assume occ: "occurs_at (crlf @ crlf) h (length h - 4)"
      and first: "\<forall>j<length h - 4. \<not> occurs_at (crlf @ crlf) h j"
    from ends [OF occ] occ first
    show "4 \<le> length h \<and> occurs_at (crlf @ crlf) h (length h - 4) \<and>
       (\<forall>j<length h - 4. \<not> occurs_at (crlf @ crlf) h j)"
      and "(\<exists>a. h = a @ crlf @ crlf) \<and> occurs_at (crlf @ crlf) h (length h - 4) \<and>
       (\<forall>j<length h - 4. \<not> occurs_at (crlf @ crlf) h j)"
      by simp_all
  qed
qed

lemma position_head:
  assumes "http_head h"
  shows "position (\<lambda>w. w = crlf @ crlf) (windows 4 (h @ b)) = Some (length h - 4)"
proof -
  have four: "4 = length (crlf @ crlf)" by simp
  obtain a where h: "h = a @ crlf @ crlf" using assms by (auto simp: http_head_def)
  have first: "\<forall>j < length a. \<not> occurs_at (crlf @ crlf) h j"
    using assms h unfolding http_head_def four position_windows_Some by simp
  have "occurs_at (crlf @ crlf) (h @ b) j \<longleftrightarrow> occurs_at (crlf @ crlf) h j" if "j < length a" for j
    using that by (simp add: occurs_at_def h)
  with first have "\<forall>j < length a. \<not> occurs_at (crlf @ crlf) (h @ b) j" by blast
  moreover have "occurs_at (crlf @ crlf) (h @ b) (length a)"
    by (simp add: occurs_at_def h)
  ultimately show ?thesis
    unfolding four position_windows_Some by (simp add: h)
qed

lemma decoded_body_message:
  assumes "http_head h"
  shows "decoded_body (h @ b) = (if header_is_chunked h then dechunk b else b)"
proof -
  have "4 \<le> length h" using assms by (auto simp: http_head_def)
  with assms show ?thesis
    by (simp add: decoded_body_def position_head Let_def)
qed

lemma subseq_decoded_body: "subseq (decoded_body buf) buf"
  unfolding decoded_body_def Let_def
  by (auto intro: subseq_drop_prefix subseq_dechunk)

section \<open>Request line and status code\<close>

definition first_line :: "bytes \<Rightarrow> bytes" where
  "first_line buf = hd (split_on (\<lambda>b. b = CHR 0x0D \<or> b = CHR 0x0A) buf)"

definition nth_word :: "string list \<Rightarrow> nat \<Rightarrow> string option" where
  "nth_word ws i = (if i < length ws then Some (ws ! i) else None)"

definition request_line :: "bytes \<Rightarrow> string \<times> string" where
  "request_line buf =
     (let line = first_line buf;
          s = utf8_lossy line;
          it = split_whitespace s
      in (case nth_word it 0 of Some w \<Rightarrow> w | None \<Rightarrow> [],
          case nth_word it 1 of Some w \<Rightarrow> w | None \<Rightarrow> []))"

definition status_code :: "bytes \<Rightarrow> u16" where
  "status_code buf =
     (let line = first_line buf
      in case nth_word (split_whitespace (utf8_lossy line)) 1 of
           None \<Rightarrow> 0
         | Some c \<Rightarrow> (case parse_u16 c of None \<Rightarrow> 0 | Some n \<Rightarrow> n))"

text \<open>Words separated by single spaces.\<close>

lemma split_ws_graphic:
  "\<forall>c \<in> set w. graphic c \<Longrightarrow> split_ws cur (w @ s) = split_ws (cur @ w) s"
proof (induction w arbitrary: cur)
  case (Cons c w)
  have "find (\<lambda>p. p \<noteq> [] \<and> prefix p (c # w @ s)) ws_seqs = None"
    using Cons.prems
    by (auto simp: find_None_iff prefix_def Cons_eq_append_conv dest!: ws_seqs_ends)
  then have "split_ws cur (c # w @ s) = split_ws (cur @ [c]) (w @ s)"
    by (subst split_ws.simps) simp
  with Cons show ?case by simp
qed simp

lemma split_ws_space: "split_ws cur (CHR '' '' # s) = (if cur = [] then [] else [cur]) @ split_ws [] s"
  using find_ws_ascii(1) [of "CHR '' ''" s]
  by (subst split_ws.simps) (simp add: ascii_ws_def)

lemma split_whitespace_words:
  assumes "\<forall>c \<in> set a. graphic c" and "a \<noteq> []" and "\<forall>c \<in> set b. graphic c" and "b \<noteq> []"
  shows "\<exists>ws. split_whitespace (a @ CHR '' '' # b @ CHR '' '' # s) = a # b # ws"
  using assms by (simp add: split_whitespace_def split_ws_graphic split_ws_space)

lemma graphic_props: "graphic c \<Longrightarrow> c \<noteq> CHR 0x0D \<and> c \<noteq> CHR 0x0A \<and> byte_val c < 128"
  by (auto simp: graphic_def)

lemma first_line_append:
  assumes "CHR 0x0D \<notin> set line" and "CHR 0x0A \<notin> set line"
  shows "first_line (line @ crlf @ rest) = line"
  using assms by (simp add: first_line_def hd_split_on crlf_def) (induction line; auto)

lemma request_line_words:
  assumes "\<forall>c \<in> set a. graphic c" and "a \<noteq> []" and "\<forall>c \<in> set b. graphic c" and "b \<noteq> []"
    and "ascii v" and "CHR 0x0D \<notin> set v" and "CHR 0x0A \<notin> set v"
  shows "request_line ((a @ '' '' @ b @ '' '' @ v) @ crlf @ rest) = (a, b)"
proof -
  let ?line = "a @ '' '' @ b @ '' '' @ v"
  have "first_line (?line @ crlf @ rest) = ?line"
    by (rule first_line_append) (use assms graphic_props in auto)
  moreover have "ascii ?line"
    using assms graphic_props by (auto simp: ascii_def)
  moreover obtain ws where "split_whitespace ?line = a # b # ws"
    using split_whitespace_words [OF assms(1-4)] by auto
  ultimately show ?thesis
    by (simp add: request_line_def nth_word_def Let_def)
qed

lemma show_radix_graphic: "c \<in> set (show_radix 10 n) \<Longrightarrow> graphic c"
  using show_radix_chars [of 10 c n] digit_char_graphic by fastforce

lemma status_code_line:
  assumes "\<forall>c \<in> set v. graphic c" and "v \<noteq> []" and "n < 2 ^ 16"
    and "ascii reason" and "CHR 0x0D \<notin> set reason" and "CHR 0x0A \<notin> set reason"
  shows "status_code ((v @ '' '' @ show_radix 10 n @ '' '' @ reason) @ crlf @ rest) = of_nat n"
proof -
  let ?line = "v @ '' '' @ show_radix 10 n @ '' '' @ reason"
  have graphic: "\<forall>c \<in> set (show_radix 10 n). graphic c" by (simp add: show_radix_graphic)
  have "first_line (?line @ crlf @ rest) = ?line"
    by (rule first_line_append) (use assms graphic graphic_props in auto)
  moreover have "ascii ?line"
    using assms graphic graphic_props by (auto simp: ascii_def)
  moreover obtain ws where "split_whitespace ?line = v # show_radix 10 n # ws"
    using split_whitespace_words [OF assms(1,2) graphic] by auto
  moreover have "parse_uint 10 (2 ^ 16) (show_radix 10 n) = Some n"
    using assms(3) by (intro parse_uint_show) simp_all
  ultimately show ?thesis
    by (simp add: status_code_def nth_word_def parse_u16_def)
qed

end
