(* ===== verification/Notary_Service.thy ===== *)
theory Notary_Service
  imports Transport Http_Message
begin

text \<open>
  \<open>tlsn/notary/src/main.rs\<close>: the configuration read at start-up and one notarization
  session. The session is a script of calls into \<open>tlsn\<close>, the sockets and the signing
  identity; what those calls yield in a run is the record \<open>notary_env\<close>. The lemmas say what
  must have happened before anything is signed, what is signed, and how a session that is
  refused ends.
\<close>

section \<open>Configuration\<close>

record notary_config =
  cfg_upstream_host :: string
  cfg_upstream_port :: u16
  cfg_notary :: notary

text \<open>\<open>main\<close> up to the accept loop: the listen address and the shared configuration.\<close>

definition notary_setup :: "libs \<Rightarrow> (string \<Rightarrow> string option) \<Rightarrow> fault + string \<times> notary_config" where
  "notary_setup L var =
     (let listen = (case var ''NOTARY_LISTEN'' of Some a \<Rightarrow> a | None \<Rightarrow> ''0.0.0.0:7047'')
      in case var ''UPSTREAM_HOST'' of
           None \<Rightarrow> Inl (Panic ''UPSTREAM_HOST must be set (the TLS server to proxy and attest)'')
         | Some upstream_host \<Rightarrow>
             (let upstream_port =
                    (case Option.bind (var ''UPSTREAM_PORT'') parse_u16 of
                       Some p \<Rightarrow> p | None \<Rightarrow> 443);
                  seed = (case var ''NOTARY_SEED'' of Some s \<Rightarrow> s | None \<Rightarrow> ''demo-notary-key'');
                  notary = from_seed L seed
              in Inr (listen,
                      \<lparr>cfg_upstream_host = upstream_host, cfg_upstream_port = upstream_port,
                       cfg_notary = notary\<rparr>)))"

section \<open>One session\<close>

datatype commit_start = MpcRequested | ProxyRequested

text \<open>The calls of a session, in the order the code can make them.\<close>

datatype notary_call =
    BuildVerifierConfig
  | NewVerifier
  | AwaitCommit
  | RejectMpc string
  | ConnectServer string u16
  | ServerNodelay
  | AcceptProxy
  | RunProxy
  | AwaitVerify
  | RejectDisclosure string
  | CloseRejected
  | AcceptDisclosure
  | CloseVerifier
  | CloseHandle
  | JoinDriver
  | FinishDriver
  | SignClaim leg_claim
  | SerializeAttestation
  | WriteAll bytes
  | CloseSocket

record notary_env =
  nv_fails :: "notary_call \<Rightarrow> string option"
  nv_commit :: commit_start  \<comment> \<open>the protocol the prover requested\<close>
  nv_server_identity :: bool  \<comment> \<open>\<open>request().server_identity()\<close>\<close>
  nv_server_name :: "string option"  \<comment> \<open>the verified server name\<close>
  nv_transcript :: "(bytes \<times> bytes) option"  \<comment> \<open>\<open>sent_unsafe\<close> and \<open>received_unsafe\<close>\<close>
  nv_time :: string  \<comment> \<open>the witnessed connection time, printed\<close>

text \<open>The claim about what crossed the connection.\<close>

definition witnessed_claim :: "libs \<Rightarrow> string \<Rightarrow> bytes \<Rightarrow> bytes \<Rightarrow> string \<Rightarrow> leg_claim" where
  "witnessed_claim L h sent received time =
     (let (m, p) = request_line sent;
          status = status_code received
      in \<lparr>host = h,
          http_method = m,
          path = p,
          request_digest = sha256_hex L (decoded_body sent),
          response_digest = sha256_hex L (decoded_body received),
          response_status = status,
          timestamp = time\<rparr>)"

text \<open>Handing the attestation back: a failure to do so is only logged.\<close>

definition return_attestation :: "notary_env \<Rightarrow> bytes \<Rightarrow> (notary_call, unit) script" where
  "return_attestation E json =
     (case nv_fails E (WriteAll json) of
        Some _ \<Rightarrow> event (WriteAll json) (return_ok ())
      | None \<Rightarrow> event (WriteAll json) (event CloseSocket (return_ok ())))"

text \<open>After the session is closed: the identity checks, the signature, the hand-over.\<close>

definition sign_and_return :: "libs \<Rightarrow> notary_config \<Rightarrow> notary_env \<Rightarrow> (notary_call, unit) script" where
  "sign_and_return L cfg E =
     (case nv_server_name E of
        None \<Rightarrow> return_fault (Bail ''prover did not reveal server name'')
      | Some h \<Rightarrow>
          (case nv_transcript E of
             None \<Rightarrow> return_fault (Bail ''prover revealed no transcript data'')
           | Some (sent, received) \<Rightarrow>
               (if h \<noteq> cfg_upstream_host cfg
                then return_fault (Bail (''witnessed server '' @ quoted h @ '' != configured upstream ''
                                         @ quoted (cfg_upstream_host cfg)))
                else
                  (let c = witnessed_claim L h sent received (nv_time E);
                       attestation = attest L (cfg_notary cfg) c;
                       json = attestation_to_json L attestation
                   in event (SignClaim c)
                        (call (nv_fails E) SerializeAttestation (return_attestation E json))))))"

definition notarize_session :: "libs \<Rightarrow> notary_config \<Rightarrow> notary_env \<Rightarrow> (notary_call, unit) script" where
  "notarize_session L cfg E =
     call (nv_fails E) BuildVerifierConfig (
     call (nv_fails E) NewVerifier (
     call (nv_fails E) AwaitCommit (
     (case nv_commit E of
        MpcRequested \<Rightarrow>
          call (nv_fails E) (RejectMpc ''this notary runs in proxy mode only'') (
          return_fault (Bail ''prover requested MPC mode; rejected''))
      | ProxyRequested \<Rightarrow>
          call (nv_fails E) (ConnectServer (cfg_upstream_host cfg) (cfg_upstream_port cfg)) (
          call (nv_fails E) ServerNodelay (
          call (nv_fails E) AcceptProxy (
          call (nv_fails E) RunProxy (
          call (nv_fails E) AwaitVerify (
          (if \<not> nv_server_identity E then
             call (nv_fails E) (RejectDisclosure ''server identity must be revealed'') (
             call (nv_fails E) CloseRejected (
             return_fault (Bail ''prover did not reveal the server name'')))
           else
             call (nv_fails E) AcceptDisclosure (
             call (nv_fails E) CloseVerifier (
             event CloseHandle (
             call (nv_fails E) JoinDriver (
             call (nv_fails E) FinishDriver (
             sign_and_return L cfg E)))))))))))))))"

text \<open>What has to hold of a session for the claim \<open>c\<close> to be signed in it.\<close>

definition witnessed :: "libs \<Rightarrow> notary_config \<Rightarrow> notary_env \<Rightarrow> leg_claim \<Rightarrow> bool" where
  "witnessed L cfg E c \<longleftrightarrow>
     nv_commit E = ProxyRequested \<and> nv_server_identity E \<and>
     nv_server_name E = Some (cfg_upstream_host cfg) \<and>
     (\<exists>sent received. nv_transcript E = Some (sent, received) \<and>
        c = witnessed_claim L (cfg_upstream_host cfg) sent received (nv_time E))"

definition is_sign :: "notary_call \<Rightarrow> bool" where
  "is_sign k = (case k of SignClaim _ \<Rightarrow> True | _ \<Rightarrow> False)"

text \<open>The calls every signing session has made before it signs, in this order.\<close>

definition before_signing :: "notary_config \<Rightarrow> notary_call list" where
  "before_signing cfg =
     [BuildVerifierConfig, NewVerifier, AwaitCommit,
      ConnectServer (cfg_upstream_host cfg) (cfg_upstream_port cfg), ServerNodelay, AcceptProxy,
      RunProxy, AwaitVerify, AcceptDisclosure, CloseVerifier, CloseHandle, JoinDriver, FinishDriver]"

lemma stops_commit_start [stops_rules]:
  "(x = MpcRequested \<Longrightarrow> stops s P tr) \<Longrightarrow> (x = ProxyRequested \<Longrightarrow> stops t P tr) \<Longrightarrow>
     stops (case x of MpcRequested \<Rightarrow> s | ProxyRequested \<Rightarrow> t) P tr"
  by (cases x) simp_all

text \<open>What a session leaves behind, whichever way it ends.\<close>

definition session_ends ::
  "libs \<Rightarrow> notary_config \<Rightarrow> notary_env \<Rightarrow> fault + unit \<Rightarrow> notary_call list \<Rightarrow> bool" where
  "session_ends L cfg E r tr \<longleftrightarrow>
     (filter is_sign tr = [] \<and> (\<exists>e. r = Inl (Bail e)) \<and> (\<forall>b. WriteAll b \<notin> set tr))
     \<or> (\<exists>c rest. witnessed L cfg E c \<and> tr = before_signing cfg @ SignClaim c # SerializeAttestation # rest
          \<and> ((rest = [] \<and> nv_fails E SerializeAttestation \<noteq> None \<and> (\<exists>e. r = Inl (Bail e)))
             \<or> (r = Inr () \<and>
                (let json = attestation_to_json L (attest L (cfg_notary cfg) c)
                 in rest = [WriteAll json] \<and> nv_fails E (WriteAll json) \<noteq> None
                    \<or> rest = [WriteAll json, CloseSocket] \<and> nv_fails E (WriteAll json) = None))))"

lemma notarize_session_ends: "stops (notarize_session L cfg E) (session_ends L cfg E) []"
  unfolding notarize_session_def sign_and_return_def return_attestation_def Let_def
  by (intro stops_rules)
    (auto simp: session_ends_def is_sign_def witnessed_def before_signing_def Let_def)

text \<open>
  The other direction: when every call before the signature succeeds, and the session is one
  the notary may attest, it is attested; \<open>session_done\<close> is the end of such a session.
\<close>

definition quiet :: "notary_config \<Rightarrow> notary_env \<Rightarrow> bool" where
  "quiet cfg E \<longleftrightarrow> (\<forall>k \<in> set (before_signing cfg) - {CloseHandle}. nv_fails E k = None)"

lemma quiet_simps:
  assumes "quiet cfg E"
  shows "nv_fails E BuildVerifierConfig = None" "nv_fails E NewVerifier = None"
    "nv_fails E AwaitCommit = None"
    "nv_fails E (ConnectServer (cfg_upstream_host cfg) (cfg_upstream_port cfg)) = None"
    "nv_fails E ServerNodelay = None" "nv_fails E AcceptProxy = None" "nv_fails E RunProxy = None"
    "nv_fails E AwaitVerify = None" "nv_fails E AcceptDisclosure = None"
    "nv_fails E CloseVerifier = None" "nv_fails E JoinDriver = None" "nv_fails E FinishDriver = None"
  using assms by (simp_all add: quiet_def before_signing_def)

lemma notarize_session_quiet:
  assumes "quiet cfg E" and "nv_commit E = ProxyRequested" and "nv_server_identity E"
  shows "notarize_session L cfg E [] = sign_and_return L cfg E (before_signing cfg)"
  using assms
  by (simp add: notarize_session_def script_simps quiet_simps before_signing_def)

lemma notarize_session_signs:
  assumes "quiet cfg E" and "witnessed L cfg E c"
  shows "notarize_session L cfg E [] =
    (case nv_fails E SerializeAttestation of
       Some e \<Rightarrow> (Inl (Bail e), before_signing cfg @ [SignClaim c, SerializeAttestation])
     | None \<Rightarrow>
         (let json = attestation_to_json L (attest L (cfg_notary cfg) c)
          in (Inr (), before_signing cfg @ [SignClaim c, SerializeAttestation, WriteAll json]
                      @ (if nv_fails E (WriteAll json) = None then [CloseSocket] else []))))"
  using assms
  by (auto simp: witnessed_def notarize_session_quiet sign_and_return_def return_attestation_def
      script_simps call_def Let_def split: option.split)

text \<open>A claim is signed in exactly the quiet sessions that witnessed it.\<close>

lemma not_sign_before [simp]: "SignClaim c \<notin> set (before_signing cfg)"
  by (simp add: before_signing_def)

lemma sign_needs_quiet:
  "stops (notarize_session L cfg E) (\<lambda>r tr. (\<exists>c. SignClaim c \<in> set tr) \<longrightarrow> quiet cfg E) []"
  unfolding notarize_session_def sign_and_return_def return_attestation_def Let_def
  by (intro stops_rules) (auto simp: quiet_def before_signing_def)

lemma witnessed_unique: "witnessed L cfg E c \<Longrightarrow> witnessed L cfg E c' \<Longrightarrow> c = c'"
  by (auto simp: witnessed_def)

lemma signed_iff_witnessed:
  assumes "notarize_session L cfg E [] = (r, tr)"
  shows "SignClaim c \<in> set tr \<longleftrightarrow> quiet cfg E \<and> witnessed L cfg E c"
proof
  assume sign: "SignClaim c \<in> set tr"
  then have "is_sign (SignClaim c) \<and> SignClaim c \<in> set tr" by (simp add: is_sign_def)
  then have "filter is_sign tr \<noteq> []" by (auto simp: filter_empty_conv)
  then have "witnessed L cfg E c"
    using stops_result [OF notarize_session_ends assms] sign
    by (auto simp: session_ends_def Let_def)
  then show "quiet cfg E \<and> witnessed L cfg E c"
    using stops_result [OF sign_needs_quiet assms] sign by blast
next
  assume "quiet cfg E \<and> witnessed L cfg E c"
  then show "SignClaim c \<in> set tr"
    using notarize_session_signs [of cfg E L c] assms
    by (auto simp: Let_def split: option.splits)
qed

text \<open>What a refused prover gets: a rejection, and no connection or no signature.\<close>

lemma mpc_refused:
  assumes "notarize_session L cfg E [] = (r, tr)" and "nv_commit E = MpcRequested"
  shows "(\<exists>e. r = Inl (Bail e)) \<and> (\<forall>h p. ConnectServer h p \<notin> set tr) \<and> filter is_sign tr = []"
proof -
  have "stops (notarize_session L cfg E)
      (\<lambda>r tr. nv_commit E = MpcRequested \<longrightarrow>
         (\<exists>e. r = Inl (Bail e)) \<and> (\<forall>h p. ConnectServer h p \<notin> set tr) \<and> filter is_sign tr = []) []"
    unfolding notarize_session_def sign_and_return_def return_attestation_def Let_def
    by (intro stops_rules) (auto simp: is_sign_def)
  then show ?thesis using stops_result assms by blast
qed

text \<open>The notary connects to its configured upstream only.\<close>

lemma connects_upstream_only:
  assumes "notarize_session L cfg E [] = (r, tr)" and "ConnectServer h p \<in> set tr"
  shows "h = cfg_upstream_host cfg \<and> p = cfg_upstream_port cfg"
proof -
  have "stops (notarize_session L cfg E)
      (\<lambda>r tr. ConnectServer h p \<in> set tr \<longrightarrow> h = cfg_upstream_host cfg \<and> p = cfg_upstream_port cfg) []"
    unfolding notarize_session_def sign_and_return_def return_attestation_def Let_def
    by (intro stops_rules) auto
  then show ?thesis using stops_result assms by blast
qed

end
