(* ===== verification/Reference_Crates.thy ===== *)
theory Reference_Crates
  imports Buyer Notary_Service "HOL-Library.Code_Target_Nat"
begin

text \<open>
  Concrete functions for the parameters of the model, used by the witnesses only: hexadecimal,
  a textual encoding for the header form, a tagged codec for the program's own types, a small
  JSON reader and writer, and a hash and a signature scheme that satisfy the laws (and have no
  cryptographic strength). They show that every law of \<open>Crates\<close> and of the payment layer can
  hold together.
\<close>

section \<open>Hexadecimal, hash, signatures\<close>

fun ref_hex :: "bytes \<Rightarrow> string" where
  "ref_hex [] = []"
| "ref_hex (b # bs) = digit_char (byte_val b div 16) # digit_char (byte_val b mod 16) # ref_hex bs"

fun ref_unhex :: "string \<Rightarrow> bytes option" where
  "ref_unhex [] = Some []"
| "ref_unhex [c] = None"
| "ref_unhex (c # d # s) =
     (case (digit_value 16 c, digit_value 16 d) of
        (Some h, Some l) \<Rightarrow> map_option (Cons (byte_of (16 * h + l))) (ref_unhex s)
      | _ \<Rightarrow> None)"

lemma byte_val_less: "byte_val c < 256"
  by simp

lemma ref_unhex_hex: "ref_unhex (ref_hex bs) = Some bs"
proof (induction bs)
  case (Cons b bs)
  have "byte_val b div 16 < 16" using byte_val_less [of b] by arith
  with Cons show ?case
    by (simp add: digit_value_char)
qed simp

lemma graphic_ref_hex: "\<forall>c \<in> set (ref_hex bs). graphic c"
proof (induction bs)
  case (Cons b bs)
  have "byte_val b div 16 < 36" and "byte_val b mod 16 < 36"
    using byte_val_less [of b] by arith+
  with Cons show ?case
    using digit_char_graphic by simp
qed simp

definition ref_sha :: "bytes \<Rightarrow> bytes" where
  "ref_sha b = take 31 (b @ replicate 31 CHR 0x00) @ [byte_of (length b)]"

definition ref_sign :: "bytes \<Rightarrow> bytes \<Rightarrow> bytes" where
  "ref_sign sk m = take 64 (rev m @ sk @ replicate 64 CHR 0x00)"

section \<open>Codecs of the program's own types\<close>

definition enc_str :: "string \<Rightarrow> bytes" where
  "enc_str s = concat (map (\<lambda>c. [CHR ''c'', c]) s) @ ''e''"

fun dec_str :: "bytes \<Rightarrow> (string \<times> bytes) option" where
  "dec_str [] = None"
| "dec_str [x] = (if x = CHR ''e'' then Some ([], []) else None)"
| "dec_str (x # y # r) =
     (if x = CHR ''e'' then Some ([], y # r)
      else if x = CHR ''c'' then map_option (\<lambda>(s, r'). (y # s, r')) (dec_str r)
      else None)"

lemma dec_str_enc [simp]: "dec_str (enc_str s @ r) = Some (s, r)"
  by (induction s; cases r) (auto simp: enc_str_def)

definition enc_list :: "('a \<Rightarrow> bytes) \<Rightarrow> 'a list \<Rightarrow> bytes" where
  "enc_list e xs = concat (map (\<lambda>x. CHR ''c'' # e x) xs) @ ''e''"

fun dec_list :: "(bytes \<Rightarrow> ('a \<times> bytes) option) \<Rightarrow> nat \<Rightarrow> bytes \<Rightarrow> ('a list \<times> bytes) option" where
  "dec_list d 0 bs = None"
| "dec_list d (Suc fuel) bs =
     (case bs of
        [] \<Rightarrow> None
      | x # r \<Rightarrow>
          if x = CHR ''e'' then Some ([], r)
          else (case d r of
                  None \<Rightarrow> None
                | Some (y, r') \<Rightarrow> map_option (\<lambda>(ys, r''). (y # ys, r'')) (dec_list d fuel r')))"

lemma dec_list_enc:
  assumes "\<And>x r. d (e x @ r) = Some (x, r)"
  shows "length xs < fuel \<Longrightarrow> dec_list d fuel (enc_list e xs @ r) = Some (xs, r)"
proof (induction xs arbitrary: fuel)
  case Nil
  then show ?case by (cases fuel) (auto simp: enc_list_def)
next
  case (Cons x xs)
  then obtain f where "fuel = Suc f" and "length xs < f" by (cases fuel) auto
  with Cons.IH [of f] show ?case
    by (simp add: enc_list_def assms)
qed

lemma length_enc_list: "length xs < length (enc_list e xs)"
  by (induction xs) (auto simp: enc_list_def)

definition dec_all :: "(bytes \<Rightarrow> ('a \<times> bytes) option) \<Rightarrow> bytes \<Rightarrow> 'a option" where
  "dec_all d bs = (case d bs of Some (x, []) \<Rightarrow> Some x | _ \<Rightarrow> None)"

definition enc_claim :: "leg_claim \<Rightarrow> bytes" where
  "enc_claim c = enc_list enc_str
     [host c, http_method c, path c, request_digest c, response_digest c,
      show_radix 10 (unat (response_status c)), timestamp c]"

definition dec_strs :: "bytes \<Rightarrow> (string list \<times> bytes) option" where
  "dec_strs bs = dec_list dec_str (length bs) bs"

lemma dec_strs_enc [simp]: "dec_strs (enc_list enc_str xs @ r) = Some (xs, r)"
  unfolding dec_strs_def
  by (rule dec_list_enc) (use length_enc_list [of xs enc_str] in auto)

definition claim_of_strs :: "string list \<Rightarrow> leg_claim option" where
  "claim_of_strs ss =
     (case ss of
        [a, b, c, d, e, f, g] \<Rightarrow>
          map_option (\<lambda>st. \<lparr>host = a, http_method = b, path = c, request_digest = d,
                           response_digest = e, response_status = st, timestamp = g\<rparr>)
            (parse_u16 f)
      | _ \<Rightarrow> None)"

lemma claim_of_strs_fields:
  "claim_of_strs [host c, http_method c, path c, request_digest c, response_digest c,
      show_radix 10 (unat (response_status c)), timestamp c] = Some c"
proof -
  have "unat (response_status c) < 2 ^ 16"
    using unsigned_less [of "response_status c", where ?'a = nat] by simp
  then have "parse_uint 10 (2 ^ 16) (show_radix 10 (unat (response_status c)))
      = Some (unat (response_status c))"
    by (intro parse_uint_show) simp_all
  then show ?thesis by (simp add: claim_of_strs_def parse_u16_def)
qed

definition dec_claim :: "bytes \<Rightarrow> (leg_claim \<times> bytes) option" where
  "dec_claim bs = Option.bind (dec_strs bs) (\<lambda>(ss, r). map_option (\<lambda>c. (c, r)) (claim_of_strs ss))"

lemma dec_claim_enc [simp]: "dec_claim (enc_claim c @ r) = Some (c, r)"
  by (simp add: dec_claim_def enc_claim_def claim_of_strs_fields)

definition enc_attestation :: "leg_attestation \<Rightarrow> bytes" where
  "enc_attestation a = enc_claim (claim a)
     @ enc_list enc_str [proof_pubkey (leg_proof_of a), proof_signature (leg_proof_of a)]"

definition dec_attestation :: "bytes \<Rightarrow> (leg_attestation \<times> bytes) option" where
  "dec_attestation bs =
     Option.bind (dec_claim bs) (\<lambda>(c, r). Option.bind (dec_strs r) (\<lambda>(ss, r').
       (case ss of [k, s] \<Rightarrow> Some (\<lparr>claim = c, leg_proof_of = NotarySig k s\<rparr>, r') | _ \<Rightarrow> None)))"

lemma dec_attestation_enc [simp]: "dec_attestation (enc_attestation a @ r) = Some (a, r)"
  by (cases "leg_proof_of a") (simp add: dec_attestation_def enc_attestation_def)

definition enc_node :: "node \<Rightarrow> bytes" where
  "enc_node n = enc_list enc_str (node_id n # output_digest n # inputs n)
     @ (case node_proof_of n of
          Leg a \<Rightarrow> ''l'' @ enc_attestation a
        | Interior (Recompute f) \<Rightarrow> ''r'' @ enc_str f)"

definition dec_node :: "bytes \<Rightarrow> (node \<times> bytes) option" where
  "dec_node bs =
     (case dec_strs bs of
        Some (i # d # ins, t # r) \<Rightarrow>
          if t = CHR ''l''
          then map_option (\<lambda>(a, r'). (\<lparr>node_id = i, inputs = ins, output_digest = d,
                                       node_proof_of = Leg a\<rparr>, r')) (dec_attestation r)
          else map_option (\<lambda>(f, r'). (\<lparr>node_id = i, inputs = ins, output_digest = d,
                                       node_proof_of = Interior (Recompute f)\<rparr>, r')) (dec_str r)
      | _ \<Rightarrow> None)"

lemma dec_node_enc [simp]: "dec_node (enc_node n @ r) = Some (n, r)"
  by (simp add: dec_node_def enc_node_def split: node_proof.split interior_proof.split)

definition enc_receipt :: "harness_receipt \<Rightarrow> bytes" where
  "enc_receipt r = enc_list enc_str
       (manifest_id r # output_node r # (case payment_reference r of None \<Rightarrow> [] | Some p \<Rightarrow> [p]))
     @ enc_list enc_node (nodes r)"

definition dec_receipt :: "bytes \<Rightarrow> (harness_receipt \<times> bytes) option" where
  "dec_receipt bs =
     (case dec_strs bs of
        Some (m # out # ps, r) \<Rightarrow>
          map_option (\<lambda>(ns, r'). (\<lparr>manifest_id = m, nodes = ns, output_node = out,
                      payment_reference = (case ps of [] \<Rightarrow> None | p # _ \<Rightarrow> Some p)\<rparr>, r'))
            (dec_list dec_node (length r) r)
      | _ \<Rightarrow> None)"

lemma dec_receipt_enc [simp]: "dec_receipt (enc_receipt r @ rest) = Some (r, rest)"
proof -
  have "dec_list dec_node (length (enc_list enc_node (nodes r) @ rest)) (enc_list enc_node (nodes r) @ rest)
      = Some (nodes r, rest)"
    by (rule dec_list_enc) (use length_enc_list [of "nodes r" enc_node] in auto)
  then show ?thesis
    by (simp add: dec_receipt_def enc_receipt_def split: option.split)
qed

definition enc_pair :: "string \<times> string \<Rightarrow> bytes" where
  "enc_pair = (\<lambda>(k, v). enc_str k @ enc_str v)"

definition dec_pair :: "bytes \<Rightarrow> ((string \<times> string) \<times> bytes) option" where
  "dec_pair bs = Option.bind (dec_str bs) (\<lambda>(k, r). map_option (\<lambda>(v, r'). ((k, v), r')) (dec_str r))"

lemma dec_pair_enc [simp]: "dec_pair (enc_pair kv @ r) = Some (kv, r)"
  by (cases kv) (simp add: dec_pair_def enc_pair_def)

lemma dec_pairs_enc:
  "dec_list dec_pair (length (enc_list enc_pair kvs)) (enc_list enc_pair kvs) = Some (kvs, [])"
  using dec_list_enc [of dec_pair enc_pair kvs "length (enc_list enc_pair kvs)" "[]"]
    length_enc_list [of kvs enc_pair] by simp

section \<open>The record of crates, and its laws\<close>

definition ref_libs :: libs where
  "ref_libs =
     \<lparr>sha256 = ref_sha,
      hex_encode = ref_hex,
      hex_decode = ref_unhex,
      b64_encode = ref_hex,
      b64_decode = ref_unhex,
      vk_from_bytes = (\<lambda>b. if length b = 32 then Some b else None),
      vk_verify = (\<lambda>pk m s. s = ref_sign pk m),
      sk_public = (\<lambda>sk. sk),
      sk_sign = ref_sign,
      claim_to_json = enc_claim,
      receipt_to_json = enc_receipt,
      receipt_from_json = dec_all dec_receipt,
      attestation_to_json = enc_attestation,
      attestation_from_json = dec_all dec_attestation,
      string_map_to_json = enc_list enc_pair,
      string_map_from_json = dec_all (\<lambda>bs. dec_list dec_pair (length bs) bs)\<rparr>"

lemma ref_libs_simps [simp]:
  "sha256 ref_libs = ref_sha" "hex_encode ref_libs = ref_hex" "hex_decode ref_libs = ref_unhex"
  "b64_encode ref_libs = ref_hex" "b64_decode ref_libs = ref_unhex"
  "vk_from_bytes ref_libs = (\<lambda>b. if length b = 32 then Some b else None)"
  "vk_verify ref_libs = (\<lambda>pk m s. s = ref_sign pk m)"
  "sk_public ref_libs = (\<lambda>sk. sk)" "sk_sign ref_libs = ref_sign"
  "claim_to_json ref_libs = enc_claim" "receipt_to_json ref_libs = enc_receipt"
  "receipt_from_json ref_libs = dec_all dec_receipt"
  "attestation_to_json ref_libs = enc_attestation"
  "attestation_from_json ref_libs = dec_all dec_attestation"
  "string_map_to_json ref_libs = enc_list enc_pair"
  "string_map_from_json ref_libs = dec_all (\<lambda>bs. dec_list dec_pair (length bs) bs)"
  by (simp_all add: ref_libs_def)

lemma dec_all_eq: "(\<And>r. d (b @ r) = Some (x, r)) \<Longrightarrow> dec_all d b = Some x"
  using append_Nil2 [of b] by (metis (no_types, lifting) dec_all_def list.simps(4) option.simps(5) prod.simps(2))

lemma ref_laws [simp]:
  "sha256_law ref_libs" "hex_law ref_libs" "base64_law ref_libs" "ed25519_law ref_libs"
  "claim_json_law ref_libs" "receipt_json_law ref_libs" "attestation_json_law ref_libs"
  "string_map_json_law ref_libs"
proof -
  have "min (length b) 31 + (31 - length b) = 31" for b :: bytes by arith
  then show "sha256_law ref_libs" by (simp add: sha256_law_def ref_sha_def)
  show "hex_law ref_libs" by (simp add: hex_law_def ref_unhex_hex)
  show "base64_law ref_libs" by (simp add: base64_law_def ref_unhex_hex graphic_ref_hex)
  have "length (ref_sign sk m) = 64" for sk m
    by (simp add: ref_sign_def del: take_append)
  then show "ed25519_law ref_libs" by (simp add: ed25519_law_def)
  show "claim_json_law ref_libs"
    unfolding claim_json_law_def by (metis dec_claim_enc option.inject prod.inject ref_libs_simps(10))
  show "receipt_json_law ref_libs"
    by (simp add: receipt_json_law_def dec_all_eq)
  show "attestation_json_law ref_libs"
    by (simp add: attestation_json_law_def dec_all_eq)
  show "string_map_json_law ref_libs"
    by (simp add: string_map_json_law_def dec_all_def dec_pairs_enc)
qed

section \<open>JSON values\<close>

datatype json =
    JNull
  | JNumber nat
  | JString string
  | JArray "json list"
  | JObject "(string \<times> json) list"

text \<open>Writing: no white space, and no escapes (the witnesses need none).\<close>

definition ref_quote :: char where
  "ref_quote = CHR 0x22"

fun ref_render :: "json \<Rightarrow> bytes"
  and ref_render_elems :: "json list \<Rightarrow> bytes"
  and ref_render_members :: "(string \<times> json) list \<Rightarrow> bytes"
where
  "ref_render JNull = ''null''"
| "ref_render (JNumber n) = show_radix 10 n"
| "ref_render (JString s) = [ref_quote] @ s @ [ref_quote]"
| "ref_render (JArray vs) = ''['' @ ref_render_elems vs @ '']''"
| "ref_render (JObject kvs) = ''{'' @ ref_render_members kvs @ ''}''"
| "ref_render_elems [] = []"
| "ref_render_elems (v # vs) =
     ref_render v @ (if vs = [] then [] else '','' @ ref_render_elems vs)"
| "ref_render_members [] = []"
| "ref_render_members ((k, v) # kvs) =
     [ref_quote] @ k @ [ref_quote] @ '':'' @ ref_render v
     @ (if kvs = [] then [] else '','' @ ref_render_members kvs)"

text \<open>Reading, with fuel for the nesting and the number of elements.\<close>

definition read_string :: "string \<Rightarrow> (string \<times> string) option" where
  "read_string s = (case s of c # r \<Rightarrow> if c = ref_quote then split_once ref_quote r else None | [] \<Rightarrow> None)"

fun read_json :: "nat \<Rightarrow> string \<Rightarrow> (json \<times> string) option"
  and read_elems :: "nat \<Rightarrow> string \<Rightarrow> (json list \<times> string) option"
  and read_members :: "nat \<Rightarrow> string \<Rightarrow> ((string \<times> json) list \<times> string) option"
where
  "read_json 0 s = None"
| "read_json (Suc n) s =
     (case s of
        [] \<Rightarrow> None
      | c # r \<Rightarrow>
          if c = ref_quote then map_option (\<lambda>(t, r'). (JString t, r')) (split_once ref_quote r)
          else if c = CHR ''['' then
            (if prefix '']'' r then Some (JArray [], tl r)
             else map_option (\<lambda>(vs, r'). (JArray vs, r')) (read_elems n r))
          else if c = CHR ''{'' then
            (if prefix ''}'' r then Some (JObject [], tl r)
             else map_option (\<lambda>(kvs, r'). (JObject kvs, r')) (read_members n r))
          else if prefix ''null'' s then Some (JNull, drop 4 s)
          else (let ds = takeWhile (\<lambda>d. digit_value 10 d \<noteq> None) s
                in map_option (\<lambda>k. (JNumber k, dropWhile (\<lambda>d. digit_value 10 d \<noteq> None) s))
                     (parse_uint 10 (2 ^ 64) ds)))"
| "read_elems 0 s = None"
| "read_elems (Suc n) s =
     (case read_json n s of
        Some (v, c # r) \<Rightarrow>
          if c = CHR '','' then map_option (\<lambda>(vs, r'). (v # vs, r')) (read_elems n r)
          else if c = CHR '']'' then Some ([v], r) else None
      | _ \<Rightarrow> None)"
| "read_members 0 s = None"
| "read_members (Suc n) s =
     (case read_string s of
        Some (k, c # r) \<Rightarrow>
          if c \<noteq> CHR '':'' then None
          else (case read_json n r of
                  Some (v, d # r') \<Rightarrow>
                    if d = CHR '','' then map_option (\<lambda>(kvs, r''). ((k, v) # kvs, r'')) (read_members n r')
                    else if d = CHR ''}'' then Some ([(k, v)], r') else None
                | _ \<Rightarrow> None)
      | _ \<Rightarrow> None)"

definition ref_parse :: "bytes \<Rightarrow> json option" where
  "ref_parse bs = (case read_json (2 * length bs + 1) bs of Some (v, []) \<Rightarrow> Some v | _ \<Rightarrow> None)"

fun ref_get_key :: "json \<Rightarrow> string \<Rightarrow> json option" where
  "ref_get_key (JObject kvs) k = map_of kvs k"
| "ref_get_key _ k = None"

fun ref_get_pos :: "json \<Rightarrow> nat \<Rightarrow> json option" where
  "ref_get_pos (JArray vs) i = (if i < length vs then Some (vs ! i) else None)"
| "ref_get_pos _ i = None"

fun ref_assign :: "json \<Rightarrow> string \<Rightarrow> json \<Rightarrow> json option" where
  "ref_assign (JObject kvs) k v = Some (JObject (AList.update k v kvs))"
| "ref_assign JNull k v = Some (JObject [(k, v)])"
| "ref_assign _ k v = None"

definition ref_json :: "json json_lib" where
  "ref_json =
     \<lparr>jparse = ref_parse,
      jrender = ref_render,
      jkey = (\<lambda>v k. case ref_get_key v k of Some x \<Rightarrow> x | None \<Rightarrow> JNull),
      jpos = (\<lambda>v i. case ref_get_pos v i of Some x \<Rightarrow> x | None \<Rightarrow> JNull),
      jas_str = (\<lambda>v. case v of JString s \<Rightarrow> Some s | _ \<Rightarrow> None),
      jget_key = ref_get_key,
      jget_pos = ref_get_pos,
      jput_key = (\<lambda>v k x. case ref_assign v k x of Some y \<Rightarrow> y | None \<Rightarrow> v),
      jput_pos = (\<lambda>v i x. case v of JArray vs \<Rightarrow> JArray (vs[i := x]) | _ \<Rightarrow> v),
      jassign = ref_assign,
      jstring = JString,
      jnumber = JNumber,
      jarray = JArray,
      jobject = JObject\<rparr>"

section \<open>Payments\<close>

definition ref_mpp :: "(string, string, string) mpp_lib" where
  "ref_mpp =
     \<lparr>parse_authorization = (\<lambda>s. if prefix ''Payment '' s then Some (drop 8 s) else None),
      verify_credential = (\<lambda>c. if c = ''valid'' then Inr ''0xabc'' else Inl ''invalid credential''),
      charge = Inr,
      format_www_authenticate = (\<lambda>ch. Inr (''Payment price='' @ ch)),
      reference = (\<lambda>r. r),
      payment_to_header = (\<lambda>r. Some (ref_hex r)),
      parse_receipt = ref_unhex,
      header_to_str = (\<lambda>b. if \<forall>c \<in> set b. graphic c \<or> c = CHR '' '' then Some b else None),
      valid_header = (\<lambda>s. \<forall>c \<in> set s. graphic c \<or> c = CHR '' '')\<rparr>"

text \<open>An answer body of the upstream, with the given text.\<close>

definition ref_answer :: "string \<Rightarrow> bytes" where
  "ref_answer t = ref_render (JObject [(''content'', JArray [JObject [(''type'', JString ''text''), (''text'', JString t)]])])"

text \<open>The unit tests of \<open>examples/harness/src/lib.rs\<close>, run on the model.\<close>

lemma harness_unit_tests:
  "starts_with_yes ref_json (ref_answer ''Yes, absolutely.'') = ''1''"
  "starts_with_yes ref_json (ref_answer ''  yes - definitely'') = ''1''"
  "starts_with_yes ref_json (ref_answer ''Probably yes'') = ''0''"
  "starts_with_yes ref_json ''not json'' = ''0''"
  "recompute ref_json VERDICT_FN_ID [ref_answer ''Yes''] = Some ''1''"
  "recompute ref_json ''nope'' [''x''] = None"
  by code_simp+

section \<open>A concrete honest run\<close>

definition ref_notary :: notary where
  "ref_notary = from_seed ref_libs ''demo-notary-key''"

definition ref_claim :: leg_claim where
  "ref_claim =
     \<lparr>host = ''api.anthropic.com'', http_method = ''POST'', path = ''/v1/messages'',
      request_digest = sha256_hex ref_libs ''req'',
      response_digest = sha256_hex ref_libs (ref_answer ''Yes''),
      response_status = 200, timestamp = ''1781740800''\<rparr>"

definition ref_leg :: leg_attestation where
  "ref_leg = attest ref_libs ref_notary ref_claim"

definition ref_receipt :: harness_receipt where
  "ref_receipt = make_bundle ref_leg (sha256_hex ref_libs ''1'') ''0xabc''"

definition ref_materials :: "bytes btree_map" where
  "ref_materials = [(''leg0'', ref_answer ''Yes'')]"

definition ref_expectation :: expectation where
  "ref_expectation =
     buyer_expectation ref_libs ref_json (public_key_hex ref_libs ref_notary) ''api.anthropic.com''
       (sha256_hex ref_libs ''req'') ''0xabc'' ''1'' ref_receipt ref_materials"

lemma ref_run_accepted: "gate ref_libs ref_receipt ref_expectation"
  by code_simp

end
