(* ===== verification/Delivery.thy ===== *)
theory Delivery
  imports Buyer
begin

text \<open>
  The reseller's response as the buyer judges it: what acceptance of the two-node receipt
  means, that an honest delivery is verified, and that a substituted answer is rejected. The
  transport between the two is \<open>as_response\<close>: status, headers and body arrive unchanged.
\<close>

section \<open>The two-node receipt\<close>

lemma bundle_simps [simp]:
  "manifest_id (make_bundle leg d p) = MANIFEST_ID"
  "output_node (make_bundle leg d p) = ''verdict''"
  "payment_reference (make_bundle leg d p) = Some p"
  by (simp_all add: make_bundle_def)

lemma bundle_map:
  "hm_get (node_map (nodes (make_bundle leg d p))) =
     [''leg0'' \<mapsto> \<lparr>node_id = ''leg0'', inputs = [], output_digest = response_digest (claim leg),
                  node_proof_of = Leg leg\<rparr>,
      ''verdict'' \<mapsto> \<lparr>node_id = ''verdict'', inputs = [''leg0''], output_digest = d,
                     node_proof_of = Interior (Recompute VERDICT_FN_ID)\<rparr>]"
  by (simp add: node_map_get make_bundle_def fun_eq_iff)

lemma bundle_legs:
  "ancestor_legs (node_map (nodes (make_bundle leg d p))) ''verdict'' = {leg}"
proof -
  have "leg_ancestors (node_map (nodes (make_bundle leg d p))) ''verdict'' = [leg]"
    by (simp add: leg_ancestors_def bundle_map)
  then show ?thesis
    using set_leg_ancestors [of "node_map (nodes (make_bundle leg d p))" "''verdict''"] by simp
qed

lemma accepts_bundle:
  "accepts L (make_bundle leg d p) e \<longleftrightarrow>
     MANIFEST_ID = manifest_ident (exp_manifest e) \<and>
     d = served_output_digest e \<and> p = exp_payment_reference e \<and>
     (\<forall>req. served_request_digest e = Some req \<longrightarrow> request_digest (claim leg) = req) \<and>
     (\<exists>pk. signed_under L pk leg) \<and> host (claim leg) \<in> set (hosts (exp_manifest e)) \<and>
     (\<forall>pin. exp_notary_pubkey e = Some pin \<longrightarrow> proof_pubkey (leg_proof_of leg) = pin) \<and>
     map_of (recomputed e) ''verdict'' = Some d"
proof -
  have nodes: "nodes (make_bundle leg d p) =
      [\<lparr>node_id = ''leg0'', inputs = [], output_digest = response_digest (claim leg),
        node_proof_of = Leg leg\<rparr>,
       \<lparr>node_id = ''verdict'', inputs = [''leg0''], output_digest = d,
        node_proof_of = Interior (Recompute VERDICT_FN_ID)\<rparr>]"
    by (simp add: make_bundle_def)
  show ?thesis
    unfolding accepts_def bundle_simps bundle_legs bundle_map node_accepted_def
    by (auto simp: nodes)
qed

lemma bundle_committed:
  "hm_get (committed_digests (make_bundle leg d p)) =
     [''leg0'' \<mapsto> response_digest (claim leg), ''verdict'' \<mapsto> d]"
  by (simp add: committed_digests_def hm_get_collect make_bundle_def fun_eq_iff)

lemma bundle_recomputed:
  assumes "sha256_hex L answer = response_digest (claim leg)"
  shows "recompute_all L J (make_bundle leg d p)
           (trusted_materials L (make_bundle leg d p) [(''leg0'', answer)])
         = [(''verdict'', sha256_hex L (starts_with_yes J answer))]"
proof -
  have "trusted_materials L (make_bundle leg d p) [(''leg0'', answer)] = [(''leg0'', answer)]"
    using assms
    by (simp add: trusted_materials_def material_ok_def bundle_committed hm_collect_def hm_insert_def)
  then show ?thesis
    by (simp add: recompute_all_def make_bundle_def recompute_node_def List.map_filter_simps
        hm_get_def recompute_def)
qed

section \<open>Transport\<close>

definition as_response :: "'v json_lib \<Rightarrow> 'v reply \<Rightarrow> http_response" where
  "as_response J reply =
     \<lparr>resp_success = (200 \<le> reply_status reply \<and> reply_status reply < 300),
      resp_headers = map_of (reply_headers reply),
      resp_body = Some (case reply_body reply of TextBody b \<Rightarrow> b | JsonBody v \<Rightarrow> jrender J v)\<rparr>"

definition printable :: "string \<Rightarrow> bool" where
  "printable s \<longleftrightarrow> (\<forall>c \<in> set s. graphic c \<or> c = CHR '' '')"

text \<open>Header values of printable ASCII are accepted and read back as they are.\<close>

definition header_law :: "('c, 'ch, 'r) mpp_lib \<Rightarrow> bool" where
  "header_law M \<longleftrightarrow> (\<forall>s. printable s \<longrightarrow> valid_header M s \<and> header_to_str M s = Some s)"

text \<open>A payment receipt survives its header form, as far as its reference goes.\<close>

definition payment_law :: "('c, 'ch, 'r) mpp_lib \<Rightarrow> bool" where
  "payment_law M \<longleftrightarrow>
     (\<forall>r. \<exists>h r'. payment_to_header M r = Some h \<and> printable h
           \<and> parse_receipt M h = Some r' \<and> reference M r' = reference M r)"

definition delivery_laws :: "libs \<Rightarrow> ('c, 'ch, 'r) mpp_lib \<Rightarrow> bool" where
  "delivery_laws L M \<longleftrightarrow>
     hex_law L \<and> receipt_codec_law L \<and> materials_codec_law L \<and> header_law M \<and> payment_law M"

lemma printable_graphic: "\<forall>c \<in> set s. graphic c \<Longrightarrow> printable s"
  by (simp add: printable_def)

text \<open>
  Under these laws the buyer judges exactly the receipt, the materials and the verdict that
  the reseller put in the response.
\<close>

lemma delivered_is_judged:
  fixes J :: "'v json_lib"
  assumes laws: "delivery_laws L M"
    and answer: "(case app_mode st of Honest \<Rightarrow> Inr response_body
                  | CheatSubstitute \<Rightarrow> substitute J response_body) = Inr answer"
  shows "\<exists>reply. deliver L J M st receipt response_body leg = Inr reply \<and>
           judge_response L J M k h q (as_response J reply) =
             judge_bundle L J k h q (reference M receipt) (starts_with_yes J answer)
               (make_bundle leg (sha256_hex L (starts_with_yes J answer)) (reference M receipt))
               [(''leg0'', answer)]"
proof -
  let ?v = "starts_with_yes J answer"
  let ?r = "make_bundle leg (sha256_hex L ?v) (reference M receipt)"
  have rc: "receipt_codec_law L" and mc: "materials_codec_law L" and hl: "header_law M"
    using laws by (simp_all add: delivery_laws_def)
  obtain ph r' where ph: "payment_to_header M receipt = Some ph" "printable ph"
      "parse_receipt M ph = Some r'" "reference M r' = reference M receipt"
    using laws unfolding delivery_laws_def payment_law_def by blast
  have rh: "printable (to_header L ?r)"
    using receipt_codec.enc_graphic [OF rc] by (intro printable_graphic) blast
  have mh: "printable (materials_to_header L [(''leg0'', answer)])"
    using materials_codec.enc_graphic [OF mc] by (intro printable_graphic) blast
  have ct: "printable ''text/plain; charset=utf-8''"
    by (simp add: printable_def graphic_def)
  have read_r: "from_header L (to_header L ?r) = Inr ?r"
    by (rule receipt_codec.dec_enc) (simp_all add: rc)
  have read_m: "materials_from_header L (materials_to_header L [(''leg0'', answer)]) = Inr [(''leg0'', answer)]"
    by (rule materials_codec.dec_enc) (simp_all add: mc bt_sorted_def)
  define reply where "reply =
    \<lparr>reply_status = 200,
     reply_headers = [(''content-type'', ''text/plain; charset=utf-8''), (''payment-receipt'', ph),
       (PROVABLY_RECEIPT_HEADER, to_header L ?r),
       (PROVABLY_MATERIALS_HEADER, materials_to_header L [(''leg0'', answer)])],
     reply_body = TextBody ?v :: 'v reply_body\<rparr>"
  have "deliver L J M st receipt response_body leg = Inr reply"
    using answer hl ph rh mh ct
    by (simp add: deliver_def Let_def header_law_def reply_def)
  moreover have "judge_response L J M k h q (as_response J reply) =
      judge_bundle L J k h q (reference M receipt) ?v ?r [(''leg0'', answer)]"
    using hl ph rh mh read_r read_m
    by (simp add: judge_response_def as_response_def reply_def resp_header_def header_law_def
        PROVABLY_RECEIPT_HEADER_def PROVABLY_MATERIALS_HEADER_def read_receipt_header_def)
  ultimately show ?thesis by blast
qed

section \<open>Judging the two-node receipt\<close>

text \<open>A receipt of the seller's shape: a leg, and one node computed from it, which is sold.\<close>

definition two_node :: "harness_receipt \<Rightarrow> node \<Rightarrow> node \<Rightarrow> bool" where
  "two_node r l v \<longleftrightarrow>
     nodes r = [l, v] \<and> node_id l \<noteq> node_id v \<and> output_node r = node_id v \<and> inputs v = [node_id l]"

lemma two_node_verified:
  assumes shape: "two_node r l v" and leg: "node_proof_of l = Leg att"
    and int: "node_proof_of v = Interior (Recompute f)" and hex: "hex_law L"
    and ok: "judge_bundle L J k h q p body r m = Verified cs"
  shows "\<exists>answer. (node_id l, answer) \<in> set m \<and> sha256_hex L answer = response_digest (claim att)
           \<and> (body = starts_with_yes J answer \<or> sha_collision L body (starts_with_yes J answer))"
    and "request_digest (claim att) = q" and "host (claim att) = h"
    and "proof_pubkey (leg_proof_of att) = k" and "\<exists>pk. signed_under L pk att"
    and "f = VERDICT_FN_ID"
proof -
  let ?e = "buyer_expectation L J k h q p body r m"
  have acc: "accepts L r ?e"
    using ok judge_bundle_verified by blast
  have l: "l \<in> set (nodes r)" and v: "v \<in> set (nodes r)"
    using shape by (simp_all add: two_node_def)
  have get: "hm_get (node_map (nodes r)) (node_id v) = Some v"
      "hm_get (node_map (nodes r)) (node_id l) = Some l"
    using shape by (simp_all add: node_map_get two_node_def)
  have "leg_ancestors (node_map (nodes r)) (output_node r) = [att]"
    using shape get leg int by (simp add: leg_ancestors_def two_node_def)
  then have "ancestor_legs (node_map (nodes r)) (output_node r) = {att}"
    using set_leg_ancestors by (metis empty_set list.simps(15))
  then show "request_digest (claim att) = q"
    using acc by (simp add: accepts_def buyer_expectation_def)
  show "host (claim att) = h"
    using accepts_leg(2) [OF acc l leg] by (simp add: buyer_expectation_def)
  show "proof_pubkey (leg_proof_of att) = k"
    using accepts_leg(4) [OF acc l leg, of k] by (simp add: buyer_expectation_def)
  show "\<exists>pk. signed_under L pk att"
    by (rule accepts_leg(1) [OF acc l leg])
  have dl: "output_digest l = response_digest (claim att)"
    by (rule accepts_leg(3) [OF acc l leg])
  have served: "output_digest v = sha256_hex L body"
    using acc shape get by (auto simp: accepts_def buyer_expectation_def two_node_def)
  have ids: "distinct (map node_id (nodes r))"
    using shape by (simp add: two_node_def)
  obtain ins out where ins: "length ins = length (inputs v)"
      "\<forall>j < length ins. (inputs v ! j, ins ! j) \<in> set m
        \<and> (\<exists>n' \<in> set (nodes r). node_id n' = inputs v ! j \<and> output_digest n' = sha256_hex L (ins ! j))"
      and out: "recompute J f ins = Some out" "output_digest v = sha256_hex L out"
    using interior_justified [OF acc ids v int] by blast
  then obtain answer where answer: "ins = [answer]"
    using shape by (auto simp: two_node_def length_Suc_conv)
  then have f: "f = VERDICT_FN_ID" "out = starts_with_yes J answer"
    using out(1) by (auto simp: recompute_def split: if_splits)
  then show "f = VERDICT_FN_ID" by simp
  have "(node_id l, answer) \<in> set m" and "sha256_hex L answer = response_digest (claim att)"
    using ins(2) shape dl by (auto simp: answer two_node_def)
  moreover have "body = starts_with_yes J answer \<or> sha_collision L body (starts_with_yes J answer)"
    using served out(2) f(2) by (intro sha256_hex_eqD [OF hex]) simp
  ultimately show "\<exists>answer. (node_id l, answer) \<in> set m
      \<and> sha256_hex L answer = response_digest (claim att)
      \<and> (body = starts_with_yes J answer \<or> sha_collision L body (starts_with_yes J answer))" by blast
qed

text \<open>The honest bundle is verified; a bundle with other leg bytes is not.\<close>

lemma honest_bundle_verified:
  assumes "signed_under L pk leg" and "host (claim leg) = h" and "proof_pubkey (leg_proof_of leg) = k"
    and "request_digest (claim leg) = q" and "response_digest (claim leg) = sha256_hex L answer"
  shows "\<exists>cs. judge_bundle L J k h q p (starts_with_yes J answer)
           (make_bundle leg (sha256_hex L (starts_with_yes J answer)) p) [(''leg0'', answer)]
         = Verified cs"
  unfolding judge_bundle_verified accepts_bundle
  using assms
  by (auto simp: buyer_expectation_def bundle_recomputed bundle_committed material_ok_def)

lemma substituted_bundle_rejected:
  assumes hex: "hex_law L" and "response_digest (claim leg) = sha256_hex L genuine" and "fake \<noteq> genuine"
  shows "(\<exists>cs. judge_bundle L J k h q p body (make_bundle leg d p') [(''leg0'', fake)] = Rejected cs)
         \<or> sha_collision L genuine fake"
proof (cases "sha256_hex L genuine = sha256_hex L fake")
  case True
  then show ?thesis using sha256_hex_eqD [OF hex True] assms(3) by blast
next
  case False
  then have "\<not> (\<exists>cs. judge_bundle L J k h q p body (make_bundle leg d p') [(''leg0'', fake)] = Verified cs)"
    unfolding judge_bundle_verified using assms(2) by (simp add: material_ok_def bundle_committed)
  then show ?thesis using judge_bundle_cases by blast
qed

end
