(* ===== verification/Protocol.thy ===== *)
theory Protocol
  imports Notary_Service Delivery
begin

text \<open>
  The three processes together, as a step relation. A notary with a fixed configuration
  serves any number of sessions with any provers (\<open>notary_env\<close> is the session's course); the
  seller is the adversary: it presents to the buyer any receipt, materials and body, limited
  only by signatures: a leg whose signature verifies under the notary's key carries a message
  the notary signed and handed out. The invariant is that every leg of every receipt a buyer
  accepted was witnessed in one of the notary's sessions.
\<close>

section \<open>The world\<close>

text \<open>One verified purchase: the receipt, the shipped materials and what the buyer expected.\<close>

record purchase =
  bought_receipt :: harness_receipt
  bought_materials :: "bytes btree_map"
  bought_body :: bytes
  bought_request :: string
  bought_payment :: string

record world =
  sessions :: "notary_env list"
  issued :: "bytes list"
  purchases :: "purchase list"

definition init_world :: world where
  "init_world = \<lparr>sessions = [], issued = [], purchases = []\<rparr>"

text \<open>What a session put on its socket.\<close>

definition written :: "notary_call list \<Rightarrow> bytes list" where
  "written tr = List.map_filter (\<lambda>c. case c of WriteAll b \<Rightarrow> Some b | _ \<Rightarrow> None) tr"

lemma set_written: "b \<in> set (written tr) \<longleftrightarrow> WriteAll b \<in> set tr"
  by (induction tr) (auto simp: written_def List.map_filter_simps split: notary_call.splits)

text \<open>
  The seller's power over legs: a signature that verifies under the notary's key \<open>pk\<close> is on
  a message the notary signed.
\<close>

definition sellable :: "libs \<Rightarrow> bytes \<Rightarrow> bytes list \<Rightarrow> harness_receipt \<Rightarrow> bool" where
  "sellable L pk handed_out r \<longleftrightarrow>
     (\<forall>n \<in> set (nodes r). \<forall>att. node_proof_of n = Leg att \<longrightarrow> signed_under L pk att \<longrightarrow>
        (\<exists>b \<in> set handed_out. \<exists>att'. attestation_from_json L b = Some att'
           \<and> signing_message L (claim att') = signing_message L (claim att)))"

definition notary_pk :: "libs \<Rightarrow> notary_config \<Rightarrow> bytes" where
  "notary_pk L cfg = sk_public L (signing_key (cfg_notary cfg))"

definition buyer_verifies :: "libs \<Rightarrow> 'v json_lib \<Rightarrow> notary_config \<Rightarrow> purchase \<Rightarrow> bool" where
  "buyer_verifies L J cfg b \<longleftrightarrow>
     (\<exists>cs. judge_bundle L J (public_key_hex L (cfg_notary cfg)) (cfg_upstream_host cfg)
             (bought_request b) (bought_payment b) (bought_body b) (bought_receipt b)
             (bought_materials b) = Verified cs)"

inductive world_step :: "libs \<Rightarrow> 'v json_lib \<Rightarrow> notary_config \<Rightarrow> world \<Rightarrow> world \<Rightarrow> bool"
  for L :: libs and J :: "'v json_lib" and cfg :: notary_config
where
  notarize: "notarize_session L cfg E [] = (res, tr) \<Longrightarrow>
     world_step L J cfg w (w\<lparr>sessions := E # sessions w, issued := written tr @ issued w\<rparr>)"
| purchase: "sellable L (notary_pk L cfg) (issued w) (bought_receipt b) \<Longrightarrow>
     buyer_verifies L J cfg b \<Longrightarrow>
     world_step L J cfg w (w\<lparr>purchases := b # purchases w\<rparr>)"

inductive_cases world_stepE [consumes 1, case_names notarize purchase]: "world_step L J cfg w w'"

inductive reachable :: "libs \<Rightarrow> 'v json_lib \<Rightarrow> notary_config \<Rightarrow> world \<Rightarrow> bool"
  for L :: libs and J :: "'v json_lib" and cfg :: notary_config
where
  start: "reachable L J cfg init_world"
| step: "reachable L J cfg w \<Longrightarrow> world_step L J cfg w w' \<Longrightarrow> reachable L J cfg w'"

section \<open>The invariant\<close>

text \<open>Everything handed out is an attestation of a witnessed claim.\<close>

definition issued_ok :: "libs \<Rightarrow> notary_config \<Rightarrow> world \<Rightarrow> bool" where
  "issued_ok L cfg w \<longleftrightarrow>
     (\<forall>b \<in> set (issued w). \<exists>E \<in> set (sessions w). \<exists>c. witnessed L cfg E c
        \<and> b = attestation_to_json L (attest L (cfg_notary cfg) c))"

definition purchase_ok :: "libs \<Rightarrow> notary_config \<Rightarrow> world \<Rightarrow> purchase \<Rightarrow> bool" where
  "purchase_ok L cfg w b \<longleftrightarrow>
     (\<forall>n \<in> set (nodes (bought_receipt b)). \<forall>att. node_proof_of n = Leg att \<longrightarrow>
        (\<exists>E \<in> set (sessions w). witnessed L cfg E (claim att)))"

definition world_inv :: "libs \<Rightarrow> 'v json_lib \<Rightarrow> notary_config \<Rightarrow> world \<Rightarrow> bool" where
  "world_inv L J cfg w \<longleftrightarrow> issued_ok L cfg w \<and>
     (\<forall>b \<in> set (purchases w). buyer_verifies L J cfg b \<and> purchase_ok L cfg w b)"

text \<open>The crates' laws the argument needs, and a full-length key.\<close>

definition protocol_laws :: "libs \<Rightarrow> notary_config \<Rightarrow> bool" where
  "protocol_laws L cfg \<longleftrightarrow>
     hex_law L \<and> claim_json_law L \<and> attestation_json_law L \<and> ed25519_law L
     \<and> length (signing_key (cfg_notary cfg)) = 32"

lemma written_session:
  assumes "notarize_session L cfg E [] = (res, tr)" and "b \<in> set (written tr)"
  shows "\<exists>c. witnessed L cfg E c \<and> b = attestation_to_json L (attest L (cfg_notary cfg) c)"
proof -
  have "session_ends L cfg E res tr"
    using stops_result [OF notarize_session_ends assms(1)] .
  moreover have "WriteAll b \<in> set tr"
    using assms(2) by (simp add: set_written)
  ultimately show ?thesis
    by (auto simp: session_ends_def before_signing_def Let_def)
qed

lemma sellable_witnessed:
  assumes laws: "protocol_laws L cfg" and inv: "issued_ok L cfg w"
    and sell: "sellable L (notary_pk L cfg) (issued w) r"
    and n: "n \<in> set (nodes r)" "node_proof_of n = Leg att"
    and signed: "signed_under L (notary_pk L cfg) att"
  shows "\<exists>E \<in> set (sessions w). witnessed L cfg E (claim att)"
proof -
  obtain b att' where b: "b \<in> set (issued w)" "attestation_from_json L b = Some att'"
      and msg: "signing_message L (claim att') = signing_message L (claim att)"
    using sell n signed unfolding sellable_def by blast
  obtain E c where E: "E \<in> set (sessions w)" "witnessed L cfg E c"
      and "b = attestation_to_json L (attest L (cfg_notary cfg) c)"
    using inv b(1) unfolding issued_ok_def by blast
  then have "att' = attest L (cfg_notary cfg) c"
    using b(2) laws by (simp add: protocol_laws_def attestation_json_law_def)
  moreover have "claim att' = claim att"
    using msg laws by (simp add: protocol_laws_def signing_message_eq_iff)
  ultimately have "claim att = c" by simp
  with E show ?thesis by blast
qed

text \<open>The key a buyer pinned is the only one its legs can be signed under.\<close>

lemma verified_leg_signed:
  assumes laws: "protocol_laws L cfg" and ver: "buyer_verifies L J cfg b"
    and n: "n \<in> set (nodes (bought_receipt b))" "node_proof_of n = Leg att"
  shows "signed_under L (notary_pk L cfg) att"
proof -
  have acc: "accepts L (bought_receipt b) (buyer_expectation L J (public_key_hex L (cfg_notary cfg))
      (cfg_upstream_host cfg) (bought_request b) (bought_payment b) (bought_body b)
      (bought_receipt b) (bought_materials b))"
    using ver judge_bundle_verified unfolding buyer_verifies_def by blast
  obtain pk where pk: "signed_under L pk att"
    using accepts_leg(1) [OF acc n] by blast
  have "proof_pubkey (leg_proof_of att) = public_key_hex L (cfg_notary cfg)"
    using accepts_leg(4) [OF acc n] by (simp add: buyer_expectation_def)
  with pk laws have "pk = notary_pk L cfg"
    by (auto simp: signed_under_def public_key_hex_def notary_pk_def protocol_laws_def)
  with pk show ?thesis by simp
qed

lemma world_step_inv:
  assumes "protocol_laws L cfg" and "world_step L J cfg w w'" and "world_inv L J cfg w"
  shows "world_inv L J cfg w'"
  using assms(2)
proof (cases rule: world_stepE)
  case (notarize E res tr)
  have "issued_ok L cfg w'"
    unfolding issued_ok_def notarize(1)
    using assms(3) written_session [OF notarize(2)]
    by (fastforce simp: world_inv_def issued_ok_def)
  moreover have "purchase_ok L cfg w b \<Longrightarrow> purchase_ok L cfg w' b" for b
    by (fastforce simp: purchase_ok_def notarize(1))
  ultimately show ?thesis
    using assms(3) by (auto simp: world_inv_def notarize(1))
next
  case (purchase b)
  have ok: "issued_ok L cfg w"
    using assms(3) by (simp add: world_inv_def)
  have "purchase_ok L cfg w b"
    unfolding purchase_ok_def
    using sellable_witnessed [OF assms(1) ok purchase(2)] verified_leg_signed [OF assms(1) purchase(3)]
    by blast
  then show ?thesis
    using assms(3) purchase by (auto simp: world_inv_def issued_ok_def purchase_ok_def)
qed

lemma reachable_inv: "reachable L J cfg w \<Longrightarrow> protocol_laws L cfg \<Longrightarrow> world_inv L J cfg w"
proof (induction rule: reachable.induct)
  case start
  show ?case by (simp add: world_inv_def init_world_def issued_ok_def)
next
  case (step w w')
  then show ?case by (blast intro: world_step_inv)
qed

text \<open>The receipt of a purchase was accepted for what the buyer expected.\<close>

definition bought_expectation :: "libs \<Rightarrow> 'v json_lib \<Rightarrow> notary_config \<Rightarrow> purchase \<Rightarrow> expectation" where
  "bought_expectation L J cfg b =
     buyer_expectation L J (public_key_hex L (cfg_notary cfg)) (cfg_upstream_host cfg) (bought_request b)
       (bought_payment b) (bought_body b) (bought_receipt b) (bought_materials b)"

lemma bought_accepted:
  "world_inv L J cfg w \<Longrightarrow> b \<in> set (purchases w) \<Longrightarrow> accepts L (bought_receipt b) (bought_expectation L J cfg b)"
  unfolding world_inv_def buyer_verifies_def bought_expectation_def using judge_bundle_verified by blast

end
