(* ===== verification/Redaction.thy ===== *)
theory Redaction
  imports Prover_Session Notary_Service
begin

text \<open>
  What the notary sees of the sent transcript: the withheld positions hold a filler byte of
  the \<open>tlsn\<close> library. The lemmas show that withholding the key, where the reseller puts it,
  changes nothing of the claim: request line, chunkedness of the head and decoded body are
  those of the bytes that were sent.
\<close>

definition withheld :: "char \<Rightarrow> (nat \<times> nat) list \<Rightarrow> bytes \<Rightarrow> bytes" where
  "withheld fill rs sent = map (\<lambda>i. if i \<in> positions rs then sent ! i else fill) [0..<length sent]"

lemma withheld_plan:
  assumes "reveal_plan (Some k) (a @ k @ c) = Inr rs"
    and "\<forall>j < length a. \<not> occurs_at k (a @ k @ c) j"
  shows "withheld fill rs (a @ k @ c) = a @ replicate (length k) fill @ c"
proof -
  obtain pos where pos: "occurs_at k (a @ k @ c) pos" "\<forall>j<pos. \<not> occurs_at k (a @ k @ c) j"
      and rs: "positions rs = {..<length (a @ k @ c)} - {pos..<pos + length k}"
    using reveal_plan_key [OF assms(1)] by blast
  have "occurs_at k (a @ k @ c) (length a)" by (simp add: occurs_at_def)
  then have "pos = length a"
    using pos assms(2) by (meson linorder_neqE_nat)
  then show ?thesis
    unfolding withheld_def rs by (intro nth_equalityI) (auto simp: nth_append)
qed

section \<open>Patterns that avoid the changed bytes\<close>

lemma occurs_at_changed:
  assumes "length xs = length ys"
    and "\<forall>i < length xs. xs ! i = ys ! i \<or> xs ! i \<notin> set pat \<and> ys ! i \<notin> set pat"
  shows "occurs_at pat xs i \<longleftrightarrow> occurs_at pat ys i"
proof -
  have "xs ! (i + t) = pat ! t \<longleftrightarrow> ys ! (i + t) = pat ! t" if "t < length pat" "i + length pat \<le> length xs" for t
  proof -
    have "i + t < length xs" using that by simp
    then have "xs ! (i + t) = ys ! (i + t) \<or> xs ! (i + t) \<notin> set pat \<and> ys ! (i + t) \<notin> set pat"
      using assms(2) by blast
    moreover have "pat ! t \<in> set pat" using that by simp
    ultimately show ?thesis by metis
  qed
  then show ?thesis using assms(1) by (auto simp: occurs_at_nth)
qed

lemma http_head_changed:
  assumes "http_head (a @ k @ c)" and "length k' = length k"
    and "set k \<inter> {CHR 0x0D, CHR 0x0A} = {}" and "set k' \<inter> {CHR 0x0D, CHR 0x0A} = {}"
  shows "http_head (a @ k' @ c)"
proof -
  let ?h = "a @ k @ c" and ?h' = "a @ k' @ c"
  have "?h ! i = ?h' ! i \<or> ?h ! i \<notin> set (crlf @ crlf) \<and> ?h' ! i \<notin> set (crlf @ crlf)" for i
  proof (cases "length a \<le> i \<and> i < length a + length k")
    case True
    then have "?h ! i \<in> set k" and "?h' ! i \<in> set k'"
      using assms(2) by (auto simp: nth_append)
    then show ?thesis using assms(3,4) by (auto simp: crlf_def)
  next
    case False
    then show ?thesis using assms(2) by (auto simp: nth_append)
  qed
  then have "occurs_at (crlf @ crlf) ?h i \<longleftrightarrow> occurs_at (crlf @ crlf) ?h' i" for i
    using assms(2) by (intro occurs_at_changed) auto
  then show ?thesis using assms(1,2) by (simp add: http_head_iff)
qed

section \<open>Header lines\<close>

text \<open>A header name that is not the beginning of \<open>transfer-encoding:\<close>, and not the reverse.\<close>

definition other_header :: "string \<Rightarrow> bool" where
  "other_header nm \<longleftrightarrow> CHR 0x0A \<notin> set nm \<and>
     \<not> prefix (to_ascii_lowercase nm) ''transfer-encoding:'' \<and>
     \<not> prefix ''transfer-encoding:'' (to_ascii_lowercase nm)"

lemma other_header_line:
  "other_header nm \<Longrightarrow> \<not> prefix ''transfer-encoding:'' (strip_cr (to_ascii_lowercase nm @ x))"
proof
  assume nm: "other_header nm" and p: "prefix ''transfer-encoding:'' (strip_cr (to_ascii_lowercase nm @ x))"
  from prefix_order.trans [OF p prefix_strip_cr]
  have "prefix ''transfer-encoding:'' (to_ascii_lowercase nm @ x)" .
  moreover have "prefix (to_ascii_lowercase nm) (to_ascii_lowercase nm @ x)" by (rule prefixI [OF refl])
  ultimately have "prefix ''transfer-encoding:'' (to_ascii_lowercase nm) \<or>
      prefix (to_ascii_lowercase nm) ''transfer-encoding:''"
    by (rule prefix_same_cases)
  with nm show False unfolding other_header_def by blast
qed

text \<open>The lines behind the changed one do not depend on it.\<close>

definition lines_after :: "string \<Rightarrow> string list" where
  "lines_after c = (case split_once (CHR 0x0A) c of None \<Rightarrow> [] | Some (c1, c2) \<Rightarrow> str_lines c2)"

lemma key_line_lines:
  assumes "other_header nm" and "CHR 0x0A \<notin> set k"
  shows "(\<exists>l \<in> set (str_lines (to_ascii_lowercase (nm @ k @ c))). chunked_line l) \<longleftrightarrow>
     (\<exists>l \<in> set (lines_after (to_ascii_lowercase c)). chunked_line l)"
proof -
  let ?low = to_ascii_lowercase
  have low: "?low (x @ y) = ?low x @ ?low y" for x y by (simp add: to_ascii_lowercase_def)
  have no: "CHR 0x0A \<notin> set (?low (nm @ k))"
    using assms by (simp add: LF_in_lowercase other_header_def)
  have bad: "\<not> chunked_line (strip_cr (?low nm @ x))" for x
    using other_header_line [OF assms(1)] by (simp add: chunked_line_def)
  show ?thesis
  proof (cases "split_once (CHR 0x0A) (?low c)")
    case None
    then have "CHR 0x0A \<notin> set (?low (nm @ k @ c))"
      using no by (simp add: low split_once_eq_None)
    then have "str_lines (?low (nm @ k @ c)) = (if ?low (nm @ k @ c) = [] then [] else [?low (nm @ k @ c)])"
      by (rule str_lines_line(1))
    moreover have "\<not> chunked_line (?low nm @ x)" for x
      using assms(1) prefix_same_cases [of "''transfer-encoding:''" "?low nm @ x" "?low nm"]
      by (auto simp: chunked_line_def other_header_def)
    ultimately show ?thesis
      using None by (simp add: lines_after_def low)
  next
    case (Some p)
    obtain c1 c2 where p: "p = (c1, c2)" by (cases p)
    then have c: "?low c = c1 @ CHR 0x0A # c2" and c1: "CHR 0x0A \<notin> set c1"
      using Some by (simp_all add: split_once_eq_Some)
    have "str_lines (?low (nm @ k @ c)) = strip_cr (?low nm @ ?low k @ c1) # str_lines c2"
      using str_lines_line(2) [of "?low (nm @ k) @ c1" c2] no c1 by (simp add: low c)
    then show ?thesis using Some p bad by (simp add: lines_after_def)
  qed
qed

lemma header_is_chunked_changed:
  assumes "other_header nm" and "CHR 0x0A \<notin> set k" and "CHR 0x0A \<notin> set k'"
    and "ascii (a @ CHR 0x0A # nm @ k @ c)" and "ascii k'"
  shows "header_is_chunked (a @ CHR 0x0A # nm @ k' @ c) = header_is_chunked (a @ CHR 0x0A # nm @ k @ c)"
proof -
  have lines: "header_is_chunked (a @ CHR 0x0A # nm @ x @ c) \<longleftrightarrow>
      (\<exists>l \<in> set (map strip_cr (split_on (\<lambda>c. c = CHR 0x0A) (to_ascii_lowercase a))). chunked_line l) \<or>
      (\<exists>l \<in> set (lines_after (to_ascii_lowercase c)). chunked_line l)"
    if "CHR 0x0A \<notin> set x" and "ascii (a @ CHR 0x0A # nm @ x @ c)" for x
  proof -
    have "to_ascii_lowercase (a @ CHR 0x0A # nm @ x @ c) =
        to_ascii_lowercase a @ CHR 0x0A # to_ascii_lowercase (nm @ x @ c)"
      by (simp add: to_ascii_lowercase_def ascii_lower_def)
    then show ?thesis
      using key_line_lines [OF assms(1) that(1), of c] that(2)
      by (simp add: header_is_chunked_def chunked_line_def [symmetric] str_lines_append bex_Un)
  qed
  have "ascii (a @ CHR 0x0A # nm @ k' @ c)" using assms(4,5) by (auto simp: ascii_def)
  then show ?thesis using lines [OF assms(2,4)] lines [OF assms(3)] by simp
qed

section \<open>The claim\<close>

lemma request_line_changed: "request_line (a @ CHR 0x0A # x) = request_line (a @ CHR 0x0A # y)"
proof -
  have "takeWhile (\<lambda>b. \<not> (b = CHR 0x0D \<or> b = CHR 0x0A)) (a @ CHR 0x0A # x) =
      takeWhile (\<lambda>b. \<not> (b = CHR 0x0D \<or> b = CHR 0x0A)) (a @ CHR 0x0A # y)"
    by (induction a) auto
  then show ?thesis by (simp add: request_line_def first_line_def hd_split_on)
qed

text \<open>A request as the reseller's HTTP client writes it: the key is the value of one header line.\<close>

definition request_with_key :: "bytes \<Rightarrow> string \<Rightarrow> string \<Rightarrow> bytes \<Rightarrow> bytes \<Rightarrow> bytes" where
  "request_with_key before nm k after body = (before @ CHR 0x0A # nm @ k @ after) @ body"

definition key_placed :: "bytes \<Rightarrow> string \<Rightarrow> string \<Rightarrow> bytes \<Rightarrow> bytes \<Rightarrow> bool" where
  "key_placed before nm k after body \<longleftrightarrow>
     http_head (before @ CHR 0x0A # nm @ k @ after) \<and> ascii (before @ CHR 0x0A # nm @ k @ after) \<and>
     other_header nm \<and> set k \<inter> {CHR 0x0D, CHR 0x0A} = {} \<and>
     (\<forall>j < length (before @ CHR 0x0A # nm). \<not> occurs_at k (request_with_key before nm k after body) j)"

lemma redaction_keeps_body:
  assumes "key_placed before nm k after body" and "length k' = length k"
    and "set k' \<inter> {CHR 0x0D, CHR 0x0A} = {}" and "ascii k'"
  shows "decoded_body (request_with_key before nm k' after body) =
         decoded_body (request_with_key before nm k after body)"
proof -
  let ?h = "\<lambda>k. before @ CHR 0x0A # nm @ k @ after"
  have head: "http_head (?h k)" using assms(1) by (simp add: key_placed_def)
  have head': "http_head (?h k')"
    using http_head_changed [of "before @ CHR 0x0A # nm" k after k'] assms head
    by (simp add: key_placed_def)
  have "header_is_chunked (?h k') = header_is_chunked (?h k)"
    using assms by (intro header_is_chunked_changed) (auto simp: key_placed_def)
  then show ?thesis
    unfolding request_with_key_def decoded_body_message [OF head] decoded_body_message [OF head']
    by simp
qed

lemma redaction_keeps_claim:
  assumes "key_placed before nm k after body"
    and "reveal_plan (Some k) (request_with_key before nm k after body) = Inr rs"
    and "fill \<notin> {CHR 0x0D, CHR 0x0A}" and "byte_val fill < 128"
  shows "witnessed_claim L h (withheld fill rs (request_with_key before nm k after body)) received t =
         witnessed_claim L h (request_with_key before nm k after body) received t"
proof -
  let ?k' = "replicate (length k) fill"
  have "request_with_key before nm x after body = (before @ CHR 0x0A # nm) @ x @ (after @ body)" for x
    by (simp add: request_with_key_def)
  then have seen: "withheld fill rs (request_with_key before nm k after body) =
      request_with_key before nm ?k' after body"
    using withheld_plan [of k "before @ CHR 0x0A # nm" "after @ body" rs fill] assms(1,2)
    by (simp add: key_placed_def)
  have "decoded_body (request_with_key before nm ?k' after body) =
        decoded_body (request_with_key before nm k after body)"
    using assms(1,3,4) by (intro redaction_keeps_body) (auto simp: ascii_def)
  moreover have "request_line (request_with_key before nm ?k' after body) =
      request_line (request_with_key before nm k after body)"
    unfolding request_with_key_def by (simp add: request_line_changed)
  ultimately show ?thesis unfolding seen witnessed_claim_def by simp
qed

section \<open>What the notary sees of a request\<close>

text \<open>
  The request as sent: an unchunked head, with the key as the value of one of its lines when
  there is a key, and the body.
\<close>

definition request_sent :: "string option \<Rightarrow> bytes \<Rightarrow> bytes \<Rightarrow> bool" where
  "request_sent key body sent \<longleftrightarrow>
     (case key of
        None \<Rightarrow> \<exists>h. http_head h \<and> \<not> header_is_chunked h \<and> sent = h @ body
      | Some k \<Rightarrow> \<exists>before nm after. key_placed before nm k after body \<and>
          \<not> header_is_chunked (before @ CHR 0x0A # nm @ k @ after) \<and>
          sent = request_with_key before nm k after body)"

definition seen_by_notary :: "char \<Rightarrow> string option \<Rightarrow> bytes \<Rightarrow> bytes \<Rightarrow> bool" where
  "seen_by_notary fill key sent seen \<longleftrightarrow>
     fill \<notin> {CHR 0x0D, CHR 0x0A} \<and> byte_val fill < 128 \<and>
     (\<exists>rs. reveal_plan key sent = Inr rs \<and> seen = withheld fill rs sent)"

lemma withheld_all: "withheld fill [(0, length sent)] sent = sent"
  by (intro nth_equalityI) (auto simp: withheld_def positions_def)

lemma seen_claim:
  assumes "request_sent key body sent" and "seen_by_notary fill key sent seen"
  shows "witnessed_claim L h seen received t = witnessed_claim L h sent received t"
    and "decoded_body sent = body"
proof -
  have "witnessed_claim L h seen received t = witnessed_claim L h sent received t \<and> decoded_body sent = body"
  proof (cases key)
    case None
    then show ?thesis
      using assms
      by (auto simp: request_sent_def seen_by_notary_def reveal_plan_cases withheld_all decoded_body_message)
  next
    case (Some k)
    obtain before nm after where placed: "key_placed before nm k after body"
        and plain: "\<not> header_is_chunked (before @ CHR 0x0A # nm @ k @ after)"
        and sent: "sent = request_with_key before nm k after body"
      using assms(1) Some by (auto simp: request_sent_def)
    have head: "http_head (before @ CHR 0x0A # nm @ k @ after)"
      using placed by (simp add: key_placed_def)
    have "decoded_body sent = body"
      unfolding sent request_with_key_def decoded_body_message [OF head] using plain by simp
    then show ?thesis
      using assms(2) redaction_keeps_claim [OF placed] Some sent
      by (auto simp: seen_by_notary_def)
  qed
  then show "witnessed_claim L h seen received t = witnessed_claim L h sent received t"
    and "decoded_body sent = body" by simp_all
qed

lemma no_earlier_key: "hd k \<notin> set a \<Longrightarrow> k \<noteq> [] \<Longrightarrow> \<forall>j < length a. \<not> occurs_at k (a @ x) j"
proof (intro allI impI notI)
  fix j assume hd: "hd k \<notin> set a" and k: "k \<noteq> []" and j: "j < length a" and "occurs_at k (a @ x) j"
  then have "(a @ x) ! (j + 0) = k ! 0" unfolding occurs_at_nth by blast
  then have "a ! j = hd k" using j k by (simp add: nth_append hd_conv_nth)
  with hd j show False using nth_mem by metis
qed

end
