(* ===== verification/Honest_Run.thy ===== *)
theory Honest_Run
  imports Protocol Redaction
begin

text \<open>
  The whole pipeline when nobody cheats and no call fails: the buyer posts its request, the
  reseller verifies the payment and runs the prover session against the notary, the notary
  signs what it witnessed, the reseller delivers, and the buyer verifies. The processes meet
  where the code meets: the notary sees the reseller's request with the key withheld, the
  attestation is read from the notary's socket, the answer is the decoded body of what the
  notary saw, and the buyer judges the reseller's response.
\<close>

definition run_laws :: "libs \<Rightarrow> ('c, 'ch, 'r) mpp_lib \<Rightarrow> bool" where
  "run_laws L M \<longleftrightarrow> delivery_laws L M \<and> attestation_json_law L \<and> ed25519_law L \<and> sha256_law L"

text \<open>Notary and reseller started on one deployment, the reseller in its honest mode.\<close>

definition deployed ::
  "libs \<Rightarrow> (string \<Rightarrow> string option) \<Rightarrow> (string \<Rightarrow> string option) \<Rightarrow> notary_config \<Rightarrow> app \<Rightarrow> bool" where
  "deployed L nvar rvar cfg st \<longleftrightarrow>
     (\<exists>listen. notary_setup L nvar = Inr (listen, cfg)) \<and>
     (\<exists>rpc. reseller_setup L rvar = Inr (rpc, st)) \<and>
     rvar ''UPSTREAM_HOST'' = nvar ''UPSTREAM_HOST'' \<and>
     rvar ''NOTARY_SEED'' = nvar ''NOTARY_SEED'' \<and>
     rvar ''RESELLER_MODE'' \<noteq> Some ''cheat-substitute''"

lemma notary_setup_Inr:
  assumes "notary_setup L var = Inr (listen, cfg)"
  shows "var ''UPSTREAM_HOST'' = Some (cfg_upstream_host cfg)"
    and "cfg_notary cfg =
      from_seed L (case var ''NOTARY_SEED'' of Some s \<Rightarrow> s | None \<Rightarrow> ''demo-notary-key'')"
  using assms by (cases "var ''UPSTREAM_HOST''"; auto simp: notary_setup_def Let_def)+

lemma reseller_setup_Inr:
  assumes "reseller_setup L var = Inr (rpc, st)"
  shows "var ''UPSTREAM_HOST'' = Some (upstream_host st)"
    and "app_notary_pubkey st = public_key_hex L
      (from_seed L (case var ''NOTARY_SEED'' of Some s \<Rightarrow> s | None \<Rightarrow> ''demo-notary-key''))"
    and "app_mode st = (if var ''RESELLER_MODE'' = Some ''cheat-substitute'' then CheatSubstitute else Honest)"
  using assms by (cases "var ''UPSTREAM_HOST''"; auto simp: reseller_setup_def Let_def)+

lemma setup_keys:
  "notary_setup L nvar = Inr (listen, cfg) \<Longrightarrow> reseller_setup L rvar = Inr (rpc, st) \<Longrightarrow>
   rvar ''NOTARY_SEED'' = nvar ''NOTARY_SEED'' \<Longrightarrow> app_notary_pubkey st = public_key_hex L (cfg_notary cfg)"
  by (simp add: notary_setup_Inr(2) reseller_setup_Inr(2))

lemma deployed_agree:
  assumes "deployed L nvar rvar cfg st"
  shows "app_notary_pubkey st = public_key_hex L (cfg_notary cfg)"
    and "upstream_host st = cfg_upstream_host cfg" and "app_mode st = Honest"
    and "\<exists>seed. cfg_notary cfg = from_seed L seed"
proof -
  obtain listen rpc where n: "notary_setup L nvar = Inr (listen, cfg)"
      and r: "reseller_setup L rvar = Inr (rpc, st)"
    using assms unfolding deployed_def by blast
  have same: "rvar ''UPSTREAM_HOST'' = nvar ''UPSTREAM_HOST''" "rvar ''NOTARY_SEED'' = nvar ''NOTARY_SEED''"
      "rvar ''RESELLER_MODE'' \<noteq> Some ''cheat-substitute''"
    using assms by (simp_all add: deployed_def)
  show "app_notary_pubkey st = public_key_hex L (cfg_notary cfg)"
    by (rule setup_keys [OF n r same(2)])
  show "upstream_host st = cfg_upstream_host cfg"
    using notary_setup_Inr(1) [OF n] reseller_setup_Inr(1) [OF r] same(1) by simp
  show "app_mode st = Honest"
    using reseller_setup_Inr(3) [OF r] same(3) by simp
  show "\<exists>seed. cfg_notary cfg = from_seed L seed"
    using notary_setup_Inr(2) [OF n] by blast
qed

text \<open>The notary's session, in which the prover revealed \<open>sent\<close> and \<open>received\<close>.\<close>

definition good_session :: "notary_config \<Rightarrow> notary_env \<Rightarrow> bytes \<Rightarrow> bytes \<Rightarrow> bool" where
  "good_session cfg N sent received \<longleftrightarrow>
     (\<forall>k. nv_fails N k = None) \<and> nv_commit N = ProxyRequested \<and> nv_server_identity N \<and>
     nv_server_name N = Some (cfg_upstream_host cfg) \<and> nv_transcript N = Some (sent, received)"

text \<open>The prover's side of the same connection, and of what its HTTP client handed on.\<close>

definition notarized_prover ::
  "libs \<Rightarrow> notary_config \<Rightarrow> app \<Rightarrow> notary_env \<Rightarrow> prover_env \<Rightarrow> char \<Rightarrow> bytes \<Rightarrow> bytes \<Rightarrow> bool" where
  "notarized_prover L cfg st N P fill body seen \<longleftrightarrow>
     (\<forall>k. pv_fails P k = None) \<and>
     request_sent (api_key st) body (pv_sent P) \<and> seen_by_notary fill (api_key st) (pv_sent P) seen \<and>
     pv_attestation P = concat (written (snd (notarize_session L cfg N [])))"

definition good_prover ::
  "libs \<Rightarrow> notary_config \<Rightarrow> app \<Rightarrow> notary_env \<Rightarrow> prover_env \<Rightarrow> char \<Rightarrow> bytes \<Rightarrow> bytes \<Rightarrow> bytes \<Rightarrow> bool" where
  "good_prover L cfg st N P fill body seen received \<longleftrightarrow>
     notarized_prover L cfg st N P fill body seen \<and> pv_body P = decoded_body received"

lemma good_session_written:
  assumes "good_session cfg N sent received"
  shows "written (snd (notarize_session L cfg N [])) =
    [attestation_to_json L (attest L (cfg_notary cfg)
       (witnessed_claim L (cfg_upstream_host cfg) sent received (nv_time N)))]"
proof -
  have w: "witnessed L cfg N (witnessed_claim L (cfg_upstream_host cfg) sent received (nv_time N))"
    using assms by (simp add: good_session_def witnessed_def)
  have q: "quiet cfg N"
    using assms by (simp add: good_session_def quiet_def)
  show ?thesis
    using assms
    by (simp add: notarize_session_signs [OF q w] good_session_def Let_def written_def
        before_signing_def List.map_filter_simps)
qed

lemma notarized_prover_leg:
  assumes "good_session cfg N seen received" and "notarized_prover L cfg st N P fill body seen"
    and "attestation_json_law L"
  shows "\<exists>calls. run_prover L P st body [] =
    (Inr (pv_body P, attest L (cfg_notary cfg)
       (witnessed_claim L (cfg_upstream_host cfg) (pv_sent P) received (nv_time N))), calls)"
    and "decoded_body (pv_sent P) = body"
proof -
  obtain rs where rs: "reveal_plan (api_key st) (pv_sent P) = Inr rs"
      and ok: "\<forall>k. pv_fails P k = None"
      and att: "pv_attestation P = concat (written (snd (notarize_session L cfg N [])))"
      and sent: "request_sent (api_key st) body (pv_sent P)"
      and seen: "seen_by_notary fill (api_key st) (pv_sent P) seen"
    using assms(2) unfolding notarized_prover_def seen_by_notary_def by blast
  have "attestation_from_json L (pv_attestation P) = Some (attest L (cfg_notary cfg)
       (witnessed_claim L (cfg_upstream_host cfg) (pv_sent P) received (nv_time N)))"
    using assms(3) by (simp add: att good_session_written [OF assms(1)] attestation_json_law_def
        seen_claim(1) [OF sent seen])
  from run_prover_quiet [OF ok rs this, of body]
  show "\<exists>calls. run_prover L P st body [] =
    (Inr (pv_body P, attest L (cfg_notary cfg)
       (witnessed_claim L (cfg_upstream_host cfg) (pv_sent P) received (nv_time N))), calls)" by blast
  show "decoded_body (pv_sent P) = body" by (rule seen_claim(2) [OF sent seen])
qed

lemma good_prover_leg:
  assumes "good_session cfg N seen received" and "good_prover L cfg st N P fill body seen received"
    and "attestation_json_law L"
  shows "\<exists>calls. run_prover L P st body [] =
    (Inr (decoded_body received, attest L (cfg_notary cfg)
       (witnessed_claim L (cfg_upstream_host cfg) (pv_sent P) received (nv_time N))), calls)"
    and "decoded_body (pv_sent P) = body"
proof -
  have prover: "notarized_prover L cfg st N P fill body seen" and b: "pv_body P = decoded_body received"
    using assms(2) by (simp_all add: good_prover_def)
  note leg = notarized_prover_leg [OF assms(1) prover assms(3)]
  show "\<exists>calls. run_prover L P st body [] =
    (Inr (decoded_body received, attest L (cfg_notary cfg)
       (witnessed_claim L (cfg_upstream_host cfg) (pv_sent P) received (nv_time N))), calls)"
    using leg(1) by (simp add: b)
  show "decoded_body (pv_sent P) = body" by (rule leg(2))
qed

lemma witnessed_claim_sel [simp]:
  "host (witnessed_claim L h sent received t) = h"
  "request_digest (witnessed_claim L h sent received t) = sha256_hex L (decoded_body sent)"
  "response_digest (witnessed_claim L h sent received t) = sha256_hex L (decoded_body received)"
  "response_status (witnessed_claim L h sent received t) = status_code received"
  "timestamp (witnessed_claim L h sent received t) = t"
  by (simp_all add: witnessed_claim_def case_prod_unfold Let_def)

text \<open>What the reseller answers to the paid request, and what the buyer makes of it.\<close>

lemma honest_reply:
  fixes J :: "'v json_lib"
  assumes laws: "run_laws L M" and dep: "deployed L nvar rvar cfg st"
    and session: "good_session cfg N seen received" and prover: "good_prover L cfg st N P fill body seen received"
    and paid: "presented M headers = Some c" "verify_credential M c = Inr receipt"
  shows "\<exists>reply. fst (messages L J M P st headers body []) = Inr reply
    \<and> reply_status reply = 200
    \<and> reply_body reply = TextBody (starts_with_yes J (decoded_body received))
    \<and> (\<exists>cs. judge_response L J M (public_key_hex L (cfg_notary cfg)) (cfg_upstream_host cfg)
              (sha256_hex L body) (as_response J reply) = Verified cs)"
proof -
  let ?c = "witnessed_claim L (cfg_upstream_host cfg) (pv_sent P) received (nv_time N)"
  let ?leg = "attest L (cfg_notary cfg) ?c"
  have dl: "delivery_laws L M" and aj: "attestation_json_law L" and ed: "ed25519_law L"
      and sha: "sha256_law L" and hex: "hex_law L"
    using laws by (simp_all add: run_laws_def delivery_laws_def)
  obtain calls where run: "run_prover L P st body [] = (Inr (decoded_body received, ?leg), calls)"
    using good_prover_leg(1) [OF session prover aj] by blast
  have body: "decoded_body (pv_sent P) = body" by (rule good_prover_leg(2) [OF session prover aj])
  have mode: "app_mode st = Honest" by (rule deployed_agree(3) [OF dep])
  obtain reply where deliver: "deliver L J M st receipt (decoded_body received) ?leg = Inr reply"
    and judge: "judge_response L J M (public_key_hex L (cfg_notary cfg)) (cfg_upstream_host cfg)
      (sha256_hex L body) (as_response J reply) =
      judge_bundle L J (public_key_hex L (cfg_notary cfg)) (cfg_upstream_host cfg)
        (sha256_hex L body) (reference M receipt)
        (starts_with_yes J (decoded_body received))
        (make_bundle ?leg (sha256_hex L (starts_with_yes J (decoded_body received))) (reference M receipt))
        [(''leg0'', decoded_body received)]"
    using delivered_is_judged [OF dl, where st = st and response_body = "decoded_body received"
        and answer = "decoded_body received" and J = J and leg = ?leg and receipt = receipt
        and k = "public_key_hex L (cfg_notary cfg)" and h = "cfg_upstream_host cfg"
        and q = "sha256_hex L body"] mode
    by auto
  obtain seed where "cfg_notary cfg = from_seed L seed"
    using deployed_agree(4) [OF dep] by blast
  then have key: "length (signing_key (cfg_notary cfg)) = 32"
    using sha by (simp add: from_seed_def sha256_law_def)
  have "\<exists>cs. judge_bundle L J (public_key_hex L (cfg_notary cfg)) (cfg_upstream_host cfg)
        (sha256_hex L body) (reference M receipt)
        (starts_with_yes J (decoded_body received))
        (make_bundle ?leg (sha256_hex L (starts_with_yes J (decoded_body received))) (reference M receipt))
        [(''leg0'', decoded_body received)] = Verified cs"
    by (rule honest_bundle_verified [OF signed_under_attest [OF hex ed key]]) (simp_all add: body)
  moreover have "fst (messages L J M P st headers body []) = Inr reply"
    using deliver by (simp add: messages_paid [OF paid run])
  moreover have "reply_body reply = TextBody (starts_with_yes J (decoded_body received))"
    using deliver_reply(2) [OF deliver] mode by simp
  ultimately show ?thesis
    using judge deliver_reply(1) [OF deliver] by metis
qed

text \<open>The buyer of the deployment: it pins the notary's key, and its request is paid and served.\<close>

definition good_buyer ::
  "libs \<Rightarrow> 'v json_lib \<Rightarrow> ('c, 'ch, 'r) mpp_lib \<Rightarrow> notary_config \<Rightarrow> app \<Rightarrow> prover_env
     \<Rightarrow> (string \<Rightarrow> bytes option) \<Rightarrow> 'v buyer_env \<Rightarrow> bool" where
  "good_buyer L J M cfg st P headers B \<longleftrightarrow>
     buyer_ready B \<and> pinned_key J B (reseller_url B) = Inr (public_key_hex L (cfg_notary cfg)) \<and>
     var_or B ''EXPECTED_UPSTREAM'' ''api.anthropic.com'' = cfg_upstream_host cfg \<and>
     be_send B (reseller_url B @ ''/v1/messages'') (buyer_request J B) =
       (case fst (messages L J M P st headers (buyer_request J B) []) of
          Inl _ \<Rightarrow> None | Inr reply \<Rightarrow> Some (as_response J reply))"

lemma honest_buyer_verifies:
  fixes J :: "'v json_lib"
  assumes laws: "run_laws L M" and dep: "deployed L nvar rvar cfg st"
    and session: "good_session cfg N seen received" and prover: "good_prover L cfg st N P fill (buyer_request J B) seen received"
    and paid: "presented M headers = Some c" "verify_credential M c = Inr receipt"
    and buyer: "good_buyer L J M cfg st P headers B"
  shows "\<exists>cs. buyer_main L J M B = Verified cs"
proof -
  obtain reply where reply: "fst (messages L J M P st headers (buyer_request J B) []) = Inr reply"
    and verified: "\<exists>cs. judge_response L J M (public_key_hex L (cfg_notary cfg)) (cfg_upstream_host cfg)
              (sha256_hex L (buyer_request J B)) (as_response J reply) = Verified cs"
    using honest_reply [OF laws dep session prover paid] by blast
  have "buyer_main L J M B = judge_response L J M (public_key_hex L (cfg_notary cfg))
      (cfg_upstream_host cfg) (sha256_hex L (buyer_request J B)) (as_response J reply)"
    using buyer buyer_main_ready [of B J "public_key_hex L (cfg_notary cfg)" "as_response J reply" L M]
    by (simp add: good_buyer_def reply)
  then show ?thesis using verified by simp
qed

end
