(* ===== verification/Reference_Run.thy ===== *)
theory Reference_Run
  imports Reference_Crates Honest_Run
begin

text \<open>
  One concrete deployment and one concrete purchase over the reference crates: the
  configurations, the bytes of the connection, the courses of the two sessions, the buyer, and
  the world after the purchase. The witnesses of the properties are instances of it.
\<close>

section \<open>Configuration\<close>

definition ref_nvar :: "string \<Rightarrow> string option" where
  "ref_nvar = [''UPSTREAM_HOST'' \<mapsto> ''api.anthropic.com'']"

definition ref_rvar :: "string \<Rightarrow> string option" where
  "ref_rvar = [''UPSTREAM_HOST'' \<mapsto> ''api.anthropic.com'', ''UPSTREAM_API_KEY'' \<mapsto> ''Q7'',
               ''UPSTREAM_HEADERS'' \<mapsto> ''anthropic-version: 2023-06-01'']"

definition ref_config :: notary_config where
  "ref_config =
     \<lparr>cfg_upstream_host = ''api.anthropic.com'', cfg_upstream_port = 443, cfg_notary = ref_notary\<rparr>"

definition ref_app :: app where
  "ref_app =
     \<lparr>notary_addr = ''127.0.0.1:7047'', upstream_host = ''api.anthropic.com'', api_key = Some ''Q7'',
      upstream_headers = [(''anthropic-version'', ''2023-06-01'')],
      app_notary_pubkey = public_key_hex ref_libs ref_notary, price = ''0.05'', app_mode = Honest\<rparr>"

lemma ref_headers_parse:
  "parse_headers ''anthropic-version: 2023-06-01'' = [(''anthropic-version'', ''2023-06-01'')]"
  by code_simp

lemma ref_deployed: "deployed ref_libs ref_nvar ref_rvar ref_config ref_app"
  by (simp add: deployed_def notary_setup_def reseller_setup_def Let_def ref_nvar_def ref_rvar_def
      ref_config_def ref_app_def ref_notary_def ref_headers_parse)

section \<open>The connection\<close>

text \<open>The head of the request, around the value of the key header.\<close>

definition ref_before :: bytes where
  "ref_before = ''POST /v1/messages HTTP/1.1'' @ [CHR 0x0D]"

definition ref_head :: "string \<Rightarrow> bytes" where
  "ref_head k = ref_before @ CHR 0x0A # ''x-api-key: '' @ k @ crlf @ crlf"

definition ref_request :: bytes where
  "ref_request = ref_render (request_payload ref_json ''Is the sky blue?'')"

definition ref_response_head :: bytes where
  "ref_response_head = ''HTTP/1.1 200 OK'' @ crlf @ crlf"

text \<open>What the prover sent, and what the notary sees of it: the key's bytes are withheld.\<close>

definition ref_sent :: bytes where
  "ref_sent = request_with_key ref_before ''x-api-key: '' ''Q7'' (crlf @ crlf) ref_request"

definition ref_seen :: bytes where
  "ref_seen = ref_head (replicate 2 CHR 0x00) @ ref_request"

definition ref_received :: bytes where
  "ref_received = ref_response_head @ ref_answer ''Yes''"

lemma ref_heads:
  "http_head (ref_head (replicate 2 CHR 0x00))" "http_head (ref_head ''Q7'')" "http_head ref_response_head"
  "\<not> header_is_chunked (ref_head (replicate 2 CHR 0x00))" "\<not> header_is_chunked (ref_head ''Q7'')"
  "\<not> header_is_chunked ref_response_head"
proof -
  have "ref_head k = (ref_before @ CHR 0x0A # ''x-api-key: '' @ k) @ crlf @ crlf" for k
    by (simp add: ref_head_def)
  then have ends: "\<exists>a. ref_head k = a @ crlf @ crlf" for k by blast
  have "position (\<lambda>w. w = crlf @ crlf) (windows 4 (ref_head (replicate 2 CHR 0x00)))
      = Some (length (ref_head (replicate 2 CHR 0x00)) - 4)"
    and "position (\<lambda>w. w = crlf @ crlf) (windows 4 (ref_head ''Q7'')) = Some (length (ref_head ''Q7'') - 4)"
    by code_simp+
  then show "http_head (ref_head (replicate 2 CHR 0x00))" "http_head (ref_head ''Q7'')"
    using ends unfolding http_head_def by blast+
  have "position (\<lambda>w. w = crlf @ crlf) (windows 4 ref_response_head) = Some (length ref_response_head - 4)"
    by code_simp
  then show "http_head ref_response_head"
    unfolding http_head_def ref_response_head_def by blast
  show "\<not> header_is_chunked (ref_head (replicate 2 CHR 0x00))" "\<not> header_is_chunked (ref_head ''Q7'')"
    "\<not> header_is_chunked ref_response_head"
    by code_simp+
qed

lemma ref_key_placed: "key_placed ref_before ''x-api-key: '' ''Q7'' (crlf @ crlf) ref_request"
proof -
  have "http_head (ref_before @ CHR 0x0A # ''x-api-key: '' @ ''Q7'' @ crlf @ crlf)"
    using ref_heads(2) by (simp add: ref_head_def)
  moreover have "ascii (ref_before @ CHR 0x0A # ''x-api-key: '' @ ''Q7'' @ crlf @ crlf)"
    by (simp add: ascii_def ref_before_def crlf_def)
  moreover have "other_header ''x-api-key: ''"
    unfolding other_header_def by code_simp
  moreover have "\<forall>j < length (ref_before @ CHR 0x0A # ''x-api-key: '').
      \<not> occurs_at ''Q7'' (request_with_key ref_before ''x-api-key: '' ''Q7'' (crlf @ crlf) ref_request) j"
    using no_earlier_key [of "''Q7''" "ref_before @ CHR 0x0A # ''x-api-key: ''" "''Q7'' @ crlf @ crlf @ ref_request"]
    by (simp add: request_with_key_def ref_before_def)
  ultimately show ?thesis
    by (simp add: key_placed_def)
qed

lemma ref_request_sent: "request_sent (Some ''Q7'') ref_request ref_sent"
  using ref_key_placed ref_heads(5) unfolding request_sent_def ref_sent_def ref_head_def option.case by blast

lemma ref_withheld: "seen_by_notary CHR 0x00 (Some ''Q7'') ref_sent ref_seen"
proof -
  let ?a = "ref_before @ CHR 0x0A # ''x-api-key: ''" and ?c = "crlf @ crlf @ ref_request"
  have sent: "ref_sent = ?a @ ''Q7'' @ ?c"
    by (simp add: ref_sent_def request_with_key_def)
  have first: "\<forall>j < length ?a. \<not> occurs_at ''Q7'' (?a @ ''Q7'' @ ?c) j"
    by (rule no_earlier_key) (simp_all add: ref_before_def)
  have "occurs_at ''Q7'' ref_sent (length ?a)"
    unfolding sent occurs_at_split by blast
  then obtain rs where rs: "reveal_plan (Some ''Q7'') ref_sent = Inr rs"
    using reveal_plan_found [of "''Q7''"] by blast
  from withheld_plan [OF rs [unfolded sent] first, of "CHR 0x00"]
  have "withheld CHR 0x00 rs ref_sent = ?a @ replicate 2 CHR 0x00 @ ?c"
    unfolding sent by (simp add: eval_nat_numeral)
  also have "\<dots> = ref_seen"
    by (simp add: ref_seen_def ref_head_def)
  finally show ?thesis
    using rs by (auto simp: seen_by_notary_def)
qed

lemma ref_decoded:
  "decoded_body ref_seen = ref_request" "decoded_body ref_received = ref_answer ''Yes''"
  by (simp_all add: ref_seen_def ref_received_def decoded_body_message ref_heads)

lemma ref_verdict: "starts_with_yes ref_json (ref_answer ''Yes'') = ''1''"
  by code_simp

section \<open>The sessions\<close>

definition ref_session :: notary_env where
  "ref_session =
     \<lparr>nv_fails = (\<lambda>_. None), nv_commit = ProxyRequested, nv_server_identity = True,
      nv_server_name = Some ''api.anthropic.com'', nv_transcript = Some (ref_seen, ref_received),
      nv_time = ''1781740800''\<rparr>"

lemma ref_good_session: "good_session ref_config ref_session ref_seen ref_received"
  by (simp add: good_session_def ref_session_def ref_config_def)

definition ref_witnessed :: leg_claim where
  "ref_witnessed = witnessed_claim ref_libs ''api.anthropic.com'' ref_seen ref_received ''1781740800''"

lemma ref_witnessed: "witnessed ref_libs ref_config ref_session ref_witnessed"
  by (simp add: witnessed_def ref_session_def ref_config_def ref_witnessed_def)

lemma ref_quiet: "quiet ref_config ref_session"
  by (simp add: quiet_def ref_session_def)

definition ref_signed :: leg_attestation where
  "ref_signed = attest ref_libs ref_notary ref_witnessed"

lemma ref_ready: "notary_ready (ref_libs, ref_notary)"
  unfolding ref_notary_def by (rule from_seed_ready) simp_all

lemma ref_key_length: "length (signing_key ref_notary) = 32"
  using ref_ready by (simp add: notary_ready_def)

lemma ref_signed_under: "signed_under ref_libs (sk_public ref_libs (signing_key ref_notary)) ref_signed"
  unfolding ref_signed_def by (rule signed_under_attest) (simp_all add: ref_key_length)

lemma ref_session_written:
  "written (snd (notarize_session ref_libs ref_config ref_session []))
     = [attestation_to_json ref_libs ref_signed]"
  by (simp only: good_session_written [OF ref_good_session])
    (simp add: ref_signed_def ref_witnessed_def ref_config_def ref_session_def)

definition ref_prover :: prover_env where
  "ref_prover =
     \<lparr>pv_fails = (\<lambda>_. None), pv_body = ref_answer ''Yes'', pv_sent = ref_sent,
      pv_received = ref_received, pv_attestation = attestation_to_json ref_libs ref_signed,
      pv_decode_error = ''''\<rparr>"

lemma ref_sel:
  "api_key ref_app = Some ''Q7''" "app_mode ref_app = Honest"
  "pv_fails ref_prover k = None" "pv_sent ref_prover = ref_sent" "pv_body ref_prover = ref_answer ''Yes''"
  "pv_attestation ref_prover = attestation_to_json ref_libs ref_signed"
  "nv_fails ref_session c = None" "nv_commit ref_session = ProxyRequested"
  "nv_server_identity ref_session" "nv_server_name ref_session = Some (cfg_upstream_host ref_config)"
  "nv_transcript ref_session = Some (ref_seen, ref_received)"
  "ref_witnessed =
     witnessed_claim ref_libs (cfg_upstream_host ref_config) ref_seen ref_received (nv_time ref_session)"
  by (simp_all add: ref_app_def ref_prover_def ref_session_def ref_config_def ref_witnessed_def)

lemma ref_attestation_read:
  "attestation_from_json ref_libs (attestation_to_json ref_libs ref_signed) = Some ref_signed"
  using ref_laws(7) unfolding attestation_json_law_def by blast

lemma ref_plan: "\<exists>rs. reveal_plan (api_key ref_app) (pv_sent ref_prover) = Inr rs"
  using ref_withheld unfolding seen_by_notary_def ref_sel by blast

lemma ref_good_prover:
  "good_prover ref_libs ref_config ref_app ref_session ref_prover CHR 0x00 ref_request ref_seen ref_received"
  by (simp add: good_prover_def notarized_prover_def ref_session_written ref_request_sent ref_withheld ref_sel ref_decoded)

section \<open>The payment and the buyer\<close>

lemma ref_codec_laws: "receipt_codec_law ref_libs" "materials_codec_law ref_libs"
  by (simp_all add: receipt_codec_law_def materials_codec_law_def)

lemma ref_run_laws: "run_laws ref_libs ref_mpp"
proof -
  have "header_law ref_mpp" by (simp add: header_law_def printable_def ref_mpp_def)
  moreover have "payment_law ref_mpp"
    using graphic_ref_hex by (auto simp: payment_law_def ref_mpp_def ref_unhex_hex printable_graphic)
  ultimately show ?thesis
    by (simp add: run_laws_def delivery_laws_def ref_codec_laws)
qed

definition ref_paid_headers :: "string \<Rightarrow> bytes option" where
  "ref_paid_headers = [''authorization'' \<mapsto> ''Payment valid'']"

lemma ref_paid:
  "presented ref_mpp ref_paid_headers = Some ''valid''" "verify_credential ref_mpp ''valid'' = Inr ''0xabc''"
  by (simp_all add: presented_def ref_paid_headers_def) code_simp+

text \<open>The buyer: configured with the notary's key and the upstream, its request is posted to the reseller.\<close>

definition ref_buyer :: "json buyer_env" where
  "ref_buyer =
     \<lparr>be_var = [''NOTARY_PUBKEY'' \<mapsto> public_key_hex ref_libs ref_notary],
      be_arg = Some ''Is the sky blue?'',
      be_url_ok = (\<lambda>_. True), be_fund = True, be_provider = True,
      be_get = (\<lambda>_. Inl ''not asked''),
      be_send = (\<lambda>_ body.
        case fst (messages ref_libs ref_json ref_mpp ref_prover ref_app ref_paid_headers body []) of
          Inl _ \<Rightarrow> None | Inr reply \<Rightarrow> Some (as_response ref_json reply))\<rparr>"

lemma ref_buyer_request: "buyer_request ref_json ref_buyer = ref_request"
  by (simp add: buyer_request_def ref_buyer_def ref_request_def) (simp add: ref_json_def)

lemma ref_good_buyer:
  "good_buyer ref_libs ref_json ref_mpp ref_config ref_app ref_prover ref_paid_headers ref_buyer"
  by (simp add: good_buyer_def buyer_ready_def pinned_key_def var_or_def ref_buyer_def ref_config_def)

section \<open>The world after the purchase\<close>

definition ref_bought :: purchase where
  "ref_bought =
     \<lparr>bought_receipt = make_bundle ref_signed (sha256_hex ref_libs ''1'') ''0xabc'',
      bought_materials = [(''leg0'', ref_answer ''Yes'')], bought_body = ''1'',
      bought_request = sha256_hex ref_libs ref_request, bought_payment = ''0xabc''\<rparr>"

definition ref_world :: world where
  "ref_world =
     \<lparr>sessions = [ref_session], issued = [attestation_to_json ref_libs ref_signed],
      purchases = [ref_bought]\<rparr>"

lemma ref_signed_claim:
  "claim ref_signed = ref_witnessed" "host ref_witnessed = ''api.anthropic.com''"
  "request_digest ref_witnessed = sha256_hex ref_libs ref_request"
  "response_digest ref_witnessed = sha256_hex ref_libs (ref_answer ''Yes'')"
  "proof_pubkey (leg_proof_of ref_signed) = public_key_hex ref_libs ref_notary"
  by (simp_all add: ref_signed_def ref_witnessed_def ref_decoded)

lemma ref_buyer_verifies: "buyer_verifies ref_libs ref_json ref_config ref_bought"
  using honest_bundle_verified [OF ref_signed_under, of "''api.anthropic.com''"
      "public_key_hex ref_libs ref_notary" "sha256_hex ref_libs ref_request" "ref_answer ''Yes''"
      ref_json "''0xabc''"]
  by (simp add: buyer_verifies_def ref_bought_def ref_config_def ref_verdict ref_signed_claim)

lemma ref_protocol_laws: "protocol_laws ref_libs ref_config"
  by (simp add: protocol_laws_def ref_config_def ref_key_length)

lemma ref_sellable:
  "sellable ref_libs pk [attestation_to_json ref_libs ref_signed] (bought_receipt ref_bought)"
proof -
  have "attestation_from_json ref_libs (attestation_to_json ref_libs ref_signed) = Some ref_signed"
    using ref_laws(7) unfolding attestation_json_law_def by blast
  then show ?thesis
    by (auto simp: sellable_def ref_bought_def make_bundle_def)
qed

lemma ref_reachable: "reachable ref_libs ref_json ref_config ref_world"
proof -
  obtain res tr where run: "notarize_session ref_libs ref_config ref_session [] = (res, tr)"
    by (cases "notarize_session ref_libs ref_config ref_session []")
  have written: "written tr = [attestation_to_json ref_libs ref_signed]"
    using ref_session_written by (simp add: run)
  let ?w = "\<lparr>sessions = [ref_session], issued = [attestation_to_json ref_libs ref_signed], purchases = []\<rparr>"
  have "world_step ref_libs ref_json ref_config init_world ?w"
    using world_step.notarize [OF run, of ref_json init_world] by (simp add: written init_world_def)
  then have "reachable ref_libs ref_json ref_config ?w"
    by (blast intro: reachable.start reachable.step)
  moreover have "world_step ref_libs ref_json ref_config ?w (?w\<lparr>purchases := [ref_bought]\<rparr>)"
    using world_step.purchase [of ref_libs ref_config ?w ref_bought ref_json]
      ref_sellable ref_buyer_verifies by simp
  ultimately show ?thesis
    unfolding ref_world_def by (auto intro: reachable.step)
qed

end
