(* ===== verification/Limits.thy ===== *)
theory Limits
  imports Delivery
begin

text \<open>
  What acceptance does not tell: receipts that pass every check of \<open>verify\<close> and of the buyer
  although the verdict is not the transform of the notarized answer, the graph is cyclic, or
  the payment is another one. The verifier pins the manifest's id and hosts only, so the
  shape of the graph and the transforms in it are the seller's choice.
\<close>

section \<open>Payments\<close>

lemma accepts_rebind:
  "accepts L (r\<lparr>payment_reference := Some p\<rparr>) (e\<lparr>exp_payment_reference := p\<rparr>) \<longleftrightarrow>
   accepts L (r\<lparr>payment_reference := Some q\<rparr>) (e\<lparr>exp_payment_reference := q\<rparr>)"
proof -
  have "node_accepted L (r\<lparr>payment_reference := Some x\<rparr>) (e\<lparr>exp_payment_reference := x\<rparr>) n
      \<longleftrightarrow> node_accepted L r e n" for x n
    by (cases "node_proof_of n") (simp_all add: node_accepted_def)
  then show ?thesis by (simp add: accepts_def)
qed

section \<open>Graphs of the seller's choice\<close>

text \<open>
  The sold node with an extra first input: the transform only reads its first input, so the
  leg, which the request check wants among the ancestors, does not matter any more.
\<close>

definition decoy_receipt :: "libs \<Rightarrow> leg_attestation \<Rightarrow> string \<Rightarrow> harness_receipt" where
  "decoy_receipt L leg p =
     \<lparr>manifest_id = MANIFEST_ID,
      nodes =
        [\<lparr>node_id = ''leg0'', inputs = [], output_digest = response_digest (claim leg),
          node_proof_of = Leg leg\<rparr>,
         \<lparr>node_id = ''decoy'', inputs = [], output_digest = sha256_hex L ''0'',
          node_proof_of = Interior (Recompute VERDICT_FN_ID)\<rparr>,
         \<lparr>node_id = ''verdict'', inputs = [''decoy'', ''leg0''], output_digest = sha256_hex L ''0'',
          node_proof_of = Interior (Recompute VERDICT_FN_ID)\<rparr>],
      output_node = ''verdict'',
      payment_reference = Some p\<rparr>"

text \<open>The sold node as an input of itself.\<close>

definition cyclic_receipt :: "libs \<Rightarrow> leg_attestation \<Rightarrow> string \<Rightarrow> harness_receipt" where
  "cyclic_receipt L leg p =
     \<lparr>manifest_id = MANIFEST_ID,
      nodes =
        [\<lparr>node_id = ''leg0'', inputs = [], output_digest = response_digest (claim leg),
          node_proof_of = Leg leg\<rparr>,
         \<lparr>node_id = ''verdict'', inputs = [''verdict'', ''leg0''], output_digest = sha256_hex L ''0'',
          node_proof_of = Interior (Recompute VERDICT_FN_ID)\<rparr>],
      output_node = ''verdict'',
      payment_reference = Some p\<rparr>"

lemma decoy_receipt_nodes:
  "nodes (decoy_receipt L leg p) =
     [\<lparr>node_id = ''leg0'', inputs = [], output_digest = response_digest (claim leg),
       node_proof_of = Leg leg\<rparr>,
      \<lparr>node_id = ''decoy'', inputs = [], output_digest = sha256_hex L ''0'',
       node_proof_of = Interior (Recompute VERDICT_FN_ID)\<rparr>,
      \<lparr>node_id = ''verdict'', inputs = [''decoy'', ''leg0''], output_digest = sha256_hex L ''0'',
       node_proof_of = Interior (Recompute VERDICT_FN_ID)\<rparr>]"
  "manifest_id (decoy_receipt L leg p) = MANIFEST_ID"
  "output_node (decoy_receipt L leg p) = ''verdict''"
  "payment_reference (decoy_receipt L leg p) = Some p"
  by (simp_all add: decoy_receipt_def)

lemma cyclic_receipt_nodes:
  "nodes (cyclic_receipt L leg p) =
     [\<lparr>node_id = ''leg0'', inputs = [], output_digest = response_digest (claim leg),
       node_proof_of = Leg leg\<rparr>,
      \<lparr>node_id = ''verdict'', inputs = [''verdict'', ''leg0''], output_digest = sha256_hex L ''0'',
       node_proof_of = Interior (Recompute VERDICT_FN_ID)\<rparr>]"
  "manifest_id (cyclic_receipt L leg p) = MANIFEST_ID"
  "output_node (cyclic_receipt L leg p) = ''verdict''"
  "payment_reference (cyclic_receipt L leg p) = Some p"
  by (simp_all add: cyclic_receipt_def)

lemma decoy_receipt_verified:
  assumes "signed_under L pk leg" and "host (claim leg) = h" and "proof_pubkey (leg_proof_of leg) = k"
    and "request_digest (claim leg) = q" and "response_digest (claim leg) = sha256_hex L answer"
    and "starts_with_yes J [] = ''0''" and "starts_with_yes J ''0'' = ''0''"
  shows "\<exists>cs. judge_bundle L J k h q p ''0'' (decoy_receipt L leg p)
           [(''decoy'', ''0''), (''leg0'', answer)] = Verified cs"
proof -
  let ?r = "decoy_receipt L leg p" and ?m = "[(''decoy'', ''0''), (''leg0'', answer)]"
  have committed: "hm_get (committed_digests ?r) =
      [''leg0'' \<mapsto> sha256_hex L answer, ''decoy'' \<mapsto> sha256_hex L ''0'', ''verdict'' \<mapsto> sha256_hex L ''0'']"
    using assms by (simp add: committed_digests_def hm_get_collect decoy_receipt_def fun_eq_iff)
  have trusted: "hm_get (trusted_materials L ?r ?m) = [''decoy'' \<mapsto> ''0'', ''leg0'' \<mapsto> answer]"
    by (simp add: trusted_materials_def material_ok_def committed hm_get_collect fun_eq_iff)
  have rec: "recompute_all L J ?r (trusted_materials L ?r ?m) =
      [(''decoy'', sha256_hex L ''0''), (''verdict'', sha256_hex L ''0'')]"
    using assms(6,7)
    by (simp add: recompute_all_def decoy_receipt_def recompute_node_def List.map_filter_simps
        trusted [unfolded decoy_receipt_def] recompute_def)
  have get: "hm_get (node_map (nodes ?r)) ''verdict'' = Some (nodes ?r ! 2)"
      "hm_get (node_map (nodes ?r)) ''decoy'' = Some (nodes ?r ! 1)"
      "hm_get (node_map (nodes ?r)) ''leg0'' = Some (nodes ?r ! 0)"
    by (simp_all add: node_map_get decoy_receipt_def)
  have "leg_ancestors (node_map (nodes ?r)) ''verdict'' = [leg]"
    unfolding leg_ancestors_def using get by (simp add: decoy_receipt_def)
  then have legs: "ancestor_legs (node_map (nodes ?r)) ''verdict'' = {leg}"
    using set_leg_ancestors [of "node_map (nodes ?r)" "''verdict''"] by simp
  have out: "output_node ?r = ''verdict''" by (simp add: decoy_receipt_nodes)
  have "node_accepted L ?r (buyer_expectation L J k h q p ''0'' ?r ?m) n" if "n \<in> set (nodes ?r)" for n
  proof -
    have "\<exists>pk. signed_under L pk leg" using assms(1) by blast
    then show ?thesis
      using that assms(2-5) by (auto simp: node_accepted_def rec decoy_receipt_nodes)
  qed
  then have "accepts L ?r (buyer_expectation L J k h q p ''0'' ?r ?m)"
    unfolding accepts_def out legs get
    using assms(4) by (auto simp: decoy_receipt_nodes)
  then show ?thesis
    unfolding judge_bundle_verified by (simp add: material_ok_def committed)
qed

lemma cyclic_receipt_verified:
  assumes "signed_under L pk leg" and "host (claim leg) = h" and "proof_pubkey (leg_proof_of leg) = k"
    and "request_digest (claim leg) = q" and "response_digest (claim leg) = sha256_hex L answer"
    and "starts_with_yes J ''0'' = ''0''"
  shows "\<exists>cs. judge_bundle L J k h q p ''0'' (cyclic_receipt L leg p)
           [(''leg0'', answer), (''verdict'', ''0'')] = Verified cs"
proof -
  let ?r = "cyclic_receipt L leg p" and ?m = "[(''leg0'', answer), (''verdict'', ''0'')]"
  have committed: "hm_get (committed_digests ?r) =
      [''leg0'' \<mapsto> sha256_hex L answer, ''verdict'' \<mapsto> sha256_hex L ''0'']"
    using assms by (simp add: committed_digests_def hm_get_collect cyclic_receipt_def fun_eq_iff)
  have trusted: "hm_get (trusted_materials L ?r ?m) = [''leg0'' \<mapsto> answer, ''verdict'' \<mapsto> ''0'']"
    by (simp add: trusted_materials_def material_ok_def committed hm_get_collect fun_eq_iff)
  have rec: "recompute_all L J ?r (trusted_materials L ?r ?m) = [(''verdict'', sha256_hex L ''0'')]"
    using assms(6)
    by (simp add: recompute_all_def cyclic_receipt_def recompute_node_def List.map_filter_simps
        trusted [unfolded cyclic_receipt_def] recompute_def)
  have get: "hm_get (node_map (nodes ?r)) ''verdict'' = Some (nodes ?r ! 1)"
      "hm_get (node_map (nodes ?r)) ''leg0'' = Some (nodes ?r ! 0)"
    by (simp_all add: node_map_get cyclic_receipt_def)
  have "leg_ancestors (node_map (nodes ?r)) ''verdict'' = [leg]"
    unfolding leg_ancestors_def using get by (simp add: cyclic_receipt_def)
  then have legs: "ancestor_legs (node_map (nodes ?r)) ''verdict'' = {leg}"
    using set_leg_ancestors [of "node_map (nodes ?r)" "''verdict''"] by simp
  have out: "output_node ?r = ''verdict''" by (simp add: cyclic_receipt_nodes)
  have "node_accepted L ?r (buyer_expectation L J k h q p ''0'' ?r ?m) n" if "n \<in> set (nodes ?r)" for n
  proof -
    have "\<exists>pk. signed_under L pk leg" using assms(1) by blast
    then show ?thesis
      using that assms(2-5) by (auto simp: node_accepted_def rec cyclic_receipt_nodes)
  qed
  then have "accepts L ?r (buyer_expectation L J k h q p ''0'' ?r ?m)"
    unfolding accepts_def out legs get
    using assms(4) by (auto simp: cyclic_receipt_nodes)
  then show ?thesis
    unfolding judge_bundle_verified by (simp add: material_ok_def committed)
qed

lemma cyclic_receipt_edge:
  "(''verdict'', ''verdict'') \<in> depends (node_map (nodes (cyclic_receipt L leg p)))"
  by (simp add: depends_def node_map_get cyclic_receipt_def)

text \<open>
  The id of the sold node used twice: the recomputation of the first node of that name also
  passes for the last one, which is the one the other checks look at, so the transform named
  there need not exist.
\<close>

definition shadow_receipt :: "libs \<Rightarrow> leg_attestation \<Rightarrow> bytes \<Rightarrow> string \<Rightarrow> string \<Rightarrow> harness_receipt" where
  "shadow_receipt L leg verdict f p =
     \<lparr>manifest_id = MANIFEST_ID,
      nodes =
        [\<lparr>node_id = ''leg0'', inputs = [], output_digest = response_digest (claim leg),
          node_proof_of = Leg leg\<rparr>,
         \<lparr>node_id = ''verdict'', inputs = [''leg0''], output_digest = sha256_hex L verdict,
          node_proof_of = Interior (Recompute VERDICT_FN_ID)\<rparr>,
         \<lparr>node_id = ''verdict'', inputs = [''leg0''], output_digest = sha256_hex L verdict,
          node_proof_of = Interior (Recompute f)\<rparr>],
      output_node = ''verdict'',
      payment_reference = Some p\<rparr>"

lemma shadow_receipt_nodes:
  "nodes (shadow_receipt L leg v f p) =
     [\<lparr>node_id = ''leg0'', inputs = [], output_digest = response_digest (claim leg),
       node_proof_of = Leg leg\<rparr>,
      \<lparr>node_id = ''verdict'', inputs = [''leg0''], output_digest = sha256_hex L v,
       node_proof_of = Interior (Recompute VERDICT_FN_ID)\<rparr>,
      \<lparr>node_id = ''verdict'', inputs = [''leg0''], output_digest = sha256_hex L v,
       node_proof_of = Interior (Recompute f)\<rparr>]"
  "manifest_id (shadow_receipt L leg v f p) = MANIFEST_ID"
  "output_node (shadow_receipt L leg v f p) = ''verdict''"
  "payment_reference (shadow_receipt L leg v f p) = Some p"
  by (simp_all add: shadow_receipt_def)

lemma shadow_receipt_verified:
  assumes "signed_under L pk leg" and "host (claim leg) = h" and "proof_pubkey (leg_proof_of leg) = k"
    and "request_digest (claim leg) = q" and "response_digest (claim leg) = sha256_hex L answer"
  shows "\<exists>cs. judge_bundle L J k h q p (starts_with_yes J answer)
           (shadow_receipt L leg (starts_with_yes J answer) f p) [(''leg0'', answer)] = Verified cs"
proof -
  let ?v = "starts_with_yes J answer"
  let ?r = "shadow_receipt L leg ?v f p" and ?m = "[(''leg0'', answer)]"
  have committed: "hm_get (committed_digests ?r) =
      [''leg0'' \<mapsto> sha256_hex L answer, ''verdict'' \<mapsto> sha256_hex L ?v]"
    using assms by (simp add: committed_digests_def hm_get_collect shadow_receipt_nodes fun_eq_iff)
  have trusted: "hm_get (trusted_materials L ?r ?m) = [''leg0'' \<mapsto> answer]"
    by (simp add: trusted_materials_def material_ok_def committed hm_get_collect fun_eq_iff)
  have rec: "map_of (recompute_all L J ?r (trusted_materials L ?r ?m)) ''verdict'' = Some (sha256_hex L ?v)"
    by (simp add: recompute_all_def shadow_receipt_nodes recompute_node_def List.map_filter_simps
        trusted recompute_def [of J VERDICT_FN_ID])
  have get: "hm_get (node_map (nodes ?r)) ''verdict'' = Some (nodes ?r ! 2)"
      "hm_get (node_map (nodes ?r)) ''leg0'' = Some (nodes ?r ! 0)"
    by (simp_all add: node_map_get shadow_receipt_nodes)
  have "leg_ancestors (node_map (nodes ?r)) ''verdict'' = [leg]"
    unfolding leg_ancestors_def using get by (simp add: shadow_receipt_nodes)
  then have legs: "ancestor_legs (node_map (nodes ?r)) ''verdict'' = {leg}"
    using set_leg_ancestors [of "node_map (nodes ?r)" "''verdict''"] by simp
  have out: "output_node ?r = ''verdict''" by (simp add: shadow_receipt_nodes)
  have "node_accepted L ?r (buyer_expectation L J k h q p ?v ?r ?m) n" if "n \<in> set (nodes ?r)" for n
  proof -
    have "\<exists>pk. signed_under L pk leg" using assms(1) by blast
    then show ?thesis
      using that assms(2-5) by (auto simp: node_accepted_def rec shadow_receipt_nodes)
  qed
  then have "accepts L ?r (buyer_expectation L J k h q p ?v ?r ?m)"
    unfolding accepts_def out legs get
    using assms(4) by (auto simp: shadow_receipt_nodes)
  then show ?thesis
    unfolding judge_bundle_verified by (simp add: material_ok_def committed)
qed

section \<open>A key nobody pinned\<close>

text \<open>
  A buyer that takes the notary key from the reseller accepts any answer from a seller that
  notarizes itself.
\<close>

lemma self_notarized_verified:
  assumes "notary_ready (L, n)"
  shows "\<exists>leg cs. host (claim leg) = h \<and>
     judge_bundle L J (public_key_hex L n) h q p (starts_with_yes J answer)
       (make_bundle leg (sha256_hex L (starts_with_yes J answer)) p) [(''leg0'', answer)] = Verified cs"
proof -
  let ?c = "\<lparr>host = h, http_method = [], path = [], request_digest = q,
             response_digest = sha256_hex L answer, response_status = 0, timestamp = []\<rparr>"
  have "signed_under L (sk_public L (signing_key n)) (attest L n ?c)"
    using assms by (intro signed_under_attest) (simp_all add: notary_ready_def)
  from honest_bundle_verified [OF this, of h "public_key_hex L n" q answer J p]
  have "\<exists>cs. judge_bundle L J (public_key_hex L n) h q p (starts_with_yes J answer)
       (make_bundle (attest L n ?c) (sha256_hex L (starts_with_yes J answer)) p) [(''leg0'', answer)]
     = Verified cs"
    by simp
  then show ?thesis
    by (intro exI [of _ "attest L n ?c"]) simp
qed

section \<open>Fields of a claim\<close>

text \<open>Method, path, status and time are signed, and looked at by no check.\<close>

lemma accepts_bundle_fields:
  assumes "notary_ready (L, n)"
  shows "accepts L (make_bundle (attest L n c) d p) e \<longleftrightarrow>
     accepts L (make_bundle (attest L n (c\<lparr>http_method := m, path := q, response_status := s,
                                           timestamp := t\<rparr>)) d p) e"
proof -
  have "\<exists>pk. signed_under L pk (attest L n c')" for c'
    using signed_under_attest assms unfolding notary_ready_def by auto
  then show ?thesis by (simp add: accepts_bundle)
qed

end
