(* ===== verification/Buyer_Report.thy ===== *)
theory Buyer_Report
  imports Buyer Rust_Text
begin

text \<open>
  What \<open>examples/buyer/src/main.rs\<close> prints: where the key is from, the question, the status, the
  delivered answer, one line per check, and the verdict. Each list element is the argument of one
  \<open>println!\<close>; \<open>console\<close> is the text that reaches the terminal, and \<open>terminal_lines\<close> are its
  lines. The body of a response, the payment reference and the names of checks contain what the
  seller chose, and are printed as they are; \<open>clean_response\<close> says that they bring no line end.
\<close>

definition newline :: string where
  "newline = [CHR 0x0A]"

definition console :: "string list \<Rightarrow> string" where
  "console ls = concat (map (\<lambda>l. l @ newline) ls)"

definition delivered_report :: "'v json_lib \<Rightarrow> bytes \<Rightarrow> bytes btree_map \<Rightarrow> string list" where
  "delivered_report J body materials =
     (''verdict      : '' @ utf8_lossy body)
     # (case bt_get materials ''leg0'' of
          None \<Rightarrow> []
        | Some answer \<Rightarrow>
            (case jparse J answer of
               None \<Rightarrow> []
             | Some v \<Rightarrow>
                 [''upstream ans : '' @ jrender J (jkey J (jpos J (jkey J v ''content'') 0) ''text'')
                  @ newline]))"

definition check_line :: "check \<Rightarrow> string" where
  "check_line c = ''  '' @ (if passed c then ''[PASS]'' else ''[FAIL]'') @ '' '' @ check_name c"

definition verified_line :: "string \<Rightarrow> string \<Rightarrow> string" where
  "verified_line expected_upstream payment_ref =
     [CHR 0xE2, CHR 0x9C, CHR 0x85] @ '' VERIFIED '' @ em_dash @ '' verdict provably computed by `''
     @ VERDICT_FN_ID @ ''` over the notarized '' @ expected_upstream @ '' answer, bound to payment ''
     @ payment_ref @ ''.''"

definition rejected_line :: string where
  "rejected_line =
     [CHR 0xE2, CHR 0x9D, CHR 0x8C] @ '' REJECTED '' @ em_dash
     @ '' proof failed. The verdict was not provably computed from the notarized upstream answer ''
     @ ''(model substitution / tampering). Do not trust this output; dispute the payment or slash ''
     @ ''the reseller'' @ [CHR 0x27] @ ''s bond.''"

definition proof_report :: "string \<Rightarrow> string \<Rightarrow> check list \<Rightarrow> string list" where
  "proof_report expected_upstream payment_ref all =
     [newline @ ''proof verification:''] @ map check_line all
     @ [newline @ (if \<forall>c \<in> set all. passed c then verified_line expected_upstream payment_ref
                   else rejected_line)]"

text \<open>
  All lines a run prints. A panic ends them: its message goes to the error output. The text of a
  status is what the HTTP library shows of it.
\<close>

definition response_output ::
  "libs \<Rightarrow> 'v json_lib \<Rightarrow> ('c, 'ch, 'r) mpp_lib \<Rightarrow> (http_response \<Rightarrow> string) \<Rightarrow> string \<Rightarrow> string \<Rightarrow> string
     \<Rightarrow> http_response \<Rightarrow> string list" where
  "response_output L J M status_text pinned_pubkey expected_upstream request_dig resp =
     (let receipt_hdr = resp_header M resp ''payment-receipt'';
          bundle_hdr = resp_header M resp PROVABLY_RECEIPT_HEADER;
          materials_hdr = resp_header M resp PROVABLY_MATERIALS_HEADER
      in case resp_body resp of
           None \<Rightarrow> []
         | Some body \<Rightarrow>
             (''status: '' @ status_text resp @ newline)
             # (if \<not> resp_success resp then [''response: '' @ utf8_lossy body]
                else (case map_option (materials_from_header L) materials_hdr of
                  Some (Inr materials) \<Rightarrow>
                    delivered_report J body materials
                    @ (case Option.bind receipt_hdr (parse_receipt M) of
                         None \<Rightarrow> []
                       | Some receipt \<Rightarrow>
                           (''payment tx   : '' @ reference M receipt)
                           # (case map_option (read_receipt_header L) bundle_hdr of
                                Some (Inr r) \<Rightarrow>
                                  proof_report expected_upstream (reference M receipt)
                                    (material_checks L r materials
                                     @ verify L r (buyer_expectation L J pinned_pubkey expected_upstream
                                         request_dig (reference M receipt) body r materials))
                              | _ \<Rightarrow> []))
                | _ \<Rightarrow> [])))"

definition key_line :: "'v buyer_env \<Rightarrow> string" where
  "key_line E =
     (case be_var E ''NOTARY_PUBKEY'' of
        Some k \<Rightarrow> ''notary key: pinned from NOTARY_PUBKEY''
      | None \<Rightarrow> ''notary key: fetched from reseller (demo only '' @ em_dash @ '' pin out-of-band in prod)'')"

definition buyer_output ::
  "libs \<Rightarrow> 'v json_lib \<Rightarrow> ('c, 'ch, 'r) mpp_lib \<Rightarrow> (http_response \<Rightarrow> string) \<Rightarrow> 'v buyer_env \<Rightarrow> string list" where
  "buyer_output L J M status_text E =
     (let rpc_url = var_or E ''RPC_URL'' ''https://rpc.moderato.tempo.xyz'';
          reseller = var_or E ''RESELLER_URL'' ''http://localhost:3000'';
          expected_upstream = var_or E ''EXPECTED_UPSTREAM'' ''api.anthropic.com'';
          prompt = (case be_arg E of Some p \<Rightarrow> p
                    | None \<Rightarrow> ''Is the sky blue? Begin your answer with Yes or No.'')
      in if \<not> be_url_ok E rpc_url \<or> \<not> be_fund E \<or> \<not> be_provider E then []
         else (case pinned_key J E reseller of
             Inl m \<Rightarrow> []
           | Inr pinned_pubkey \<Rightarrow>
               key_line E # (newline @ ''paying reseller for: '' @ quoted prompt)
               # (let request_body = jrender J (request_payload J prompt);
                      request_dig = sha256_hex L request_body
                  in case be_send E (reseller @ ''/v1/messages'') request_body of
                       None \<Rightarrow> []
                     | Some resp \<Rightarrow>
                         response_output L J M status_text pinned_pubkey expected_upstream request_dig resp)))"

text \<open>The checks an outcome was decided on.\<close>

definition decided_on :: "buyer_outcome \<Rightarrow> check list \<Rightarrow> bool" where
  "decided_on out cs \<longleftrightarrow> out = Verified cs \<or> out = Rejected cs"

lemma judge_bundle_decided:
  "decided_on (judge_bundle L J k h q p body r m)
     (material_checks L r m @ verify L r (buyer_expectation L J k h q p body r m))"
  by (simp add: judge_bundle_def decided_on_def Let_def)

lemma decided_unique: "decided_on out cs \<Longrightarrow> decided_on out cs' \<Longrightarrow> cs = cs'"
  by (auto simp: decided_on_def)

lemma decided_verified:
  "judge_bundle L J k h q p body r m = Verified cs \<longleftrightarrow>
     decided_on (judge_bundle L J k h q p body r m) cs \<and> (\<forall>c \<in> set cs. passed c)"
  by (auto simp: judge_bundle_def decided_on_def Let_def)

lemma lines_differ: "newline @ verified_line h p \<noteq> newline @ rejected_line"
  by (simp add: verified_line_def rejected_line_def)

lemma proof_report_parts:
  "hd (proof_report h p cs) = newline @ ''proof verification:''"
  "butlast (tl (proof_report h p cs)) = map check_line cs"
  "last (proof_report h p cs) =
     newline @ (if \<forall>c \<in> set cs. passed c then verified_line h p else rejected_line)"
  by (simp_all add: proof_report_def butlast_append)

text \<open>The mark at the head of a line is that of its check.\<close>

lemma check_line_mark:
  "check_line c = ''  [PASS] '' @ check_name c \<longleftrightarrow> passed c"
  "check_line c = ''  [FAIL] '' @ check_name c \<longleftrightarrow> \<not> passed c"
  by (simp_all add: check_line_def)

section \<open>The whole run\<close>

text \<open>A decided response has all its parts, and is decided on its bundle.\<close>

lemma decided_responseE:
  assumes "decided_on (judge_response L J M k h q resp) cs"
  obtains body mh materials receipt bh r where
    "resp_body resp = Some body" "resp_success resp"
    "resp_header M resp PROVABLY_MATERIALS_HEADER = Some mh" "materials_from_header L mh = Inr materials"
    "Option.bind (resp_header M resp ''payment-receipt'') (parse_receipt M) = Some receipt"
    "resp_header M resp PROVABLY_RECEIPT_HEADER = Some bh" "read_receipt_header L bh = Inr r"
    "judge_response L J M k h q resp = judge_bundle L J k h q (reference M receipt) body r materials"
  using assms unfolding judge_response_def decided_on_def Let_def
  by (auto split: option.splits if_splits sum.splits)

lemma response_decided:
  assumes "decided_on (judge_response L J M k h q resp) cs"
  shows "\<exists>status body m p. response_output L J M st k h q resp =
    (''status: '' @ status) # delivered_report J body m @ (''payment tx   : '' @ p) # proof_report h p cs"
  using assms
proof (rule decided_responseE)
  fix body mh materials receipt bh r
  assume parts: "resp_body resp = Some body" "resp_success resp"
    "resp_header M resp PROVABLY_MATERIALS_HEADER = Some mh" "materials_from_header L mh = Inr materials"
    "Option.bind (resp_header M resp ''payment-receipt'') (parse_receipt M) = Some receipt"
    "resp_header M resp PROVABLY_RECEIPT_HEADER = Some bh" "read_receipt_header L bh = Inr r"
    and judged: "judge_response L J M k h q resp = judge_bundle L J k h q (reference M receipt) body r materials"
  have "cs = material_checks L r materials
      @ verify L r (buyer_expectation L J k h q (reference M receipt) body r materials)"
    by (rule decided_unique [OF assms [unfolded judged] judge_bundle_decided])
  then have "response_output L J M st k h q resp =
      (''status: '' @ st resp @ newline) # delivered_report J body materials
         @ (''payment tx   : '' @ reference M receipt) # proof_report h (reference M receipt) cs"
    using parts by (simp add: response_output_def)
  then show ?thesis by blast
qed

lemma response_verified:
  assumes "decided_on (judge_response L J M k h q resp) cs"
  shows "judge_response L J M k h q resp = Verified cs \<longleftrightarrow> (\<forall>c \<in> set cs. passed c)"
proof -
  obtain p body r m where judged: "judge_response L J M k h q resp = judge_bundle L J k h q p body r m"
    by (rule decided_responseE [OF assms])
  show ?thesis using assms unfolding judged decided_verified by simp
qed

text \<open>A run that is decided got a response, and prints two lines before it.\<close>

lemma buyer_run_cases:
  obtains
    (answered) pk q resp out where
      "buyer_main L J M E = judge_response L J M pk (var_or E ''EXPECTED_UPSTREAM'' ''api.anthropic.com'') q resp"
      "buyer_output L J M st E = key_line E # (newline @ ''paying reseller for: '' @ out)
         # response_output L J M st pk (var_or E ''EXPECTED_UPSTREAM'' ''api.anthropic.com'') q resp"
  | (unanswered) m out where "buyer_main L J M E = BuyerPanic m"
      "buyer_output L J M st E \<in> {[], [key_line E, newline @ ''paying reseller for: '' @ out]}"
proof -
  show thesis
  proof (cases "be_url_ok E (var_or E ''RPC_URL'' ''https://rpc.moderato.tempo.xyz'') \<and> be_fund E \<and> be_provider E")
    case False
    then have "\<exists>m. buyer_main L J M E = BuyerPanic m" and "buyer_output L J M st E = []"
      by (auto simp: buyer_main_def buyer_output_def Let_def)
    then show thesis using unanswered by auto
  next
    case ready: True
    let ?r = "var_or E ''RESELLER_URL'' ''http://localhost:3000''"
    let ?q = "jrender J (request_payload J (case be_arg E of Some p \<Rightarrow> p
                    | None \<Rightarrow> ''Is the sky blue? Begin your answer with Yes or No.''))"
    show thesis
    proof (cases "pinned_key J E ?r")
      case (Inl m)
      then show thesis
        using ready by (intro unanswered [of m "[]"]) (simp_all add: buyer_main_def buyer_output_def Let_def)
    next
      case pinned: (Inr pk)
      show thesis
      proof (cases "be_send E (?r @ ''/v1/messages'') ?q")
        case None
        show thesis
          by (rule unanswered)
            (use ready pinned None in \<open>simp_all add: buyer_main_def buyer_output_def Let_def\<close>)
      next
        case (Some resp)
        show thesis
          by (rule answered)
            (use ready pinned Some in \<open>simp_all add: buyer_main_def buyer_output_def Let_def\<close>)
      qed
    qed
  qed
qed

section \<open>The lines on the terminal\<close>

definition terminal_lines :: "string list \<Rightarrow> string list" where
  "terminal_lines ls = split_on (\<lambda>c. c = CHR 0x0A) (console ls)"

text \<open>
  Text without control characters, and an argument that adds no line end of its own: such a
  text, with at most one line end before or after it, as the format strings put them.
\<close>

definition clean :: "string \<Rightarrow> bool" where
  "clean s \<longleftrightarrow> (\<forall>c \<in> set s. 32 \<le> byte_val c)"

lemma clean_simps [simp]:
  "clean []" "clean (c # s) \<longleftrightarrow> 32 \<le> byte_val c \<and> clean s" "clean (s @ t) \<longleftrightarrow> clean s \<and> clean t"
  by (auto simp: clean_def)

definition unbroken :: "string \<Rightarrow> bool" where
  "unbroken l \<longleftrightarrow> (\<exists>x. clean x \<and> (l = x \<or> l = newline @ x \<or> l = x @ newline))"

lemma unbroken_clean:
  "clean x \<Longrightarrow> unbroken x" "clean x \<Longrightarrow> unbroken (newline @ x)" "clean x \<Longrightarrow> unbroken (x @ newline)"
  by (auto simp: unbroken_def)

lemma console_Cons: "console (l # ls) = l @ CHR 0x0A # console ls"
  by (simp add: console_def newline_def)

lemma terminal_lines_args: "terminal_lines ls = concat (map (split_on (\<lambda>c. c = CHR 0x0A)) ls) @ [[]]"
  by (induction ls) (simp_all add: terminal_lines_def console_Cons split_on_append_sep, simp add: console_def)

lemma unbroken_pieces:
  assumes "unbroken l" and "v \<in> set (split_on (\<lambda>c. c = CHR 0x0A) l)" and "v \<noteq> []"
  shows "l = v \<or> l = newline @ v \<or> l = v @ newline"
proof -
  obtain x where x: "\<forall>c \<in> set x. 32 \<le> byte_val c" "l = x \<or> l = newline @ x \<or> l = x @ newline"
    using assms(1) unfolding unbroken_def clean_def by blast
  have "split_on (\<lambda>c. c = CHR 0x0A) x = [x]"
    using x(1) by (intro split_on_none) auto
  moreover have "split_on (\<lambda>c. c = CHR 0x0A) (x @ newline) = [x, []]"
    using x(1) unfolding newline_def by (subst split_on_append) auto
  ultimately show ?thesis
    using x(2) assms(2,3) by (auto simp: newline_def)
qed

text \<open>Only the report of a verified receipt has the confirmation for an argument.\<close>

definition confirms :: "string \<Rightarrow> string \<Rightarrow> bool" where
  "confirms h l \<longleftrightarrow> (\<exists>p. l = verified_line h p \<or> l = newline @ verified_line h p \<or> l = verified_line h p @ newline)"

lemma confirms_not:
  "\<not> confirms h (CHR ''s'' # x)" "\<not> confirms h (CHR ''r'' # x)" "\<not> confirms h (CHR ''v'' # x)"
  "\<not> confirms h (CHR ''u'' # x)" "\<not> confirms h (CHR ''p'' # x)" "\<not> confirms h (CHR ''n'' # x)"
  "\<not> confirms h (CHR '' '' # x)" "\<not> confirms h (newline @ CHR ''p'' # x)" "\<not> confirms h (newline @ rejected_line)"
  by (simp_all add: confirms_def newline_def verified_line_def rejected_line_def)

lemma report_confirms:
  "l \<in> set (proof_report h' p cs) \<Longrightarrow> confirms h l \<Longrightarrow> \<forall>c \<in> set cs. passed c"
  using confirms_not(9) by (auto simp: proof_report_def check_line_def confirms_not split: if_splits)

lemma delivered_confirms: "l \<in> set (delivered_report J body m) \<Longrightarrow> \<not> confirms h l"
  by (auto simp: delivered_report_def confirms_not split: option.splits)

lemma response_confirms:
  assumes "l \<in> set (response_output L J M st k h q resp)" and "confirms h l"
  shows "\<exists>cs. judge_response L J M k h q resp = Verified cs"
proof (cases "\<exists>cs. decided_on (judge_response L J M k h q resp) cs")
  case True
  then obtain cs where cs: "decided_on (judge_response L J M k h q resp) cs" by blast
  obtain status body m p where "response_output L J M st k h q resp =
      (''status: '' @ status) # delivered_report J body m @ (''payment tx   : '' @ p) # proof_report h p cs"
    using response_decided [OF cs] by blast
  then have "l \<in> set (proof_report h p cs)"
    using assms delivered_confirms [of l J body m h] by (auto simp: confirms_not)
  from report_confirms [OF this assms(2)] show ?thesis
    using response_verified [OF cs] cs unfolding decided_on_def by auto
next
  case False
  have "decided_on (judge_bundle L J k h q p body r m)
      (material_checks L r m @ verify L r (buyer_expectation L J k h q p body r m))" for p body r m
    by (rule judge_bundle_decided)
  then show ?thesis
    using False assms delivered_confirms [of l J]
    unfolding judge_response_def response_output_def Let_def
    by (fastforce simp: confirms_not split: option.splits if_splits sum.splits)
qed

lemma response_confirmed:
  assumes "judge_response L J M k h q resp = Verified cs"
  shows "\<exists>l \<in> set (response_output L J M st k h q resp). confirms h l"
proof -
  have cs: "decided_on (judge_response L J M k h q resp) cs" using assms by (simp add: decided_on_def)
  have "\<forall>c \<in> set cs. passed c" using response_verified [OF cs] assms by blast
  then have "newline @ verified_line h p \<in> set (proof_report h p cs)" for p
    by (simp add: proof_report_def)
  moreover obtain status body m p where "response_output L J M st k h q resp =
      (''status: '' @ status) # delivered_report J body m @ (''payment tx   : '' @ p) # proof_report h p cs"
    using response_decided [OF cs, of st] by blast
  then have "set (proof_report h p cs) \<subseteq> set (response_output L J M st k h q resp)" by auto
  ultimately show ?thesis unfolding confirms_def by blast
qed

text \<open>With unbroken arguments, a line is the confirmation if an argument is.\<close>

lemma unbroken_line:
  assumes "unbroken l" and "l = v \<or> l = newline @ v \<or> l = v @ newline" and "v \<noteq> []" and "hd v \<noteq> CHR 0x0A" and "last v \<noteq> CHR 0x0A"
  shows "v \<in> set (split_on (\<lambda>c. c = CHR 0x0A) l)"
proof -
  obtain x where x: "\<forall>c \<in> set x. 32 \<le> byte_val c" "l = x \<or> l = newline @ x \<or> l = x @ newline"
    using assms(1) unfolding unbroken_def clean_def by blast
  have no: "CHR 0x0A \<notin> set x" using x(1) by auto
  have ends: "v \<noteq> CHR 0x0A # y" "v \<noteq> y @ [CHR 0x0A]" for y using assms(4,5) by auto
  have "v = x"
    using x(2) assms(2)
  proof (elim disjE)
    assume "l = x @ newline" "l = newline @ v"
    then have "x @ newline = newline @ v" by simp
    then show ?thesis using no assms(3) by (cases x) (auto simp: newline_def)
  next
    assume "l = newline @ x" "l = v @ newline"
    then have "v @ newline = newline @ x" by simp
    then show ?thesis using ends(1) assms(3) by (cases v) (auto simp: newline_def)
  qed (use no ends in \<open>auto simp: newline_def\<close>)
  then have "split_on (\<lambda>c. c = CHR 0x0A) v = [v]" using no by (intro split_on_none) auto
  moreover have "split_on (\<lambda>c. c = CHR 0x0A) (v @ newline) = [v, []]"
    using \<open>v = x\<close> no unfolding newline_def by (subst split_on_append) auto
  ultimately show ?thesis using assms(2) by (auto simp: newline_def)
qed

lemma verified_line_ends:
  "verified_line h p \<noteq> []" "hd (verified_line h p) \<noteq> CHR 0x0A" "last (verified_line h p) \<noteq> CHR 0x0A"
  by (simp_all add: verified_line_def)

lemma confirmation_shown:
  assumes "\<forall>l \<in> set ls. unbroken l"
  shows "(\<exists>p. verified_line h p \<in> set (terminal_lines ls)) \<longleftrightarrow> (\<exists>l \<in> set ls. confirms h l)"
proof
  assume "\<exists>p. verified_line h p \<in> set (terminal_lines ls)"
  then obtain p l where "l \<in> set ls" "verified_line h p \<in> set (split_on (\<lambda>c. c = CHR 0x0A) l)"
    using verified_line_ends(1) by (auto simp: terminal_lines_args)
  then show "\<exists>l \<in> set ls. confirms h l"
    using assms unbroken_pieces verified_line_ends(1) unfolding confirms_def by metis
next
  assume "\<exists>l \<in> set ls. confirms h l"
  then obtain l p where l: "l \<in> set ls"
      "l = verified_line h p \<or> l = newline @ verified_line h p \<or> l = verified_line h p @ newline"
    unfolding confirms_def by blast
  have "verified_line h p \<in> set (split_on (\<lambda>c. c = CHR 0x0A) l)"
    using unbroken_line [OF _ l(2) verified_line_ends] assms l(1) by blast
  then show "\<exists>p. verified_line h p \<in> set (terminal_lines ls)"
    using l(1) by (auto simp: terminal_lines_args)
qed

section \<open>What a response brings to the terminal\<close>

text \<open>The ids and the hosts of a receipt, which the names of checks contain.\<close>

definition clean_receipt :: "harness_receipt \<Rightarrow> bool" where
  "clean_receipt r \<longleftrightarrow> (\<forall>n \<in> set (nodes r). clean (node_id n) \<and> (\<forall>i \<in> set (inputs n). clean i)
     \<and> (\<forall>att. node_proof_of n = Leg att \<longrightarrow> clean (host (claim att))))"

text \<open>The names of the materials, and the answer shown of them.\<close>

definition clean_materials :: "'v json_lib \<Rightarrow> bytes btree_map \<Rightarrow> bool" where
  "clean_materials J m \<longleftrightarrow> (\<forall>(i, _) \<in> set m. clean i)
     \<and> (\<forall>answer v. bt_get m ''leg0'' = Some answer \<longrightarrow> jparse J answer = Some v \<longrightarrow>
          clean (jrender J (jkey J (jpos J (jkey J v ''content'') 0) ''text'')))"

definition clean_response ::
  "libs \<Rightarrow> 'v json_lib \<Rightarrow> ('c, 'ch, 'r) mpp_lib \<Rightarrow> (http_response \<Rightarrow> string) \<Rightarrow> http_response \<Rightarrow> bool" where
  "clean_response L J M status_text resp \<longleftrightarrow>
     clean (status_text resp) \<and> (\<forall>body. resp_body resp = Some body \<longrightarrow> clean (utf8_lossy body))
     \<and> (\<forall>h m. resp_header M resp PROVABLY_MATERIALS_HEADER = Some h \<longrightarrow>
          materials_from_header L h = Inr m \<longrightarrow> clean_materials J m)
     \<and> (\<forall>h x. resp_header M resp ''payment-receipt'' = Some h \<longrightarrow>
          parse_receipt M h = Some x \<longrightarrow> clean (reference M x))
     \<and> (\<forall>h r. resp_header M resp PROVABLY_RECEIPT_HEADER = Some h \<longrightarrow>
          read_receipt_header L h = Inr r \<longrightarrow> clean_receipt r)"

lemma clean_material_checks:
  "clean_materials J m \<Longrightarrow> c \<in> set (material_checks L r m) \<Longrightarrow> clean (check_name c)"
  by (auto simp: clean_materials_def material_checks_def check_new_def)

lemma clean_node_checks:
  assumes "clean_receipt r" and "n \<in> set (nodes r)" and "c \<in> set (node_checks L m e n)"
  shows "clean (check_name c)"
  using assms
  by (auto simp: clean_receipt_def node_checks_def edge_checks_def leg_checks_def interior_checks_def check_new_def
      split: node_proof.splits interior_proof.splits option.splits)

lemma clean_verify:
  assumes "clean_receipt r" and "c \<in> set (verify L r e)"
  shows "clean (check_name c)"
proof -
  consider n where "n \<in> set (nodes r)" "c \<in> set (node_checks L (node_map (nodes r)) e n)"
    | "check_name c \<in> {''manifest matches'', ''delivered bytes match output node'', ''output node exists'',
        ''bound to this payment'', ''output answers the buyer's request''}"
    using assms(2) by (auto simp: verify_def Let_def check_new_def split: option.splits)
  then show ?thesis
  proof cases
    case 1
    then show ?thesis using clean_node_checks [OF assms(1)] by blast
  qed auto
qed

lemma clean_lines:
  "clean h \<Longrightarrow> clean p \<Longrightarrow> clean (verified_line h p)" "clean rejected_line"
  by (simp_all add: verified_line_def rejected_line_def em_dash_def VERDICT_FN_ID_def)

lemma unbroken_report:
  assumes "clean h" and "clean p" and "\<forall>c \<in> set cs. clean (check_name c)"
  shows "\<forall>l \<in> set (proof_report h p cs). unbroken l"
proof -
  have "unbroken (check_line c)" if "c \<in> set cs" for c
    using assms(3) that by (intro unbroken_clean(1)) (simp add: check_line_def)
  moreover have "unbroken (newline @ ''proof verification:'')" by (intro unbroken_clean(2)) simp
  ultimately show ?thesis
    using unbroken_clean(2) clean_lines assms(1,2) by (auto simp: proof_report_def)
qed

lemma unbroken_delivered:
  assumes "clean (utf8_lossy body)" and "clean_materials J m"
  shows "\<forall>l \<in> set (delivered_report J body m). unbroken l"
proof -
  have "unbroken (''verdict      : '' @ utf8_lossy body)"
    using assms(1) by (intro unbroken_clean(1)) simp
  moreover have "unbroken ((''upstream ans : '' @ x) @ newline)" if "clean x" for x
    using that by (intro unbroken_clean(3)) simp
  ultimately show ?thesis
    using assms(2)
    by (auto simp: delivered_report_def clean_materials_def dest: sym [of "Some _"] split: option.splits)
qed

lemma unbroken_response:
  assumes "clean h" and "clean_response L J M st resp"
  shows "\<forall>l \<in> set (response_output L J M st k h q resp). unbroken l"
proof -
  have status: "unbroken ((''status: '' @ st resp) @ newline)"
    using assms(2) by (intro unbroken_clean(3)) (simp add: clean_response_def)
  have unserved: "unbroken (''response: '' @ utf8_lossy body)" if "resp_body resp = Some body" for body
    using assms(2) that by (intro unbroken_clean(1)) (simp add: clean_response_def)
  have delivered: "\<forall>l \<in> set (delivered_report J body m). unbroken l"
    if "resp_body resp = Some body" "resp_header M resp PROVABLY_MATERIALS_HEADER = Some x"
      "materials_from_header L x = Inr m" for body x m
    using assms(2) that by (intro unbroken_delivered) (auto simp: clean_response_def)
  have payment: "unbroken (''payment tx   : '' @ reference M receipt)"
    if "resp_header M resp ''payment-receipt'' = Some x" "parse_receipt M x = Some receipt" for x receipt
    using assms(2) that by (intro unbroken_clean(1)) (simp add: clean_response_def)
  have report: "\<forall>l \<in> set (proof_report h (reference M receipt) (material_checks L r m @ verify L r e)). unbroken l"
    if "resp_header M resp PROVABLY_MATERIALS_HEADER = Some x" "materials_from_header L x = Inr m"
      "resp_header M resp ''payment-receipt'' = Some y" "parse_receipt M y = Some receipt"
      "resp_header M resp PROVABLY_RECEIPT_HEADER = Some z" "read_receipt_header L z = Inr r" for x m y receipt z r e
  proof (rule unbroken_report [OF assms(1)])
    show "clean (reference M receipt)"
      using assms(2) that(3,4) by (simp add: clean_response_def)
    have "clean_materials J m" "clean_receipt r"
      using assms(2) that by (auto simp: clean_response_def)
    then show "\<forall>c \<in> set (material_checks L r m @ verify L r e). clean (check_name c)"
      using clean_material_checks clean_verify by fastforce
  qed
  note parts = response_output_def Let_def
  show ?thesis
  proof (cases "resp_body resp")
    case None
    then show ?thesis by (simp add: parts)
  next
    case body: (Some body)
    show ?thesis
    proof (cases "resp_success resp \<and> (\<exists>x m. resp_header M resp PROVABLY_MATERIALS_HEADER = Some x
        \<and> materials_from_header L x = Inr m)")
      case False
      then consider "\<not> resp_success resp" | "resp_header M resp PROVABLY_MATERIALS_HEADER = None"
        | x e where "resp_header M resp PROVABLY_MATERIALS_HEADER = Some x" "materials_from_header L x = Inl e"
        by (metis not_None_eq old.sum.exhaust)
      then show ?thesis
        using status unserved [OF body] body by cases (simp_all add: parts)
    next
      case True
      then obtain x m where m: "resp_success resp" "resp_header M resp PROVABLY_MATERIALS_HEADER = Some x"
          "materials_from_header L x = Inr m" by blast
      show ?thesis
      proof (cases "Option.bind (resp_header M resp ''payment-receipt'') (parse_receipt M)")
        case None
        then show ?thesis
          using status delivered [OF body m(2,3)] body m by (simp add: parts)
      next
        case (Some receipt)
        then obtain y where y: "resp_header M resp ''payment-receipt'' = Some y" "parse_receipt M y = Some receipt"
          by (auto simp: bind_eq_Some_conv)
        have tail: "\<forall>l \<in> set (case map_option (read_receipt_header L) (resp_header M resp PROVABLY_RECEIPT_HEADER) of
            Some (Inr r) \<Rightarrow> proof_report h (reference M receipt) (material_checks L r m
              @ verify L r (buyer_expectation L J k h q (reference M receipt) body r m))
          | _ \<Rightarrow> []). unbroken l"
        proof (cases "resp_header M resp PROVABLY_RECEIPT_HEADER")
          case (Some z)
          then show ?thesis
            using report [OF m(2,3) y Some] by (cases "read_receipt_header L z") simp_all
        qed simp
        show ?thesis
          using status delivered [OF body m(2,3)] payment [OF y] tail Some body m
          by (simp add: parts ball_Un)
      qed
    qed
  qed
qed

lemma clean_quoted: "clean (quoted s)"
proof -
  have "clean (show_radix 16 n)" for n
    unfolding clean_def
  proof
    fix c
    assume "c \<in> set (show_radix 16 n)"
    then obtain d where "d < 16" "c = digit_char d" using show_radix_chars [of 16 c n] by auto
    then show "32 \<le> byte_val c" using digit_char_graphic [of d] by (auto simp: graphic_def)
  qed
  then have "clean (debug_byte c)" for c
    by (auto simp: debug_byte_def)
  then have "clean (concat (map debug_byte s))"
    by (induction s) simp_all
  then show ?thesis by (simp add: quoted_def)
qed

lemma unbroken_output:
  assumes "clean (var_or E ''EXPECTED_UPSTREAM'' ''api.anthropic.com'')"
    and "\<And>resp. be_send E (reseller_url E @ ''/v1/messages'') (buyer_request J E) = Some resp \<Longrightarrow>
      clean_response L J M st resp"
  shows "\<forall>l \<in> set (buyer_output L J M st E). unbroken l"
proof -
  let ?h = "var_or E ''EXPECTED_UPSTREAM'' ''api.anthropic.com''"
  have "unbroken (key_line E)"
    by (intro unbroken_clean(1)) (simp add: key_line_def em_dash_def split: option.split)
  moreover have "unbroken (newline @ ''paying reseller for: '' @ quoted p)" for p
    by (intro unbroken_clean(2)) (simp add: clean_quoted)
  moreover have "\<forall>l \<in> set (case be_send E (reseller_url E @ ''/v1/messages'') (buyer_request J E) of
      None \<Rightarrow> [] | Some resp \<Rightarrow> response_output L J M st k ?h q resp). unbroken l" for k q
    using unbroken_response [OF assms(1) assms(2)]
    by (cases "be_send E (reseller_url E @ ''/v1/messages'') (buyer_request J E)") simp_all
  ultimately show ?thesis
    unfolding buyer_output_def Let_def buyer_request_def reseller_url_def
    by (cases "pinned_key J E (var_or E ''RESELLER_URL'' ''http://localhost:3000'')") simp_all
qed

section \<open>Bodies and names are printed as they are\<close>

lemma unserved_output:
  assumes "judge_response L J M k h q resp = NotServed body"
  shows "''response: '' @ utf8_lossy body \<in> set (response_output L J M st k h q resp)"
proof (cases "resp_body resp")
  case (Some b)
  have "judge_bundle L J k h q p b r m \<noteq> NotServed body" for p r m
    using judge_bundle_cases [of L J k h q p b r m] by auto
  then have "\<not> resp_success resp \<and> b = body"
    using assms Some unfolding judge_response_def Let_def
    by (auto split: option.splits sum.splits if_splits)
  then show ?thesis using Some by (simp add: response_output_def)
qed (use assms in \<open>simp add: judge_response_def\<close>)

lemma line_in_argument:
  assumes "clean v" and "x @ a @ newline @ v @ newline @ b \<in> set ls"
  shows "v \<in> set (terminal_lines ls)"
proof -
  have "split_on (\<lambda>c. c = CHR 0x0A) (v @ CHR 0x0A # b) = v # split_on (\<lambda>c. c = CHR 0x0A) b"
    using assms(1) by (intro split_on_append) (auto simp: clean_def)
  then have "v \<in> set (split_on (\<lambda>c. c = CHR 0x0A) ((x @ a) @ CHR 0x0A # v @ CHR 0x0A # b))"
    by (subst split_on_append_sep) simp_all
  then show ?thesis
    using assms(2) by (simp add: terminal_lines_args newline_def) blast
qed

text \<open>A receipt without nodes and one material, whose id holds the line to be shown.\<close>

definition forged_report_id :: "string \<Rightarrow> string \<Rightarrow> string" where
  "forged_report_id h p = newline @ verified_line h p @ newline"

definition empty_receipt :: "string \<Rightarrow> harness_receipt" where
  "empty_receipt p = \<lparr>manifest_id = MANIFEST_ID, nodes = [], output_node = ''verdict'',
                      payment_reference = Some p\<rparr>"

definition forged_check :: "string \<Rightarrow> string \<Rightarrow> check" where
  "forged_check h p = check_new (''material '' @ forged_report_id h p @ '' matches committed digest'') False"

lemma forged_check_line:
  "check_line (forged_check h p) =
     ''  [FAIL] material '' @ newline @ verified_line h p @ newline @ '' matches committed digest''"
  by (simp add: check_line_def check_new_def forged_report_id_def forged_check_def)

lemma forged_material_check:
  "material_checks L (empty_receipt p) [(forged_report_id h p, b)] = [forged_check h p]"
  by (simp add: forged_check_def material_checks_def material_ok_def committed_digests_def empty_receipt_def
      hm_get_collect)

lemma forged_report_rejected:
  obtains cs where
    "judge_bundle L J k h q p body (empty_receipt p) [(forged_report_id h p, b)] = Rejected (forged_check h p # cs)"
proof -
  have "\<not> passed (forged_check h p)" by (simp add: forged_check_def)
  then show thesis
    using that by (simp add: judge_bundle_def forged_material_check Let_def)
qed

lemma console_append [simp]: "console (a @ b) = console a @ console b"
  by (simp add: console_def)

lemma forged_report_shown:
  "\<exists>a b. console (proof_report h p (forged_check h p # cs)) = a @ newline @ verified_line h p @ newline @ b"
proof -
  have "\<not> passed (forged_check h p)" by (simp add: forged_check_def)
  then have "proof_report h p (forged_check h p # cs) = [newline @ ''proof verification:'']
      @ [check_line (forged_check h p)] @ map check_line cs @ [newline @ rejected_line]"
    by (simp add: proof_report_def)
  then have "console (proof_report h p (forged_check h p # cs)) =
      (console [newline @ ''proof verification:''] @ ''  [FAIL] material '') @ newline @ verified_line h p
      @ newline @ ('' matches committed digest'' @ newline @ console (map check_line cs)
                   @ console [newline @ rejected_line])"
    by (simp add: forged_check_line) (simp add: console_def)
  then show ?thesis by blast
qed

end
