(* ===== verification/Delivery_Properties.thy ===== *)
theory Delivery_Properties
  imports Reference_Run Limits Buyer_Report
begin

text \<open>
  Properties of what travels between reseller and buyer: an honest delivery is verified, a
  substituted one is not, and what a verified outcome of the buyer's run says about the
  response it was given.
\<close>

text \<open>
  The whole pipeline works: with a notary and a reseller started on one deployment, a
  session in which no call fails and the notary sees the reseller's request with the key
  withheld, a verified payment and a buyer that pins the notary's key, the buyer's run ends
  with every check passed.
\<close>

theorem honest_run_verified:
  fixes J :: "'v json_lib"
  assumes "run_laws L M" and "deployed L nvar rvar cfg st"
    and "good_session cfg N seen received"
    and "good_prover L cfg st N P fill (buyer_request J B) seen received"
    and "presented M headers = Some c" and "verify_credential M c = Inr receipt"
    and "good_buyer L J M cfg st P headers B"
  shows "\<exists>cs. buyer_main L J M B = Verified cs"
  using assms by (rule honest_buyer_verifies)

theorem honest_run_verified_witness: "\<exists>cs. buyer_main ref_libs ref_json ref_mpp ref_buyer = Verified cs"
  by (rule honest_run_verified [OF ref_run_laws ref_deployed ref_good_session _ ref_paid ref_good_buyer])
    (unfold ref_buyer_request, rule ref_good_prover)

text \<open>
  C12. The cheating mode is caught: when the reseller substitutes the answer, the buyer rejects
  the delivery, whatever it pinned and expected, unless the two answers collide under SHA-256.
\<close>

theorem substituted_delivery_rejected:
  fixes J :: "'v json_lib"
  assumes "delivery_laws L M" and "app_mode st = CheatSubstitute"
    and "substitute J response_body = Inr fake" and "fake \<noteq> response_body"
    and "response_digest (claim leg) = sha256_hex L response_body"
  shows "\<exists>reply. deliver L J M st receipt response_body leg = Inr reply \<and>
           ((\<exists>cs. judge_response L J M k h q (as_response J reply) = Rejected cs)
            \<or> sha_collision L response_body fake)"
proof -
  obtain reply where reply: "deliver L J M st receipt response_body leg = Inr reply"
    and judge: "judge_response L J M k h q (as_response J reply) =
      judge_bundle L J k h q (reference M receipt) (starts_with_yes J fake)
        (make_bundle leg (sha256_hex L (starts_with_yes J fake)) (reference M receipt))
        [(''leg0'', fake)]"
    using delivered_is_judged [OF assms(1), where st = st and response_body = response_body
        and answer = fake and J = J and leg = leg and receipt = receipt and k = k and h = h and q = q]
      assms(2,3) by auto
  have "hex_law L" using assms(1) by (simp add: delivery_laws_def)
  from substituted_bundle_rejected [OF this assms(5,4)] show ?thesis
    using reply judge by metis
qed

definition ref_fake :: bytes where
  "ref_fake = ref_render (JObject
     [(''content'', JArray [JObject [(''type'', JString ''text''), (''text'', JString substitute_text)]]),
      (''model'', JString substitute_model)])"

lemma ref_substituted: "substitute ref_json (ref_answer ''Yes'') = Inr ref_fake" "ref_fake \<noteq> ref_answer ''Yes''"
  by code_simp+

theorem substituted_delivery_rejected_witness:
  "\<exists>reply. deliver ref_libs ref_json ref_mpp (ref_app\<lparr>app_mode := CheatSubstitute\<rparr>) ''0xabc''
            (ref_answer ''Yes'') ref_signed = Inr reply \<and>
     ((\<exists>cs. judge_response ref_libs ref_json ref_mpp (public_key_hex ref_libs ref_notary)
              ''api.anthropic.com'' (sha256_hex ref_libs ref_request) (as_response ref_json reply) = Rejected cs)
      \<or> sha_collision ref_libs (ref_answer ''Yes'') ref_fake)"
  by (rule substituted_delivery_rejected [OF _ _ ref_substituted])
    (use ref_run_laws in \<open>simp_all add: run_laws_def ref_signed_claim\<close>)

text \<open>
  C11. What a verified run of the buyer rests on: it found a key to pin, its request was
  answered successfully with the three headers, the receipt it decoded is accepted for the
  expectation built from its own request and the served body, and, if the receipt has the
  seller's two-node shape, the body is the transform of shipped bytes whose digest is the
  attested one.
\<close>

theorem verified_run_sound:
  fixes J :: "'v json_lib"
  assumes "hex_law L" and "buyer_main L J M B = Verified cs"
  shows "\<exists>k resp body m receipt r.
    pinned_key J B (reseller_url B) = Inr k
    \<and> be_send B (reseller_url B @ ''/v1/messages'') (buyer_request J B) = Some resp
    \<and> served L M resp body m receipt r
    \<and> accepts L r (buyer_expectation L J k (var_or B ''EXPECTED_UPSTREAM'' ''api.anthropic.com'')
         (sha256_hex L (buyer_request J B)) (reference M receipt) body r m)
    \<and> (\<forall>l v att f. two_node r l v \<longrightarrow> node_proof_of l = Leg att \<longrightarrow>
         node_proof_of v = Interior (Recompute f) \<longrightarrow>
         request_digest (claim att) = sha256_hex L (buyer_request J B) \<and>
         proof_pubkey (leg_proof_of att) = k \<and>
         (\<exists>answer. (node_id l, answer) \<in> set m \<and> sha256_hex L answer = response_digest (claim att)
            \<and> (body = starts_with_yes J answer \<or> sha_collision L body (starts_with_yes J answer))))"
proof -
  obtain k resp where run: "pinned_key J B (reseller_url B) = Inr k"
      "be_send B (reseller_url B @ ''/v1/messages'') (buyer_request J B) = Some resp"
    and resp: "judge_response L J M k (var_or B ''EXPECTED_UPSTREAM'' ''api.anthropic.com'')
       (sha256_hex L (buyer_request J B)) resp = Verified cs"
    using buyer_main_verified [OF assms(2)] by blast
  obtain body m receipt r where b: "served L M resp body m receipt r"
    and judge: "judge_bundle L J k (var_or B ''EXPECTED_UPSTREAM'' ''api.anthropic.com'')
       (sha256_hex L (buyer_request J B)) (reference M receipt) body r m = Verified cs"
    using judge_response_verified [OF resp] .
  have acc: "accepts L r (buyer_expectation L J k (var_or B ''EXPECTED_UPSTREAM'' ''api.anthropic.com'')
         (sha256_hex L (buyer_request J B)) (reference M receipt) body r m)"
    using judge judge_bundle_verified by blast
  have two: "\<forall>l v att f. two_node r l v \<longrightarrow> node_proof_of l = Leg att \<longrightarrow>
         node_proof_of v = Interior (Recompute f) \<longrightarrow>
         request_digest (claim att) = sha256_hex L (buyer_request J B) \<and>
         proof_pubkey (leg_proof_of att) = k \<and>
         (\<exists>answer. (node_id l, answer) \<in> set m \<and> sha256_hex L answer = response_digest (claim att)
            \<and> (body = starts_with_yes J answer \<or> sha_collision L body (starts_with_yes J answer)))"
  proof (intro allI impI)
    fix l v att f
    assume shape: "two_node r l v" "node_proof_of l = Leg att" "node_proof_of v = Interior (Recompute f)"
    show "request_digest (claim att) = sha256_hex L (buyer_request J B) \<and>
         proof_pubkey (leg_proof_of att) = k \<and>
         (\<exists>answer. (node_id l, answer) \<in> set m \<and> sha256_hex L answer = response_digest (claim att)
            \<and> (body = starts_with_yes J answer \<or> sha_collision L body (starts_with_yes J answer)))"
      by (intro conjI) (rule two_node_verified(2,4,1) [OF shape assms(1) judge])+
  qed
  show ?thesis
    by (rule exI [of _ k], rule exI [of _ resp], rule exI [of _ body], rule exI [of _ m],
        rule exI [of _ receipt], rule exI [of _ r], intro conjI) fact+
qed

theorem verified_run_sound_witness:
  "\<exists>resp body m receipt r. be_send ref_buyer (reseller_url ref_buyer @ ''/v1/messages'') ref_request = Some resp
     \<and> served ref_libs ref_mpp resp body m receipt r"
proof -
  obtain cs where "buyer_main ref_libs ref_json ref_mpp ref_buyer = Verified cs"
    using honest_buyer_verifies [OF ref_run_laws ref_deployed ref_good_session _ ref_paid
        ref_good_buyer] ref_good_prover by (metis ref_buyer_request)
  from verified_run_sound [OF ref_laws(2) this] show ?thesis
    unfolding ref_buyer_request by blast
qed

text \<open>
  Every computed node of a verified receipt is justified by the shipped materials: with
  distinct ids, its inputs are materials whose digests the receipt commits to, the named
  transform is one the buyer knows, and the node's digest is that of the transform's result.
\<close>

theorem verified_nodes_justified:
  fixes J :: "'v json_lib"
  assumes "judge_bundle L J k h q p body r m = Verified cs" and "distinct (map node_id (nodes r))"
    and "n \<in> set (nodes r)" and "node_proof_of n = Interior (Recompute f)"
  shows "\<exists>ins out. length ins = length (inputs n)
     \<and> (\<forall>j < length ins. (inputs n ! j, ins ! j) \<in> set m
          \<and> (\<exists>n' \<in> set (nodes r). node_id n' = inputs n ! j \<and> output_digest n' = sha256_hex L (ins ! j)))
     \<and> f = VERDICT_FN_ID \<and> recompute J f ins = Some out \<and> output_digest n = sha256_hex L out"
proof -
  have "accepts L r (buyer_expectation L J k h q p body r m)"
    using assms(1) judge_bundle_verified by blast
  from interior_justified [OF this assms(2-4)] show ?thesis .
qed

theorem verified_nodes_justified_witness:
  "\<exists>ins out. length ins = Suc 0 \<and> recompute ref_json VERDICT_FN_ID ins = Some out"
proof -
  obtain cs where cs: "judge_bundle ref_libs ref_json (public_key_hex ref_libs ref_notary)
      ''api.anthropic.com'' (sha256_hex ref_libs ref_request) ''0xabc'' ''1''
      (bought_receipt ref_bought) [(''leg0'', ref_answer ''Yes'')] = Verified cs"
    using ref_buyer_verifies by (auto simp: buyer_verifies_def ref_config_def ref_bought_def)
  let ?n = "nodes (bought_receipt ref_bought) ! 1"
  have "distinct (map node_id (nodes (bought_receipt ref_bought)))"
      and "?n \<in> set (nodes (bought_receipt ref_bought))"
      and "node_proof_of ?n = Interior (Recompute VERDICT_FN_ID)" and "length (inputs ?n) = Suc 0"
    by (simp_all add: ref_bought_def make_bundle_def)
  with verified_nodes_justified [OF cs, of ?n VERDICT_FN_ID] show ?thesis
    by metis
qed

section \<open>The report\<close>

text \<open>
  The report says what was decided: one line for every check in the order they were
  made, marked as passed exactly if it passed, and the closing line is the confirmation exactly
  if the verifier accepts the receipt and every shipped material has its committed digest.
\<close>

theorem report_tells_outcome:
  assumes "judge_bundle L J k h q p body r m = Verified cs \<or> judge_bundle L J k h q p body r m = Rejected cs"
  shows "length (proof_report h p cs) = length cs + 2 \<and>
     (\<forall>i < length cs. proof_report h p cs ! Suc i =
        ''  '' @ (if passed (cs ! i) then ''[PASS]'' else ''[FAIL]'') @ '' '' @ check_name (cs ! i)) \<and>
     (last (proof_report h p cs) = newline @ verified_line h p \<longleftrightarrow>
        accepts L r (buyer_expectation L J k h q p body r m) \<and>
        (\<forall>x \<in> set m. material_ok L (committed_digests r) x))"
proof -
  have decided: "decided_on (judge_bundle L J k h q p body r m) cs"
    using assms by (simp add: decided_on_def)
  have "(\<forall>c \<in> set cs. passed c) \<longleftrightarrow> (\<exists>cs. judge_bundle L J k h q p body r m = Verified cs)"
    using decided decided_unique decided_verified by metis
  then show ?thesis
    using lines_differ [of h p]
    by (auto simp: proof_report_def check_line_def nth_append judge_bundle_verified)
qed

theorem report_tells_outcome_witness:
  "\<exists>cs. last (proof_report ''api.anthropic.com'' (bought_payment ref_bought) cs)
     = newline @ verified_line ''api.anthropic.com'' (bought_payment ref_bought)"
proof -
  obtain cs where cs: "judge_bundle ref_libs ref_json (public_key_hex ref_libs ref_notary) ''api.anthropic.com''
     (bought_request ref_bought) (bought_payment ref_bought) (bought_body ref_bought)
     (bought_receipt ref_bought) (bought_materials ref_bought) = Verified cs"
    using ref_buyer_verifies by (auto simp: buyer_verifies_def ref_config_def)
  from report_tells_outcome [OF disjI1 [OF this]] show ?thesis
    using cs judge_bundle_verified by metis
qed

text \<open>
  C32. What the terminal shows is what was decided, over a whole run: as long as what the response
  brings to the terminal (its body, the ids, hosts and materials it names, the payment reference,
  the answer shown) has no control characters, a line of the terminal is the confirmation
  exactly when the run verified the receipt; no run that panics, is not served or is rejected
  shows it.
\<close>

theorem terminal_tells_outcome:
  assumes "clean (var_or E ''EXPECTED_UPSTREAM'' ''api.anthropic.com'')"
    and "\<And>resp. be_send E (reseller_url E @ ''/v1/messages'') (buyer_request J E) = Some resp \<Longrightarrow>
      clean_response L J M st resp"
  shows "(\<exists>cs. buyer_main L J M E = Verified cs) \<longleftrightarrow>
    (\<exists>p. verified_line (var_or E ''EXPECTED_UPSTREAM'' ''api.anthropic.com'') p
       \<in> set (terminal_lines (buyer_output L J M st E)))"
proof -
  let ?h = "var_or E ''EXPECTED_UPSTREAM'' ''api.anthropic.com''" and ?out = "buyer_output L J M st E"
  have shown: "(\<exists>p. verified_line ?h p \<in> set (terminal_lines ?out)) \<longleftrightarrow> (\<exists>l \<in> set ?out. confirms ?h l)"
    by (rule confirmation_shown [OF unbroken_output [OF assms]])
  have heads: "\<not> confirms ?h (key_line E)" "\<not> confirms ?h (newline @ ''paying reseller for: '' @ x)" for x
    by (simp_all add: key_line_def confirms_not split: option.split)
  show ?thesis
  proof (cases rule: buyer_run_cases [of L J M E st])
    case (unanswered m out)
    then show ?thesis using heads by (auto simp: shown)
  next
    case (answered pk q resp out)
    have "(\<exists>l \<in> set ?out. confirms ?h l) \<longleftrightarrow> (\<exists>cs. judge_response L J M pk ?h q resp = Verified cs)"
      using heads response_confirms response_confirmed unfolding answered(2) by fastforce
    then show ?thesis by (simp only: shown answered(1))
  qed
qed

text \<open>An honest response, as the buyer receives it.\<close>

definition shown_response :: http_response where
  "shown_response =
     \<lparr>resp_success = True,
      resp_headers = [PROVABLY_RECEIPT_HEADER \<mapsto> to_header ref_libs (bought_receipt ref_bought),
        PROVABLY_MATERIALS_HEADER \<mapsto> materials_to_header ref_libs (bought_materials ref_bought),
        ''payment-receipt'' \<mapsto> ref_hex ''0xabc''],
      resp_body = Some (bought_body ref_bought)\<rparr>"

lemma shown_headers:
  "resp_header ref_mpp shown_response PROVABLY_RECEIPT_HEADER = Some (to_header ref_libs (bought_receipt ref_bought))"
  "resp_header ref_mpp shown_response PROVABLY_MATERIALS_HEADER =
     Some (materials_to_header ref_libs (bought_materials ref_bought))"
  "resp_header ref_mpp shown_response ''payment-receipt'' = Some (ref_hex ''0xabc'')"
proof -
  have "header_law ref_mpp" using ref_run_laws by (simp add: run_laws_def delivery_laws_def)
  then have read: "header_to_str ref_mpp s = Some s" if "\<forall>c \<in> set s. graphic c" for s
    using that printable_graphic unfolding header_law_def by blast
  show "resp_header ref_mpp shown_response PROVABLY_RECEIPT_HEADER = Some (to_header ref_libs (bought_receipt ref_bought))"
    using read receipt_codec.enc_graphic [OF ref_codec_laws(1)]
    by (simp add: resp_header_def shown_response_def PROVABLY_RECEIPT_HEADER_def PROVABLY_MATERIALS_HEADER_def)
  show "resp_header ref_mpp shown_response PROVABLY_MATERIALS_HEADER =
      Some (materials_to_header ref_libs (bought_materials ref_bought))"
    using read materials_codec.enc_graphic [OF ref_codec_laws(2)]
    by (simp add: resp_header_def shown_response_def PROVABLY_RECEIPT_HEADER_def PROVABLY_MATERIALS_HEADER_def)
  show "resp_header ref_mpp shown_response ''payment-receipt'' = Some (ref_hex ''0xabc'')"
    using read [OF graphic_ref_hex]
    by (simp add: resp_header_def shown_response_def PROVABLY_RECEIPT_HEADER_def PROVABLY_MATERIALS_HEADER_def
        del: ref_hex.simps)
qed

lemma shown_decoded:
  "read_receipt_header ref_libs (to_header ref_libs (bought_receipt ref_bought)) = Inr (bought_receipt ref_bought)"
  "materials_from_header ref_libs (materials_to_header ref_libs (bought_materials ref_bought))
     = Inr (bought_materials ref_bought)"
  "parse_receipt ref_mpp (ref_hex ''0xabc'') = Some ''0xabc''" "reference ref_mpp ''0xabc'' = bought_payment ref_bought"
proof -
  show "read_receipt_header ref_libs (to_header ref_libs (bought_receipt ref_bought)) = Inr (bought_receipt ref_bought)"
    unfolding read_receipt_header_def by (rule receipt_codec.dec_enc) (simp_all add: ref_codec_laws)
  show "materials_from_header ref_libs (materials_to_header ref_libs (bought_materials ref_bought))
      = Inr (bought_materials ref_bought)"
    by (rule materials_codec.dec_enc) (simp_all add: ref_codec_laws bt_sorted_def ref_bought_def)
qed (simp_all add: ref_mpp_def ref_unhex_hex ref_bought_def del: ref_hex.simps)

lemma shown_parts:
  "resp_success shown_response" "resp_body shown_response = Some (bought_body ref_bought)"
  by (simp_all add: shown_response_def)

definition shown_buyer :: "json buyer_env" where
  "shown_buyer = ref_buyer\<lparr>be_send := (\<lambda>_ _. Some shown_response)\<rparr>"

lemma shown_buyer_verifies: "\<exists>cs. buyer_main ref_libs ref_json ref_mpp shown_buyer = Verified cs"
proof -
  have "buyer_request ref_json shown_buyer = ref_request"
    using ref_buyer_request by (simp add: buyer_request_def shown_buyer_def)
  moreover have "buyer_ready shown_buyer" and "pinned_key ref_json shown_buyer u = Inr (public_key_hex ref_libs ref_notary)"
      and "var_or shown_buyer ''EXPECTED_UPSTREAM'' ''api.anthropic.com'' = ''api.anthropic.com''" for u
    by (simp_all add: shown_buyer_def ref_buyer_def buyer_ready_def pinned_key_def var_or_def)
  moreover have "be_send shown_buyer u b = Some shown_response" for u b
    by (simp add: shown_buyer_def)
  ultimately have "buyer_main ref_libs ref_json ref_mpp shown_buyer =
      judge_response ref_libs ref_json ref_mpp (public_key_hex ref_libs ref_notary) ''api.anthropic.com''
        (sha256_hex ref_libs ref_request) shown_response"
    by (subst buyer_main_ready) simp_all
  also have "\<dots> = judge_bundle ref_libs ref_json (public_key_hex ref_libs ref_notary) ''api.anthropic.com''
        (bought_request ref_bought) (bought_payment ref_bought) (bought_body ref_bought)
        (bought_receipt ref_bought) (bought_materials ref_bought)"
    by (simp add: judge_response_def Let_def shown_headers shown_decoded shown_parts del: ref_hex.simps)
      (simp add: ref_bought_def)
  finally show ?thesis
    using ref_buyer_verifies by (auto simp: buyer_verifies_def ref_config_def)
qed

lemma shown_clean: "clean_response ref_libs ref_json ref_mpp (\<lambda>_. ''200 OK'') shown_response"
proof -
  have "clean_materials ref_json (bought_materials ref_bought)"
  proof -
    have "jrender ref_json (jkey ref_json (jpos ref_json (jkey ref_json v ''content'') 0) ''text'') = [ref_quote] @ ''Yes'' @ [ref_quote]"
      if "jparse ref_json (ref_answer ''Yes'') = Some v" for v
    proof -
      have "map_option (\<lambda>v. jrender ref_json (jkey ref_json (jpos ref_json (jkey ref_json v ''content'') 0) ''text''))
          (jparse ref_json (ref_answer ''Yes'')) = Some ([ref_quote] @ ''Yes'' @ [ref_quote])"
        by code_simp
      then show ?thesis using that by simp
    qed
    then show ?thesis
      by (auto simp: clean_materials_def ref_bought_def bt_get_def ref_quote_def)
  qed
  moreover have "clean_receipt (bought_receipt ref_bought)"
    by (auto simp: clean_receipt_def ref_bought_def make_bundle_def ref_signed_claim)
  moreover have "utf8_lossy ''1'' = ''1''" by code_simp
  ultimately show ?thesis
    by (simp add: clean_response_def shown_headers shown_decoded shown_parts del: ref_hex.simps)
      (simp add: ref_bought_def)
qed

theorem terminal_tells_outcome_witness:
  "\<exists>p. verified_line ''api.anthropic.com'' p \<in>
     set (terminal_lines (buyer_output ref_libs ref_json ref_mpp (\<lambda>_. ''200 OK'') shown_buyer))"
proof -
  have host: "var_or shown_buyer ''EXPECTED_UPSTREAM'' ''api.anthropic.com'' = ''api.anthropic.com''"
    by (simp add: shown_buyer_def ref_buyer_def var_or_def)
  have send: "be_send shown_buyer u b = Some shown_response" for u b
    by (simp add: shown_buyer_def)
  show ?thesis
    using terminal_tells_outcome [where L = ref_libs and J = ref_json and M = ref_mpp
        and E = shown_buyer and st = "\<lambda>_. ''200 OK''"] shown_buyer_verifies
    by (simp add: host send shown_clean)
qed

text \<open>
  C37. The confirmation can be shown without a verified receipt: the body of a response that is
  not a success is printed as it is, so any seller can put the complete confirmation on the
  terminal as a line of its own, with no receipt at all; only the status line before it tells.
\<close>

theorem unserved_report_forged:
  assumes "buyer_main L J M E = NotServed (a @ newline @ verified_line h p @ newline @ b)"
    and "utf8_valid (a @ newline @ verified_line h p @ newline @ b)" and "clean h" and "clean p"
  shows "verified_line h p \<in> set (terminal_lines (buyer_output L J M st E))"
proof -
  let ?h = "var_or E ''EXPECTED_UPSTREAM'' ''api.anthropic.com''"
  let ?body = "a @ newline @ verified_line h p @ newline @ b"
  show ?thesis
  proof (cases rule: buyer_run_cases [of L J M E st])
    case (unanswered m out)
    then show ?thesis using assms(1) by simp
  next
    case (answered pk q resp out)
    have "judge_response L J M pk ?h q resp = NotServed ?body"
      using answered(1) assms(1) by simp
    from unserved_output [OF this] have "''response: '' @ ?body \<in> set (response_output L J M st pk ?h q resp)"
      using assms(2) by (metis utf8_lossy_valid)
    then have "''response: '' @ ?body \<in> set (buyer_output L J M st E)"
      using answered(2) by simp
    then show ?thesis
      by (rule line_in_argument [OF clean_lines(1) [OF assms(3,4)]])
  qed
qed

definition unpaid_response :: http_response where
  "unpaid_response =
     \<lparr>resp_success = False, resp_headers = (\<lambda>_. None),
      resp_body = Some (newline @ verified_line ''api.anthropic.com'' ''0xabc'' @ newline)\<rparr>"

theorem unserved_report_forged_witness:
  "verified_line ''api.anthropic.com'' ''0xabc'' \<in>
     set (terminal_lines (buyer_output ref_libs ref_json ref_mpp (\<lambda>_. ''402 Payment Required'')
       (ref_buyer\<lparr>be_send := (\<lambda>_ _. Some unpaid_response)\<rparr>)))"
proof (rule unserved_report_forged [where a = "[]" and b = "[]"])
  let ?E = "ref_buyer\<lparr>be_send := (\<lambda>_ _. Some unpaid_response)\<rparr>"
  have ready: "buyer_ready ?E"
    by (simp add: ref_buyer_def buyer_ready_def var_or_def)
  have pinned: "pinned_key ref_json ?E u = Inr (public_key_hex ref_libs ref_notary)" for u
    by (simp add: ref_buyer_def pinned_key_def)
  have "buyer_main ref_libs ref_json ref_mpp ?E =
      judge_response ref_libs ref_json ref_mpp (public_key_hex ref_libs ref_notary)
        (var_or ?E ''EXPECTED_UPSTREAM'' ''api.anthropic.com'') (sha256_hex ref_libs (buyer_request ref_json ?E))
        unpaid_response"
    by (rule buyer_main_ready [OF ready pinned]) simp
  also have "\<dots> = NotServed ([] @ newline @ verified_line ''api.anthropic.com'' ''0xabc'' @ newline @ [])"
    by (simp add: judge_response_def unpaid_response_def)
  finally show "buyer_main ref_libs ref_json ref_mpp ?E =
      NotServed ([] @ newline @ verified_line ''api.anthropic.com'' ''0xabc'' @ newline @ [])" .
  show "utf8_valid ([] @ newline @ verified_line ''api.anthropic.com'' ''0xabc'' @ newline @ [])"
    by code_simp
qed simp_all

text \<open>
  C38. The report can be forged: names of checks carry ids of the seller's choice and are printed
  as they are, so a receipt that is rejected can make the confirmation appear on the terminal
  as a line of its own.
\<close>

theorem report_forged:
  "\<exists>r m cs. judge_bundle L J k h q p body r m = Rejected cs \<and>
     (\<exists>a b. console (proof_report h p cs) = a @ newline @ verified_line h p @ newline @ b)"
proof -
  obtain cs where
    "judge_bundle L J k h q p body (empty_receipt p) [(forged_report_id h p, [])] = Rejected (forged_check h p # cs)"
    by (rule forged_report_rejected)
  then show ?thesis using forged_report_shown by blast
qed

end
