(* ===== verification/Leg_Search.thy ===== *)
theory Leg_Search
  imports Verifier
begin

text \<open>
  The loop of \<open>leg_ancestors\<close> (\<open>crates/provably-verifier/src/lib.rs\<close>) one iteration at a time:
  \<open>search_step\<close> is its body on stack, visited set and collected legs. The lemmas count the
  iterations: one for the start and one for every edge out of a reachable interior node, so
  a receipt costs at most one more than it has edges, whatever its shape.
\<close>

type_synonym search = "node_ident list \<times> node_ident set \<times> leg_attestation list"

definition search_step :: "node hash_map \<Rightarrow> search \<Rightarrow> search" where
  "search_step m = (\<lambda>(stack, seen, legs).
     case stack of
       [] \<Rightarrow> (stack, seen, legs)
     | x # stack \<Rightarrow>
         (if x \<in> seen then (stack, seen, legs)
          else (case hm_get m x of
                  None \<Rightarrow> (stack, insert x seen, legs)
                | Some n \<Rightarrow>
                    (case node_proof_of n of
                       Leg att \<Rightarrow> (stack, insert x seen, legs @ [att])
                     | Interior _ \<Rightarrow> (rev (inputs n) @ stack, insert x seen, legs)))))"

text \<open>\<open>k\<close> iterations, each begun with something on the stack, end the loop in \<open>t\<close>.\<close>

definition ends_after :: "node hash_map \<Rightarrow> nat \<Rightarrow> search \<Rightarrow> search \<Rightarrow> bool" where
  "ends_after m k s t \<longleftrightarrow>
     (search_step m ^^ k) s = t \<and> fst t = [] \<and> (\<forall>j<k. fst ((search_step m ^^ j) s) \<noteq> [])"

lemma ends_after_0: "ends_after m 0 ([], seen, legs) ([], seen, legs)"
  by (simp add: ends_after_def)

lemma ends_after_Suc:
  assumes "ends_after m k (search_step m s) t" and "fst s \<noteq> []"
  shows "ends_after m (Suc k) s t"
  unfolding ends_after_def
proof (intro conjI allI impI)
  show "(search_step m ^^ Suc k) s = t"
    using assms(1) by (simp only: ends_after_def funpow_Suc_right comp_def)
  show "fst t = []" using assms(1) by (simp add: ends_after_def)
  show "fst ((search_step m ^^ j) s) \<noteq> []" if "j < Suc k" for j
  proof (cases j)
    case 0
    then show ?thesis using assms(2) by simp
  next
    case (Suc i)
    then show ?thesis
      using assms(1) that by (simp only: ends_after_def funpow_Suc_right comp_def) simp
  qed
qed

lemma search_step_seen: "x \<in> seen \<Longrightarrow> search_step m (x # stack, seen, legs) = (stack, seen, legs)"
  by (simp add: search_step_def)

lemma search_step_new:
  "x \<notin> seen \<Longrightarrow> search_step m (x # stack, seen, legs) =
     (succs m x @ stack, insert x seen, legs @ (case leg_at m x of None \<Rightarrow> [] | Some att \<Rightarrow> [att]))"
  by (simp add: search_step_def succs_def leg_at_def split: option.split node_proof.split)

definition edges_from :: "node hash_map \<Rightarrow> node_ident list \<Rightarrow> nat" where
  "edges_from m ids = sum_list (map (\<lambda>x. length (succs m x)) ids)"

lemma search_ends:
  "ends_after m (length stack + edges_from m (walk_ids m stack seen)) (stack, seen, legs)
     ([], seen \<union> set (walk_ids m stack seen), leg_walk m stack seen legs)"
proof (induction stack seen arbitrary: legs rule: walk_ids_induct [where m = m])
  case (Nil seen)
  show ?case by (simp add: ends_after_0 edges_from_def)
next
  case (Seen x stack seen)
  have "ends_after m (length stack + edges_from m (walk_ids m stack seen)) (search_step m (x # stack, seen, legs))
     ([], seen \<union> set (walk_ids m stack seen), leg_walk m stack seen legs)"
    using Seen by (simp add: search_step_seen)
  from ends_after_Suc [OF this] show ?case
    using Seen.hyps by (simp add: walk_ids_Cons)
next
  case (New x stack seen)
  let ?legs = "legs @ (case leg_at m x of None \<Rightarrow> [] | Some att \<Rightarrow> [att])"
  have walk: "leg_walk m (x # stack) seen legs = leg_walk m (succs m x @ stack) (insert x seen) ?legs"
    using New.hyps by (simp add: succs_def leg_at_def split: option.split node_proof.split)
  have "ends_after m (length (succs m x @ stack) + edges_from m (walk_ids m (succs m x @ stack) (insert x seen)))
     (search_step m (x # stack, seen, legs))
     ([], insert x seen \<union> set (walk_ids m (succs m x @ stack) (insert x seen)), leg_walk m (x # stack) seen legs)"
    unfolding walk search_step_new [OF New.hyps] by (rule New.IH)
  from ends_after_Suc [OF this] show ?case
    using New.hyps by (simp add: walk_ids_Cons edges_from_def ac_simps)
qed

text \<open>All edges of the graph bound the edges the search follows.\<close>

lemma edges_from_set: "distinct ids \<Longrightarrow> edges_from m ids = (\<Sum>x \<in> set ids. length (succs m x))"
  by (simp add: edges_from_def sum_list_distinct_conv_sum_set)

lemma length_succs: "hm_get m x = Some n \<Longrightarrow> length (succs m x) \<le> length (inputs n)"
  by (simp add: succs_def split: node_proof.split)

lemma edges_bound:
  assumes "finite A"
  shows "(\<Sum>x \<in> A. length (succs (node_map ns) x)) \<le> sum_list (map (\<lambda>n. length (inputs n)) ns)"
proof -
  let ?m = "node_map ns"
  let ?B = "{x \<in> A. hm_get ?m x \<noteq> None}"
  let ?node = "\<lambda>x. the (hm_get ?m x)"
  have node: "?node x \<in> set ns" "node_id (?node x) = x" if "x \<in> ?B" for x
    using that by (auto dest: node_map_get_Some)
  have "(\<Sum>x \<in> A. length (succs ?m x)) = (\<Sum>x \<in> ?B. length (succs ?m x))"
    using assms by (intro sum.mono_neutral_right) (auto simp: succs_def)
  also have "\<dots> \<le> (\<Sum>x \<in> ?B. length (inputs (?node x)))"
    by (intro sum_mono) (auto intro: length_succs)
  also have "\<dots> = (\<Sum>n \<in> ?node ` ?B. length (inputs n))"
  proof (rule sum.reindex_cong [of ?node, symmetric])
    show "inj_on ?node ?B"
      by (rule inj_on_inverseI [where g = node_id]) (rule node(2))
  qed simp_all
  also have "\<dots> \<le> (\<Sum>n \<in> set ns. length (inputs n))"
    using node(1) by (intro sum_mono2) auto
  also have "\<dots> \<le> sum_list (map (\<lambda>n. length (inputs n)) ns)"
    by (induction ns) (auto simp: sum.insert_if)
  finally show ?thesis .
qed

end
