(* ===== verification/Node_Order.thy ===== *)
theory Node_Order
  imports Buyer "HOL-Library.Multiset"
begin

text \<open>
  The order in which a receipt lists its nodes. \<open>reordered\<close> receipts differ in nothing else;
  with distinct ids, every look-up the verifier and the buyer make gives the same, so the same
  checks are made.
\<close>

definition reordered :: "harness_receipt \<Rightarrow> harness_receipt \<Rightarrow> bool" where
  "reordered r r' \<longleftrightarrow>
     manifest_id r' = manifest_id r \<and> output_node r' = output_node r
     \<and> payment_reference r' = payment_reference r \<and> mset (nodes r') = mset (nodes r)"

lemma map_of_mset:
  assumes "mset kvs' = mset kvs" and "distinct (map fst kvs)"
  shows "map_of kvs' = map_of kvs"
proof
  fix k
  have "distinct (map fst kvs')"
    using assms by (metis mset_eq_imp_distinct_iff mset_map)
  moreover have "set kvs' = set kvs"
    using assms(1) by (rule mset_eq_setD)
  ultimately have "map_of kvs' k = Some v \<longleftrightarrow> map_of kvs k = Some v" for v
    using assms(2) by (simp add: map_of_eq_Some_iff)
  then show "map_of kvs' k = map_of kvs k"
    by (metis not_None_eq)
qed

lemma mset_concat_map: "mset (concat (map f xs)) = sum_mset (image_mset (\<lambda>x. mset (f x)) (mset xs))"
  by (induction xs) simp_all

section \<open>Look-ups\<close>

lemma node_map_reordered:
  assumes "mset ns' = mset ns" and "distinct (map node_id ns)"
  shows "hm_get (node_map ns') = hm_get (node_map ns)"
proof -
  let ?f = "\<lambda>n. (node_id n, n)"
  have "mset (rev (map ?f ns')) = mset (rev (map ?f ns))"
    using assms(1) by simp
  moreover have "distinct (map fst (rev (map ?f ns)))"
    using assms(2) by (simp add: rev_map [symmetric] comp_def)
  ultimately show ?thesis
    unfolding node_map_get by (rule map_of_mset)
qed

lemma succs_cong: "hm_get m' = hm_get m \<Longrightarrow> succs m' = succs m"
  by (simp add: succs_def fun_eq_iff)

lemma leg_at_cong: "hm_get m' = hm_get m \<Longrightarrow> leg_at m' = leg_at m"
  by (simp add: leg_at_def fun_eq_iff)

lemma walk_ids_cong:
  assumes "hm_get m' = hm_get m"
  shows "walk_ids m' stack seen = walk_ids m stack seen"
proof -
  have "succs m' = succs m" by (rule succs_cong) (rule assms)
  then show ?thesis
    by (induction stack seen rule: walk_ids_induct [where m = m]) (simp_all add: walk_ids_Cons)
qed

lemma leg_ancestors_cong: "hm_get m' = hm_get m \<Longrightarrow> leg_ancestors m' x = leg_ancestors m x"
  by (simp only: leg_ancestors_ids walk_ids_cong [of m' m] leg_at_cong [of m' m])

lemma interior_checks_cong:
  "map_of (recomputed e') (node_id n) = map_of (recomputed e) (node_id n) \<Longrightarrow>
     interior_checks e' n ip = interior_checks e n ip"
  by (cases ip) (simp add: interior_checks_def find_fst_map_of)

definition recomputed_alike :: "expectation \<Rightarrow> expectation \<Rightarrow> bool" where
  "recomputed_alike e e' \<longleftrightarrow>
     (\<exists>rs. e' = e\<lparr>recomputed := rs\<rparr> \<and> map_of rs = map_of (recomputed e))"

lemma node_checks_cong:
  assumes "hm_get m' = hm_get m" and "recomputed_alike e e'"
  shows "node_checks L m' e' n = node_checks L m e n"
proof -
  obtain rs where e': "e' = e\<lparr>recomputed := rs\<rparr>" and rs: "map_of rs = map_of (recomputed e)"
    using assms(2) unfolding recomputed_alike_def by blast
  have "interior_checks e' n ip = interior_checks e n ip" for ip
    using rs by (intro interior_checks_cong) (simp add: e')
  moreover have "leg_checks L e' n att = leg_checks L e n att" for att
    by (simp add: e' leg_checks_def)
  ultimately show ?thesis
    using assms(1) by (simp add: node_checks_def edge_checks_def split: node_proof.split)
qed

section \<open>The same checks\<close>

lemma verify_reordered:
  assumes "reordered r r'" and "distinct (map node_id (nodes r))" and "recomputed_alike e e'"
  shows "mset (verify L r' e') = mset (verify L r e)"
proof -
  have m: "hm_get (node_map (nodes r')) = hm_get (node_map (nodes r))"
    using assms(1,2) by (auto simp: reordered_def intro: node_map_reordered)
  have "mset (concat (map (node_checks L (node_map (nodes r')) e') (nodes r')))
      = mset (concat (map (node_checks L (node_map (nodes r)) e) (nodes r)))"
    using assms(1) node_checks_cong [OF m assms(3)] by (simp add: mset_concat_map reordered_def)
  moreover obtain rs where "e' = e\<lparr>recomputed := rs\<rparr>"
    using assms(3) unfolding recomputed_alike_def by blast
  ultimately show ?thesis
    using assms(1) m leg_ancestors_cong [OF m]
    by (simp add: verify_def Let_def reordered_def split: option.split)
qed

lemma committed_reordered:
  assumes "reordered r r'" and "distinct (map node_id (nodes r))"
  shows "hm_get (committed_digests r') = hm_get (committed_digests r)"
proof -
  let ?f = "\<lambda>n. (node_id n, output_digest n)"
  have "mset (rev (map ?f (nodes r'))) = mset (rev (map ?f (nodes r)))"
    using assms(1) by (simp add: reordered_def)
  moreover have "distinct (map fst (rev (map ?f (nodes r))))"
    using assms(2) by (simp add: rev_map [symmetric] comp_def)
  ultimately show ?thesis
    unfolding committed_digests_def hm_get_collect by (rule map_of_mset)
qed

lemma materials_reordered:
  assumes "reordered r r'" and "distinct (map node_id (nodes r))"
  shows "material_checks L r' m = material_checks L r m"
    and "trusted_materials L r' m = trusted_materials L r m"
proof -
  have "material_ok L (committed_digests r') = material_ok L (committed_digests r)"
    by (simp add: material_ok_def committed_reordered [OF assms])
  then show "material_checks L r' m = material_checks L r m"
    and "trusted_materials L r' m = trusted_materials L r m"
    by (simp_all add: material_checks_def trusted_materials_def)
qed

lemma mset_map_filter: "mset (List.map_filter f xs) = image_mset the (filter_mset (\<lambda>y. y \<noteq> None) (image_mset f (mset xs)))"
  by (induction xs) (auto simp: List.map_filter_simps split: option.split)

lemma recompute_all_ids:
  "distinct (map node_id (nodes r)) \<Longrightarrow> distinct (map fst (recompute_all L J r t))"
proof -
  have *: "recompute_node L J t n = Some (i, d) \<Longrightarrow> i = node_id n" for n i d
    by (auto simp: recompute_node_def split: node_proof.splits interior_proof.splits option.splits)
  have sub: "fst ` set (List.map_filter (recompute_node L J t) ns) \<subseteq> node_id ` set ns" for ns
    by (induction ns) (auto simp: List.map_filter_simps split: option.splits dest!: *)
  have "distinct (map node_id ns) \<Longrightarrow> distinct (map fst (List.map_filter (recompute_node L J t) ns))" for ns
  proof (induction ns)
    case (Cons n ns)
    then show ?case
      using sub [of ns] by (auto simp: List.map_filter_simps split: option.splits dest!: *)
  qed (simp add: List.map_filter_simps)
  then show "distinct (map node_id (nodes r)) \<Longrightarrow> distinct (map fst (recompute_all L J r t))"
    by (simp add: recompute_all_def)
qed

lemma expectation_reordered:
  assumes "reordered r r'" and "distinct (map node_id (nodes r))"
  shows "recomputed_alike (buyer_expectation L J k h q p body r m) (buyer_expectation L J k h q p body r' m)"
proof -
  let ?t = "trusted_materials L r m"
  have "mset (recompute_all L J r' ?t) = mset (recompute_all L J r ?t)"
    using assms(1) by (simp add: recompute_all_def mset_map_filter reordered_def)
  then have "map_of (recompute_all L J r' ?t) = map_of (recompute_all L J r ?t)"
    using recompute_all_ids [OF assms(2)] by (rule map_of_mset)
  then show ?thesis
    by (auto simp: recomputed_alike_def buyer_expectation_def materials_reordered [OF assms])
qed

lemma judge_bundle_reordered:
  assumes "reordered r r'" and "distinct (map node_id (nodes r))"
  shows "(\<exists>cs. judge_bundle L J k h q p body r' m = Verified cs) \<longleftrightarrow>
         (\<exists>cs. judge_bundle L J k h q p body r m = Verified cs)"
proof -
  let ?all = "\<lambda>r. material_checks L r m @ verify L r (buyer_expectation L J k h q p body r m)"
  have "mset (?all r') = mset (?all r)"
    using verify_reordered [OF assms expectation_reordered [OF assms]]
    by (simp add: materials_reordered [OF assms])
  then have "set (?all r') = set (?all r)"
    by (rule mset_eq_setD)
  then show ?thesis
    by (simp add: judge_bundle_def Let_def del: set_append)
qed

end
