(* ===== verification/Verifier_Properties.thy ===== *)
theory Verifier_Properties
  imports Reference_Run Limits Leg_Search Node_Order
begin

text \<open>
  Properties of the verifier, of the attestation it checks and of the receipts it accepts,
  the ones it should not have been expected to reject included.
\<close>

section \<open>The verifier is its specification\<close>

text \<open>
  C7. The settlement gate opens exactly when the receipt is for the pinned manifest and this
  payment, its output node exists and has the digest of the delivered bytes, every leg the
  output depends on (there is one) answers the buyer's request, every edge resolves, every leg
  is self-consistent, for a pinned host, under the pinned key and the source of its node's
  digest, and every computed node has the digest the recomputation gives.
\<close>

theorem gate_opens_iff:
  "gate L r e \<longleftrightarrow>
     manifest_id r = manifest_ident (exp_manifest e) \<and>
     (\<exists>out. hm_get (node_map (nodes r)) (output_node r) = Some out
        \<and> output_digest out = served_output_digest e) \<and>
     payment_reference r = Some (exp_payment_reference e) \<and>
     (\<forall>req. served_request_digest e = Some req \<longrightarrow>
        ancestor_legs (node_map (nodes r)) (output_node r) \<noteq> {} \<and>
        (\<forall>att \<in> ancestor_legs (node_map (nodes r)) (output_node r). request_digest (claim att) = req)) \<and>
     (\<forall>n \<in> set (nodes r). set (inputs n) \<subseteq> node_id ` set (nodes r) \<and>
        (\<forall>att. node_proof_of n = Leg att \<longrightarrow>
           verify_proof L att = Inr () \<and> host (claim att) \<in> set (hosts (exp_manifest e)) \<and>
           output_digest n = response_digest (claim att) \<and>
           (\<forall>pin. exp_notary_pubkey e = Some pin \<longrightarrow> notary_pubkey att = Some pin)) \<and>
        (\<forall>ip. node_proof_of n = Interior ip \<longrightarrow> map_of (recomputed e) (node_id n) = Some (output_digest n)))"
proof -
  have ok: "verify_proof L att = Inr () \<longleftrightarrow> (\<exists>pk. signed_under L pk att)" for att
    using verify_proof_ok_iff [of L att] by (simp add: is_ok_iff)
  have node: "node_accepted L r e n \<longleftrightarrow>
      set (inputs n) \<subseteq> node_id ` set (nodes r) \<and>
        (\<forall>att. node_proof_of n = Leg att \<longrightarrow>
           verify_proof L att = Inr () \<and> host (claim att) \<in> set (hosts (exp_manifest e)) \<and>
           output_digest n = response_digest (claim att) \<and>
           (\<forall>pin. exp_notary_pubkey e = Some pin \<longrightarrow> notary_pubkey att = Some pin)) \<and>
        (\<forall>ip. node_proof_of n = Interior ip \<longrightarrow> map_of (recomputed e) (node_id n) = Some (output_digest n))"
    for n
    by (cases "node_proof_of n") (simp_all add: node_accepted_def ok notary_pubkey_eq)
  show ?thesis
    unfolding gate_accepts accepts_def node ..
qed

theorem gate_opens_iff_witness:
  "gate ref_libs ref_receipt ref_expectation \<and> manifest_id ref_receipt = manifest_ident (exp_manifest ref_expectation)"
  using gate_opens_iff [of ref_libs ref_receipt ref_expectation] ref_run_accepted by blast

text \<open>
  C8. The search for the legs behind the output ends, visits exactly the nodes reachable
  along the inputs of computed nodes, each once, and collects exactly the legs among them,
  also on cyclic graphs and dangling ids.
\<close>

theorem leg_ancestors_exact:
  "\<exists>ids. distinct ids \<and> set ids = {x. (start, x) \<in> (depends m)\<^sup>*} \<and>
     leg_ancestors m start = List.map_filter (leg_at m) ids \<and>
     set (leg_ancestors m start) = ancestor_legs m start"
  using leg_ancestors_listing [of start m] set_leg_ancestors by metis

text \<open>
  An accepted receipt under a pinned key: every leg anywhere in it is signed by that key
  over its own claim, for one of the pinned hosts, and is the source of its node's digest.
\<close>

theorem accepted_legs_pinned:
  assumes "gate L r e" and "exp_notary_pubkey e = Some pin"
    and "n \<in> set (nodes r)" and "node_proof_of n = Leg att"
  shows "\<exists>pk vk sig. hex_decode L pin = Some pk \<and> vk_from_bytes L pk = Some vk \<and>
      vk_verify L vk (signing_message L (claim att)) sig \<and>
      host (claim att) \<in> set (hosts (exp_manifest e)) \<and> output_digest n = response_digest (claim att)"
proof -
  have acc: "accepts L r e" using assms(1) by (simp add: gate_accepts)
  obtain pk where "signed_under L pk att"
    using accepts_leg(1) [OF acc assms(3,4)] by blast
  then show ?thesis
    using accepts_leg(2-4) [OF acc assms(3,4)] assms(2) unfolding signed_under_def by auto
qed

theorem accepted_legs_pinned_witness:
  "\<exists>pk. hex_decode ref_libs (public_key_hex ref_libs ref_notary) = Some pk"
proof -
  have "exp_notary_pubkey ref_expectation = Some (public_key_hex ref_libs ref_notary)"
      and "nodes ref_receipt ! 0 \<in> set (nodes ref_receipt)"
      and "node_proof_of (nodes ref_receipt ! 0) = Leg ref_leg"
    by (simp_all add: ref_expectation_def ref_receipt_def make_bundle_def)
  from accepted_legs_pinned [OF ref_run_accepted this] show ?thesis by blast
qed

section \<open>Attestations\<close>

text \<open>
  A leg the notary attests passes every check the verifier makes on it, for an expectation
  that allows its host, commits its response digest and pins this notary's key or none.
\<close>

theorem attested_leg_passes:
  assumes "hex_law L" and "ed25519_law L" and "sha256_law L"
    and "host c \<in> set (hosts (exp_manifest e))" and "output_digest n = response_digest c"
    and "exp_notary_pubkey e = None \<or> exp_notary_pubkey e = Some (public_key_hex L (from_seed L seed))"
  shows "\<forall>k \<in> set (leg_checks L e n (attest L (from_seed L seed) c)). passed k"
  using notary.make_leg_checks [of "(L, from_seed L seed)" c e n] from_seed_ready [of L seed] assms
  by (simp add: all_passed_def)

theorem attested_leg_passes_witness:
  "all_passed (leg_checks ref_libs ref_expectation (nodes ref_receipt ! 0)
      (attest ref_libs (from_seed ref_libs ''demo-notary-key'') ref_claim))"
  unfolding all_passed_def
  by (rule attested_leg_passes)
    (simp_all add: ref_expectation_def ref_receipt_def make_bundle_def ref_claim_def ref_leg_def ref_notary_def)

text \<open>
  Tampering with an attested claim is caught unless the signature made for the old claim
  also verifies over the new claim's message, which is a different message.
\<close>

theorem tampered_claim_rejected:
  assumes "hex_law L" and "ed25519_law L" and "claim_json_law L" and "length (signing_key n) = 32"
    and "c' \<noteq> c"
  shows "signing_message L c' \<noteq> signing_message L c \<and>
    (verify_proof L ((attest L n c)\<lparr>claim := c'\<rparr>) = Inl BadSignature \<or>
     vk_verify L (sk_public L (signing_key n)) (signing_message L c')
       (sk_sign L (signing_key n) (signing_message L c)))"
  using assms by (simp add: verify_proof_exchanged signing_message_eq_iff)

theorem tampered_claim_rejected_witness:
  "signing_message ref_libs (ref_claim\<lparr>host := ''evil''\<rparr>) \<noteq> signing_message ref_libs ref_claim"
proof -
  have "ref_claim\<lparr>host := ''evil''\<rparr> \<noteq> ref_claim" by (simp add: ref_claim_def)
  then show ?thesis
    using tampered_claim_rejected [of ref_libs ref_notary "ref_claim\<lparr>host := ''evil''\<rparr>" ref_claim]
    by (simp add: ref_key_length)
qed

section \<open>What acceptance does not say\<close>

text \<open>
  C36. The verdict can be forged by the seller: with one more input in front of the leg, the
  buyer accepts the verdict 0 whatever the notarized answer is, because neither the manifest
  nor the expectation pins the shape of the graph.
\<close>

theorem decoy_verdict_accepted:
  assumes "signed_under L pk leg" and "host (claim leg) = h" and "proof_pubkey (leg_proof_of leg) = k"
    and "request_digest (claim leg) = q" and "response_digest (claim leg) = sha256_hex L answer"
    and "starts_with_yes J [] = ''0''" and "starts_with_yes J ''0'' = ''0''"
  shows "\<exists>cs. judge_bundle L J k h q p ''0'' (decoy_receipt L leg p)
           [(''decoy'', ''0''), (''leg0'', answer)] = Verified cs"
  using assms by (rule decoy_receipt_verified)

theorem decoy_verdict_accepted_witness:
  "(\<exists>cs. judge_bundle ref_libs ref_json (public_key_hex ref_libs ref_notary) ''api.anthropic.com''
      (sha256_hex ref_libs ref_request) ''0xabc'' ''0'' (decoy_receipt ref_libs ref_signed ''0xabc'')
      [(''decoy'', ''0''), (''leg0'', ref_answer ''Yes'')] = Verified cs)
   \<and> starts_with_yes ref_json (ref_answer ''Yes'') = ''1''"
proof -
  have "starts_with_yes ref_json [] = ''0''" and "starts_with_yes ref_json ''0'' = ''0''"
    by code_simp+
  with decoy_verdict_accepted [OF ref_signed_under, of "''api.anthropic.com''"
      "public_key_hex ref_libs ref_notary" "sha256_hex ref_libs ref_request" "ref_answer ''Yes''"
      ref_json "''0xabc''"] show ?thesis
    by (simp add: ref_signed_claim ref_verdict)
qed

text \<open>
  A receipt whose sold node is its own input is accepted: the verifier does not require
  the graph to be acyclic, and the verdict is again the seller's choice.
\<close>

theorem cyclic_receipt_accepted:
  assumes "signed_under L pk leg" and "host (claim leg) = h" and "proof_pubkey (leg_proof_of leg) = k"
    and "request_digest (claim leg) = q" and "response_digest (claim leg) = sha256_hex L answer"
    and "starts_with_yes J ''0'' = ''0''"
  shows "(''verdict'', ''verdict'') \<in> depends (node_map (nodes (cyclic_receipt L leg p))) \<and>
     (\<exists>cs. judge_bundle L J k h q p ''0'' (cyclic_receipt L leg p)
             [(''leg0'', answer), (''verdict'', ''0'')] = Verified cs)"
  using cyclic_receipt_edge cyclic_receipt_verified [OF assms] by blast

theorem cyclic_receipt_accepted_witness:
  "\<exists>cs. judge_bundle ref_libs ref_json (public_key_hex ref_libs ref_notary) ''api.anthropic.com''
      (sha256_hex ref_libs ref_request) ''0xabc'' ''0'' (cyclic_receipt ref_libs ref_signed ''0xabc'')
      [(''leg0'', ref_answer ''Yes''), (''verdict'', ''0'')] = Verified cs"
proof -
  have "starts_with_yes ref_json ''0'' = ''0''" by code_simp
  with cyclic_receipt_accepted [OF ref_signed_under, of "''api.anthropic.com''"
      "public_key_hex ref_libs ref_notary" "sha256_hex ref_libs ref_request" "ref_answer ''Yes''"
      ref_json "''0xabc''"] show ?thesis
    by (simp add: ref_signed_claim)
qed

text \<open>
  C39. With the sold node's id used twice, the node the verifier looks up may name any
  transform: the buyer's recomputation of the other node passes for it.
\<close>

theorem shadowed_transform_accepted:
  assumes "signed_under L pk leg" and "host (claim leg) = h" and "proof_pubkey (leg_proof_of leg) = k"
    and "request_digest (claim leg) = q" and "response_digest (claim leg) = sha256_hex L answer"
  shows "hm_get (node_map (nodes (shadow_receipt L leg (starts_with_yes J answer) f p))) ''verdict''
       = Some \<lparr>node_id = ''verdict'', inputs = [''leg0''],
               output_digest = sha256_hex L (starts_with_yes J answer),
               node_proof_of = Interior (Recompute f)\<rparr> \<and>
     (\<exists>cs. judge_bundle L J k h q p (starts_with_yes J answer)
             (shadow_receipt L leg (starts_with_yes J answer) f p) [(''leg0'', answer)] = Verified cs)"
  using shadow_receipt_verified [OF assms] by (simp add: node_map_get shadow_receipt_nodes)

theorem shadowed_transform_accepted_witness:
  "\<exists>cs. judge_bundle ref_libs ref_json (public_key_hex ref_libs ref_notary) ''api.anthropic.com''
      (sha256_hex ref_libs ref_request) ''0xabc'' ''1''
      (shadow_receipt ref_libs ref_signed ''1'' ''no_such_transform'' ''0xabc'')
      [(''leg0'', ref_answer ''Yes'')] = Verified cs"
  using shadowed_transform_accepted [OF ref_signed_under, of "''api.anthropic.com''"
      "public_key_hex ref_libs ref_notary" "sha256_hex ref_libs ref_request" "ref_answer ''Yes''"
      ref_json "''no_such_transform''" "''0xabc''"]
  by (simp add: ref_signed_claim ref_verdict)

text \<open>
  Without a key pinned out of band the receipt proves nothing about the upstream: a seller
  whose own key the buyer took can sell any answer, for any request and host, as verified.
\<close>

theorem self_notarized_accepted:
  assumes "hex_law L" and "ed25519_law L" and "sha256_law L"
  shows "\<exists>leg cs. host (claim leg) = h \<and>
     judge_bundle L J (public_key_hex L (from_seed L seed)) h q p (starts_with_yes J answer)
       (make_bundle leg (sha256_hex L (starts_with_yes J answer)) p) [(''leg0'', answer)] = Verified cs"
  by (rule self_notarized_verified [OF from_seed_ready [OF assms]])

theorem self_notarized_accepted_witness:
  "\<exists>leg cs. host (claim leg) = ''api.anthropic.com'' \<and>
     judge_bundle ref_libs ref_json (public_key_hex ref_libs (from_seed ref_libs ''mallory''))
       ''api.anthropic.com'' ''q'' ''0xabc'' (starts_with_yes ref_json ''x'')
       (make_bundle leg (sha256_hex ref_libs (starts_with_yes ref_json ''x'')) ''0xabc'') [(''leg0'', ''x'')]
     = Verified cs"
  by (rule self_notarized_accepted) simp_all

text \<open>
  Method, path, status and time of an attested exchange are signed and then looked at by
  nobody: two attestations of the notary that differ in them only are accepted alike.
\<close>

theorem claim_fields_unchecked:
  assumes "hex_law L" and "ed25519_law L" and "length (signing_key n) = 32"
  shows "gate L (make_bundle (attest L n c) d p) e \<longleftrightarrow>
     gate L (make_bundle (attest L n (c\<lparr>http_method := m, path := q, response_status := s,
                                        timestamp := t\<rparr>)) d p) e"
  unfolding gate_accepts
  by (rule accepts_bundle_fields) (simp add: notary_ready_def assms)

theorem claim_fields_unchecked_witness:
  "gate ref_libs (make_bundle (attest ref_libs ref_notary (ref_claim\<lparr>http_method := ''GET'', path := ''/'',
        response_status := 500, timestamp := ''0''\<rparr>)) (sha256_hex ref_libs ''1'') ''0xabc'') ref_expectation"
  using claim_fields_unchecked [where L = ref_libs and n = ref_notary and c = ref_claim
      and d = "sha256_hex ref_libs ''1''" and p = "''0xabc''" and e = ref_expectation
      and m = "''GET''" and q = "''/''" and s = 500 and t = "''0''"] ref_run_accepted
  by (simp add: ref_key_length ref_receipt_def ref_leg_def)


section \<open>The search and the shape of the graph\<close>

text \<open>
  C9. The search for the legs behind the output ends after a number of iterations that is known
  beforehand: one for the output and one for every edge out of a computed node it reaches,
  hence at most one more than the receipt has edges, whatever the seller put into it: cycles,
  repeated ids, edges to nowhere.
\<close>

theorem leg_search_iterations:
  assumes "m = node_map (nodes r)"
  shows "\<exists>k seen. (search_step m ^^ k) ([output_node r], {}, []) = ([], seen, leg_ancestors m (output_node r)) \<and>
     (\<forall>j<k. fst ((search_step m ^^ j) ([output_node r], {}, [])) \<noteq> []) \<and>
     k = 1 + (\<Sum>x \<in> {x. (output_node r, x) \<in> (depends m)\<^sup>*}. length (succs m x)) \<and>
     k \<le> 1 + sum_list (map (\<lambda>n. length (inputs n)) (nodes r))"
proof -
  let ?ids = "walk_ids m [output_node r] {}"
  have "edges_from m ?ids = (\<Sum>x \<in> {x. (output_node r, x) \<in> (depends m)\<^sup>*}. length (succs m x))"
    using edges_from_set [of ?ids m] walk_ids_distinct [of m "[output_node r]" "{}"]
    unfolding walk_ids_reachable by blast
  moreover have "edges_from m ?ids \<le> sum_list (map (\<lambda>n. length (inputs n)) (nodes r))"
    using edges_from_set [of ?ids m] walk_ids_distinct [of m "[output_node r]" "{}"]
      edges_bound [of "set ?ids" "nodes r"] by (simp add: assms)
  ultimately show ?thesis
    using search_ends [of m "[output_node r]" "{}" "[]"]
    by (auto simp: ends_after_def leg_ancestors_def)
qed

theorem leg_search_iterations_witness:
  "\<exists>k seen. (search_step (node_map (nodes (bought_receipt ref_bought))) ^^ k) ([''verdict''], {}, []) =
       ([], seen, leg_ancestors (node_map (nodes (bought_receipt ref_bought))) ''verdict'') \<and> k \<le> 2"
proof -
  let ?r = "bought_receipt ref_bought"
  have "output_node ?r = ''verdict''" and "sum_list (map (\<lambda>n. length (inputs n)) (nodes ?r)) = 1"
    by (simp_all add: ref_bought_def make_bundle_def)
  with leg_search_iterations [OF refl, of ?r] show ?thesis
    by (metis one_add_one)
qed

text \<open>
  C10. The order in which the seller lists the nodes does not matter: for receipts with distinct
  ids that differ in it only, the verifier makes the same checks with the same outcomes, and
  the buyer accepts both or neither.
\<close>

theorem node_order_irrelevant:
  assumes "distinct (map node_id (nodes r))" and "mset (nodes r') = mset (nodes r)"
    and "manifest_id r' = manifest_id r" and "output_node r' = output_node r"
    and "payment_reference r' = payment_reference r"
  shows "mset (verify L r' e) = mset (verify L r e) \<and>
     ((\<exists>cs. judge_bundle L J k h q p body r' m = Verified cs) \<longleftrightarrow>
      (\<exists>cs. judge_bundle L J k h q p body r m = Verified cs))"
proof -
  have r: "reordered r r'" using assms(2-5) by (simp add: reordered_def)
  have "recomputed_alike e e"
    unfolding recomputed_alike_def by (intro exI [of _ "recomputed e"]) simp
  from verify_reordered [OF r assms(1) this] judge_bundle_reordered [OF r assms(1)]
  show ?thesis by blast
qed

theorem node_order_irrelevant_witness:
  "\<exists>cs. judge_bundle ref_libs ref_json (public_key_hex ref_libs ref_notary) ''api.anthropic.com''
     (bought_request ref_bought) (bought_payment ref_bought) (bought_body ref_bought)
     (bought_receipt ref_bought \<lparr>nodes := rev (nodes (bought_receipt ref_bought))\<rparr>)
     (bought_materials ref_bought) = Verified cs"
proof -
  have "distinct (map node_id (nodes (bought_receipt ref_bought)))"
    by (simp add: ref_bought_def make_bundle_def)
  from conjunct2 [OF node_order_irrelevant [OF this, of "bought_receipt ref_bought
      \<lparr>nodes := rev (nodes (bought_receipt ref_bought))\<rparr>", of ref_libs undefined ref_json]]
  show ?thesis
    using ref_buyer_verifies by (simp add: buyer_verifies_def ref_config_def)
qed

end
