(* ===== verification/Http_Grammar.thy ===== *)
theory Http_Grammar
  imports Http_Message
begin

text \<open>
  HTTP/1.1 messages as a sender builds them, after the grammar of RFC 9112: a start line,
  header fields, and a body that is sent plainly or in chunks. This is the specification the
  reading functions of \<open>tlsn/notary/src/main.rs\<close> are measured against: what they read from the
  wire form of a message is what the message says, its payload and the words of its start line.
\<close>

datatype framing =
    Plain bytes
  | Chunks "(string \<times> bytes) list" string bytes
      \<comment> \<open>extension and data of each chunk, extension of the last chunk, trailer section\<close>

record http_message =
  start_words :: "string \<times> string \<times> string"
    \<comment> \<open>method, target and version, or version, status and reason\<close>
  header_fields :: "(string \<times> string) list"
  framing_of :: framing

primrec framed :: "framing \<Rightarrow> bytes" where
  "framed (Plain b) = b"
| "framed (Chunks cs e t) =
     chunked (map (\<lambda>(ext, d). (show_radix 16 (length d) @ ext, d)) cs) @ ''0'' @ e @ crlf @ t"

primrec payload_of :: "framing \<Rightarrow> bytes" where
  "payload_of (Plain b) = b"
| "payload_of (Chunks cs e t) = concat (map snd cs)"

definition start_line :: "http_message \<Rightarrow> string" where
  "start_line m = (case start_words m of (a, b, c) \<Rightarrow> a @ '' '' @ b @ '' '' @ c)"

definition field_line :: "string \<times> string \<Rightarrow> string" where
  "field_line f = (case f of (n, v) \<Rightarrow> n @ '':'' @ v)"

definition lines_head :: "string list \<Rightarrow> bytes" where
  "lines_head ls = concat (map (\<lambda>l. l @ crlf) ls) @ crlf"

definition message_head :: "http_message \<Rightarrow> bytes" where
  "message_head m = lines_head (start_line m # map field_line (header_fields m))"

definition message_body :: "http_message \<Rightarrow> bytes" where
  "message_body m = payload_of (framing_of m)"

definition wire_form :: "http_message \<Rightarrow> bytes" where
  "wire_form m = message_head m @ framed (framing_of m)"

text \<open>
  Well-formed messages: no line ends inside of lines, ASCII header values without line folding,
  chunk sizes in lower-case hexadecimal without leading zeros; and the header fields declare the
  framing that is used. A plain body is all that follows the head: the reader does not look at a
  \<open>Content-Length\<close>, and none is required here.
\<close>

definition plain_text :: "string \<Rightarrow> bool" where
  "plain_text s \<longleftrightarrow> ascii s \<and> CHR 0x0D \<notin> set s \<and> CHR 0x0A \<notin> set s"

definition token :: "string \<Rightarrow> bool" where
  "token s \<longleftrightarrow> (\<forall>c \<in> set s. graphic c \<and> c \<noteq> CHR '':'')"

definition declares_chunked :: "string \<times> string \<Rightarrow> bool" where
  "declares_chunked f \<longleftrightarrow>
     to_ascii_lowercase (fst f) = ''transfer-encoding'' \<and> sublist ''chunked'' (to_ascii_lowercase (snd f))"

definition chunk_ext :: "string \<Rightarrow> bool" where
  "chunk_ext e \<longleftrightarrow> (e = [] \<or> hd e = CHR '';'') \<and> CHR 0x0D \<notin> set e"

primrec framing_ok :: "framing \<Rightarrow> bool" where
  "framing_ok (Plain b) = True"
| "framing_ok (Chunks cs e t) =
     ((\<forall>(ext, d) \<in> set cs. d \<noteq> [] \<and> length d < 2 ^ 64 \<and> chunk_ext ext) \<and> chunk_ext e)"

definition head_ok :: "http_message \<Rightarrow> bool" where
  "head_ok m \<longleftrightarrow>
     (case start_words m of (a, b, c) \<Rightarrow>
        token a \<and> a \<noteq> [] \<and> (\<forall>x \<in> set b. graphic x) \<and> b \<noteq> [] \<and> plain_text c) \<and>
     (\<forall>(n, v) \<in> set (header_fields m). token n \<and> plain_text v)"

definition well_formed :: "http_message \<Rightarrow> bool" where
  "well_formed m \<longleftrightarrow> head_ok m \<and> framing_ok (framing_of m) \<and>
     ((\<exists>f \<in> set (header_fields m). declares_chunked f) \<longleftrightarrow> (\<exists>cs e t. framing_of m = Chunks cs e t))"

section \<open>Heads\<close>

lemma occurs_at_append:
  "occurs_at pat (a @ b) (length a + i) \<longleftrightarrow> occurs_at pat b i"
  by (simp add: occurs_at_def)

lemma lines_head_Cons: "lines_head (l # ls) = l @ crlf @ lines_head ls"
  by (simp add: lines_head_def)

lemma lines_head_start: "\<forall>l \<in> set ls. l \<noteq> [] \<and> CHR 0x0D \<notin> set l \<Longrightarrow> ls \<noteq> [] \<Longrightarrow> lines_head ls ! 0 \<noteq> CHR 0x0D"
  by (cases ls; cases "hd ls") (auto simp: lines_head_Cons)

text \<open>The first empty line of a head is its last line.\<close>

lemma first_end_of_head:
  assumes "\<forall>l \<in> set ls. l \<noteq> [] \<and> CHR 0x0D \<notin> set l" and "occurs_at (crlf @ crlf) (lines_head ls) j"
  shows "length (lines_head ls) \<le> j + 4"
  using assms
proof (induction ls arbitrary: j)
  case Nil
  then show ?case by (simp add: lines_head_def occurs_at_def)
next
  case (Cons l ls)
  have at: "lines_head (l # ls) ! (j + t) = (crlf @ crlf) ! t" if "t < 4" for t
    using Cons.prems(2) that by (simp add: occurs_at_nth)
  have "length l \<le> j"
  proof (rule ccontr)
    assume "\<not> length l \<le> j"
    then have "l ! j = CHR 0x0D" and "j < length l"
      using at [of 0] by (simp_all add: lines_head_Cons nth_append crlf_def)
    then show False using Cons.prems(1) nth_mem by fastforce
  qed
  then obtain i where j: "j = length l + i" using le_Suc_ex by blast
  show ?case
  proof (cases "ls = []")
    case True
    then show ?thesis using j by (simp add: lines_head_def)
  next
    case False
    then have start: "lines_head ls ! 0 \<noteq> CHR 0x0D"
      using Cons.prems(1) by (intro lines_head_start) simp_all
    have rest: "(crlf @ lines_head ls) ! (i + t) = (crlf @ crlf) ! t" if "t < 4" for t
      using at [OF that] by (simp add: lines_head_Cons j nth_append)
    have "i \<noteq> 0"
    proof
      assume "i = 0"
      with rest [of 2] start show False by (simp add: crlf_def)
    qed
    moreover have "i \<noteq> 1" using rest [of 0] by (auto simp: crlf_def)
    ultimately obtain k where k: "i = 2 + k"
      by (metis One_nat_def Suc_1 add_2_eq_Suc not0_implies_Suc)
    have "occurs_at (crlf @ crlf) (lines_head ls) k"
      using Cons.prems(2) occurs_at_append [of "crlf @ crlf" "l @ crlf" "lines_head ls" k]
      by (simp add: lines_head_Cons j k add.assoc)
    with Cons.IH Cons.prems(1) have "length (lines_head ls) \<le> k + 4" by simp
    then show ?thesis by (simp add: lines_head_Cons j k)
  qed
qed

lemma http_head_lines:
  assumes "\<forall>l \<in> set ls. l \<noteq> [] \<and> CHR 0x0D \<notin> set l" and "ls \<noteq> []"
  shows "http_head (lines_head ls)"
proof -
  have ls: "lines_head ls = concat (map (\<lambda>l. l @ crlf) (butlast ls)) @ last ls @ crlf @ crlf"
    using assms(2) by (cases ls rule: rev_cases) (simp_all add: lines_head_def)
  have "occurs_at (crlf @ crlf) (lines_head ls) (length (lines_head ls) - 4)"
    unfolding occurs_at_split
    by (rule exI [of _ "concat (map (\<lambda>l. l @ crlf) (butlast ls)) @ last ls"]) (simp add: ls)
  moreover have "4 \<le> length (lines_head ls)" by (simp add: ls)
  ultimately show ?thesis
    using first_end_of_head [OF assms(1)] by (fastforce simp: http_head_iff)
qed

section \<open>Header lines\<close>

text \<open>Folding the case changes letters only.\<close>

lemma ascii_lower_eq:
  assumes "\<not> (65 \<le> byte_val d \<and> byte_val d \<le> 90)" and "\<not> (97 \<le> byte_val d \<and> byte_val d \<le> 122)"
  shows "ascii_lower c = d \<longleftrightarrow> c = d"
  unfolding char_eq_byte_val [of _ d] byte_val_ascii_lower using assms by auto

lemma in_lowercase:
  assumes "\<not> (65 \<le> byte_val d \<and> byte_val d \<le> 90)" and "\<not> (97 \<le> byte_val d \<and> byte_val d \<le> 122)"
  shows "d \<in> set (to_ascii_lowercase s) \<longleftrightarrow> d \<in> set s"
proof -
  have "d = ascii_lower c \<longleftrightarrow> d = c" for c using ascii_lower_eq [OF assms, of c] by metis
  then show ?thesis by (induction s) (simp_all add: to_ascii_lowercase_def)
qed

lemma lowercase_append: "to_ascii_lowercase (a @ b) = to_ascii_lowercase a @ to_ascii_lowercase b"
  by (simp add: to_ascii_lowercase_def)

lemma lowercase_crlf: "to_ascii_lowercase crlf = crlf"
  by (simp add: crlf_def to_ascii_lowercase_def ascii_lower_def)

lemma lowercase_lines_head: "to_ascii_lowercase (lines_head ls) = lines_head (map to_ascii_lowercase ls)"
  by (induction ls) (simp_all add: lines_head_Cons lowercase_append lowercase_crlf, simp add: lines_head_def lowercase_crlf)

lemma str_lines_head:
  "\<forall>l \<in> set ls. CHR 0x0A \<notin> set l \<Longrightarrow> str_lines (lines_head ls) = ls @ [[]]"
proof (induction ls)
  case Nil
  show ?case by code_simp
next
  case (Cons l ls)
  have "str_lines ((l @ [CHR 0x0D]) @ CHR 0x0A # lines_head ls) = strip_cr (l @ [CHR 0x0D]) # str_lines (lines_head ls)"
    using Cons.prems by (intro str_lines_line(2)) simp
  with Cons show ?case by (simp add: lines_head_Cons crlf_def strip_cr_def)
qed

lemma chunked_head_iff:
  assumes "\<forall>l \<in> set ls. plain_text l"
  shows "header_is_chunked (lines_head ls) \<longleftrightarrow> (\<exists>l \<in> set ls. chunked_line (to_ascii_lowercase l))"
proof -
  have "ascii (lines_head ls)"
    using assms by (auto simp: lines_head_def plain_text_def ascii_def crlf_def)
  moreover have "str_lines (lines_head (map to_ascii_lowercase ls)) = map to_ascii_lowercase ls @ [[]]"
    using assms by (intro str_lines_head) (simp add: plain_text_def LF_in_lowercase)
  moreover have "\<not> chunked_line []" by (simp add: chunked_line_def)
  ultimately show ?thesis
    by (auto simp: header_is_chunked_lines lowercase_lines_head)
qed

lemma prefix_up_to:
  assumes "x \<notin> set a" and "x \<notin> set b"
  shows "prefix (a @ [x]) (b @ x # r) \<longleftrightarrow> a = b"
proof
  have up_to: "x \<notin> set c \<Longrightarrow> takeWhile (\<lambda>y. y \<noteq> x) (c @ x # w) = c" for c w
    by (induction c) auto
  assume "prefix (a @ [x]) (b @ x # r)"
  then obtain z where "b @ x # r = a @ x # z" by (auto simp: prefix_def)
  then show "a = b" using up_to [OF assms(1), of z] up_to [OF assms(2), of r] by simp
qed (simp add: prefix_def)

lemma te_split: "''transfer-encoding:'' = ''transfer-encoding'' @ [CHR '':'']" by simp

lemma chunked_after_name: "sublist ''chunked'' (''transfer-encoding:'' @ w) \<longleftrightarrow> sublist ''chunked'' w"
  by (simp add: sublist_Cons_right prefix_Cons)

lemma field_chunked_iff:
  assumes "token n"
  shows "chunked_line (to_ascii_lowercase (field_line (n, v))) \<longleftrightarrow> declares_chunked (n, v)"
proof -
  let ?low = to_ascii_lowercase
  have line: "?low (field_line (n, v)) = ?low n @ CHR '':'' # ?low v"
    by (simp add: field_line_def to_ascii_lowercase_def ascii_lower_def)
  have "CHR '':'' \<notin> set (?low n)"
    using assms by (subst in_lowercase) (auto simp: token_def)
  then have name: "prefix ''transfer-encoding:'' (?low n @ CHR '':'' # ?low v) \<longleftrightarrow> ''transfer-encoding'' = ?low n"
    unfolding te_split by (intro prefix_up_to) simp_all
  show ?thesis
  proof (cases "?low n = ''transfer-encoding''")
    case True
    then have "?low n @ CHR '':'' # ?low v = ''transfer-encoding:'' @ ?low v" by simp
    then show ?thesis
      using True unfolding chunked_line_def line declares_chunked_def fst_conv snd_conv
      by (simp only: chunked_after_name prefixI simp_thms)
  next
    case False
    then show ?thesis
      using name unfolding chunked_line_def line declares_chunked_def fst_conv by metis
  qed
qed

lemma start_not_chunked:
  assumes "token a"
  shows "\<not> chunked_line (to_ascii_lowercase (a @ CHR '' '' # r))"
proof
  let ?low = to_ascii_lowercase
  assume "chunked_line (?low (a @ CHR '' '' # r))"
  then obtain z where z: "?low a @ CHR '' '' # ?low r = ''transfer-encoding:'' @ z"
    by (auto simp: chunked_line_def prefix_def to_ascii_lowercase_def ascii_lower_def)
  have no: "CHR '':'' \<notin> set (?low a)" "CHR '' '' \<notin> set (?low a)"
  proof -
    have "CHR '':'' \<in> set (?low a) \<longleftrightarrow> CHR '':'' \<in> set a" "CHR '' '' \<in> set (?low a) \<longleftrightarrow> CHR '' '' \<in> set a"
      by (rule in_lowercase; simp)+
    moreover have "CHR '':'' \<notin> set a" "CHR '' '' \<notin> set a"
      using assms unfolding token_def graphic_def by force+
    ultimately show "CHR '':'' \<notin> set (?low a)" "CHR '' '' \<notin> set (?low a)" by blast+
  qed
  have "?low a = takeWhile (\<lambda>c. c \<noteq> CHR '' '') (?low a @ CHR '' '' # ?low r)"
    using no(2) by (subst takeWhile_append2) auto
  then have "CHR '':'' \<in> set (?low a)"
    unfolding z by simp
  with no(1) show False by simp
qed

section \<open>Messages are read back\<close>

lemma dechunk_framed:
  assumes "framing_ok (Chunks cs e t)"
  shows "dechunk (framed (Chunks cs e t)) = payload_of (Chunks cs e t)"
proof -
  have zero: "show_radix 16 0 = ''0''" by code_simp
  have "announces (''0'' @ e) 0"
    using announces_hex [of 0 e] assms by (simp add: zero chunk_ext_def)
  from dechunk_last [OF this, of t] have last: "dechunk (''0'' @ e @ crlf @ t) = []" by simp
  have "announces (show_radix 16 (length d) @ ext) (length d)" if "(ext, d) \<in> set cs" for ext d
    using announces_hex [of "length d" ext] assms that by (auto simp: chunk_ext_def)
  then have all: "\<forall>(line, d) \<in> set (map (\<lambda>(ext, d). (show_radix 16 (length d) @ ext, d)) cs).
      announces line (length d) \<and> d \<noteq> []"
    using assms by auto
  show ?thesis
    unfolding framed.simps dechunk_chunked [OF all] last by (simp add: comp_def case_prod_unfold)
qed

lemma head_ok_lines:
  assumes "head_ok m"
  shows "\<forall>l \<in> set (start_line m # map field_line (header_fields m)). l \<noteq> [] \<and> plain_text l"
proof -
  obtain a b c where m: "start_words m = (a, b, c)" by (cases "start_words m")
  have graphic: "plain_text w" if "\<forall>x \<in> set w. graphic x" for w
    using that graphic_props by (auto simp: plain_text_def ascii_def)
  have "plain_text a" and "plain_text b"
    using assms by (auto simp: head_ok_def m token_def intro!: graphic)
  then have "plain_text (start_line m)"
    using assms by (auto simp: head_ok_def m start_line_def plain_text_def ascii_def)
  moreover have "plain_text (field_line f)" if "f \<in> set (header_fields m)" for f
  proof -
    obtain n v where f: "f = (n, v)" by (cases f)
    then have "token n" and v: "plain_text v" using assms that by (auto simp: head_ok_def)
    then have "plain_text n" by (intro graphic) (simp add: token_def)
    with v show ?thesis by (auto simp: f field_line_def plain_text_def ascii_def)
  qed
  moreover have "field_line f \<noteq> []" for f by (cases f) (simp add: field_line_def)
  ultimately show ?thesis by (auto simp: start_line_def m)
qed

lemma message_head_chunked:
  assumes "head_ok m"
  shows "header_is_chunked (message_head m) \<longleftrightarrow> (\<exists>f \<in> set (header_fields m). declares_chunked f)"
proof -
  obtain a b c where m: "start_words m = (a, b, c)" by (cases "start_words m")
  have start: "\<not> chunked_line (to_ascii_lowercase (start_line m))"
    using start_not_chunked [of a "b @ '' '' @ c"] assms by (simp add: start_line_def m head_ok_def)
  have field: "chunked_line (to_ascii_lowercase (field_line f)) \<longleftrightarrow> declares_chunked f"
    if "f \<in> set (header_fields m)" for f
    using field_chunked_iff [of "fst f" "snd f"] assms that by (auto simp: head_ok_def)
  have "\<forall>l \<in> set (start_line m # map field_line (header_fields m)). plain_text l"
    using head_ok_lines [OF assms] by blast
  from chunked_head_iff [OF this] show ?thesis
    using start field by (simp add: message_head_def)
qed

lemma http_head_message: "head_ok m \<Longrightarrow> http_head (message_head m)"
  unfolding message_head_def using head_ok_lines [of m]
  by (intro http_head_lines) (auto simp: plain_text_def)

lemma decoded_body_wire:
  assumes "well_formed m"
  shows "decoded_body (wire_form m) = message_body m"
proof -
  have head: "head_ok m" using assms by (simp add: well_formed_def)
  have "header_is_chunked (message_head m) \<longleftrightarrow> (\<exists>cs e t. framing_of m = Chunks cs e t)"
    using assms message_head_chunked [OF head] by (simp add: well_formed_def)
  then show ?thesis
    using assms dechunk_framed unfolding wire_form_def decoded_body_message [OF http_head_message [OF head]]
    by (cases "framing_of m") (simp_all add: message_body_def well_formed_def)
qed

text \<open>The start line is the first line on the wire, whatever follows the message.\<close>

lemmas head_simps = head_ok_def token_def plain_text_def
lemmas wire_simps = wire_form_def message_head_def lines_head_Cons start_line_def head_simps

lemma request_line_wire:
  assumes "head_ok m" and "start_words m = (a, b, c)"
  shows "request_line (wire_form m @ rest) = (a, b)"
  using request_line_words [of a b c] assms by (simp add: wire_simps)

lemma status_code_wire:
  assumes "head_ok m" and "start_words m = (v, show_radix 10 n, reason)" and "n < 2 ^ 16"
  shows "status_code (wire_form m @ rest) = of_nat n"
  using status_code_line [of v n reason] assms by (simp add: wire_simps)

end
