(* ===== verification/Wire_Properties.thy ===== *)
theory Wire_Properties
  imports Reference_Run Http_Grammar
begin

text \<open>
  Properties of what is read off the wire: decoded bodies, start lines, the two header codecs,
  the configured headers, and the transform of the answer.
\<close>

section \<open>Bodies\<close>

lemma ref_sizes: "show_radix 16 (Suc (Suc (Suc (Suc (Suc 0))))) = ''5''"
  "show_radix 16 (Suc (Suc (Suc (Suc (Suc (Suc 0)))))) = ''6''" "show_radix 16 0 = ''0''" "show_radix 16 5 = ''5''" "show_radix 16 6 = ''6''"
  by code_simp+

text \<open>
  De-chunking undoes every well-formed chunked coding: for any sequence of non-empty
  chunks, each with its size in hexadecimal and possibly an extension, followed by the last
  chunk and any trailer, the result is the concatenation of the chunks' data.
\<close>

theorem dechunk_undoes_chunking:
  assumes "\<forall>(ext, d) \<in> set cs. d \<noteq> [] \<and> length d < 2 ^ 64 \<and> (ext = [] \<or> hd ext = CHR '';'') \<and> CHR 0x0D \<notin> set ext"
    and "last_ext = [] \<or> hd last_ext = CHR '';''" and "CHR 0x0D \<notin> set last_ext"
  shows "dechunk (chunked (map (\<lambda>(ext, d). (show_radix 16 (length d) @ ext, d)) cs)
                  @ ''0'' @ last_ext @ crlf @ trailer) = concat (map snd cs)"
  using dechunk_framed [of cs last_ext trailer] assms by (simp add: chunk_ext_def)

theorem dechunk_undoes_chunking_witness:
  "dechunk (chunked [(''5;a=b'', ''hello''), (''6'', '' world'')] @ ''0'' @ crlf @ crlf) = ''hello world''"
  using dechunk_undoes_chunking [of "[('';a=b'', ''hello''), ([], '' world'')]" "[]" crlf]
  by (simp add: ref_sizes)

text \<open>
  C29. A chunked body that ends inside a chunk yields the complete chunks before it and nothing
  of the cut one, with no error: the digest is then of a shorter body.
\<close>

theorem truncated_chunk_dropped:
  assumes "\<forall>(line, d) \<in> set cs. announces line (length d) \<and> d \<noteq> []"
    and "announces line n" and "length part < n"
  shows "dechunk (chunked cs @ line @ crlf @ part) = concat (map snd cs)"
  using dechunk_chunked [OF assms(1)] dechunk_truncated [OF assms(2,3)] by simp

theorem truncated_chunk_dropped_witness:
  "dechunk (chunked [(''5'', ''hello'')] @ ''6'' @ crlf @ '' wor'') = ''hello''"
proof -
  have "announces ''5'' 5" and "announces ''6'' 6"
    using announces_hex [of 5 "[]"] announces_hex [of 6 "[]"] by (simp_all add: ref_sizes)
  with truncated_chunk_dropped [of "[(''5'', ''hello'')]" "''6''" 6 "'' wor''"] show ?thesis
    by (simp add: eval_nat_numeral)
qed

text \<open>
  C28. Decoding never invents bytes: on any input, malformed or hostile, the decoded body is a
  subsequence of the message, so every digested byte crossed the connection, in that order.
\<close>

theorem decoded_body_subsequence: "subseq (decoded_body buf) buf \<and> length (decoded_body buf) \<le> length buf"
  using subseq_decoded_body [of buf] list_emb_length by blast

section \<open>Start lines\<close>

text \<open>Method and path of a request are the first two words of its first line.\<close>

theorem request_line_of_head:
  assumes "\<forall>c \<in> set m. graphic c" and "m \<noteq> []" and "\<forall>c \<in> set p. graphic c" and "p \<noteq> []"
    and "\<forall>c \<in> set v. graphic c"
  shows "request_line ((m @ '' '' @ p @ '' '' @ v) @ crlf @ rest) = (m, p)"
  by (rule request_line_words) (use assms graphic_props in \<open>auto simp: ascii_def\<close>)

theorem request_line_of_head_witness:
  "request_line (''POST /v1/messages HTTP/1.1'' @ crlf @ ''Host: h'') = (''POST'', ''/v1/messages'')"
proof -
  have "request_line ((''POST'' @ '' '' @ ''/v1/messages'' @ '' '' @ ''HTTP/1.1'') @ crlf @ ''Host: h'')
      = (''POST'', ''/v1/messages'')"
    by (rule request_line_of_head) (simp_all add: graphic_def)
  then show ?thesis by simp
qed

text \<open>
  The status of a response is the number in its first line, for every 16-bit number, and
  whatever is read is what a 16-bit word holds.
\<close>

theorem status_code_of_head:
  assumes "\<forall>c \<in> set v. graphic c" and "v \<noteq> []" and "n < 2 ^ 16"
    and "ascii reason" and "CHR 0x0D \<notin> set reason" and "CHR 0x0A \<notin> set reason"
  shows "unat (status_code ((v @ '' '' @ show_radix 10 n @ '' '' @ reason) @ crlf @ rest)) = n"
  using status_code_line [OF assms, of rest] assms(3) by (simp add: unsigned_of_nat take_bit_nat_eq_self)

theorem status_code_of_head_witness:
  "unat (status_code ((''HTTP/1.1'' @ '' '' @ show_radix 10 404 @ '' '' @ ''Not Found'') @ crlf @ crlf)) = 404"
  by (rule status_code_of_head) (simp_all add: graphic_def ascii_def)

section \<open>Headers\<close>

text \<open>
  A receipt survives its header: decoding gives back the encoded receipt, also when the
  header value was padded with white space on the way, and different receipts have different
  headers.
\<close>

theorem receipt_header_roundtrip:
  assumes "receipt_codec_law L" and "\<forall>c \<in> set a. ascii_ws c" and "\<forall>c \<in> set b. ascii_ws c"
  shows "read_receipt_header L (a @ receipt_header L r @ b) = Inr r \<and>
    (receipt_header L r = receipt_header L r' \<longleftrightarrow> r = r')"
  using receipt_codec.dec_padded [OF assms(1) TrueI assms(2,3)] receipt_codec.enc_inject [OF assms(1) TrueI TrueI]
  by (auto simp: read_receipt_header_def receipt_header_def)

theorem receipt_header_roundtrip_witness:
  "read_receipt_header ref_libs ('' '' @ receipt_header ref_libs ref_receipt @ '' '') = Inr ref_receipt"
  using receipt_header_roundtrip [OF ref_codec_laws(1), of "'' ''" "'' ''" ref_receipt ref_receipt]
  by (simp add: ascii_ws_def)

text \<open>The materials map survives its header, padded or not.\<close>

theorem materials_header_roundtrip:
  assumes "materials_codec_law L" and "bt_sorted m"
    and "\<forall>c \<in> set a. ascii_ws c" and "\<forall>c \<in> set b. ascii_ws c"
  shows "materials_from_header L (a @ materials_to_header L m @ b) = Inr m"
  using assms by (rule materials_codec.dec_padded)

theorem materials_header_roundtrip_witness:
  "materials_from_header ref_libs (materials_to_header ref_libs [(''a'', ''x''), (''leg0'', ''yes'')] @ '' '')
     = Inr [(''a'', ''x''), (''leg0'', ''yes'')]"
proof -
  have "bt_sorted [(''a'', ''x''), (''leg0'', ''yes'')]" by code_simp
  from materials_header_roundtrip [OF ref_codec_laws(2) this, of "[]" "'' ''"] show ?thesis
    by (simp add: ascii_ws_def)
qed



section \<open>The transform\<close>

text \<open>
  C31. The verdict is 1 exactly when the answer is JSON whose first content text, after leading
  white space, starts with the letters y, e, s in any case; it is 0 in every other case, and
  the buyer's recomputation of the node gives these bytes.
\<close>

theorem verdict_specification:
  "(starts_with_yes J answer = ''1'' \<longleftrightarrow>
     (\<exists>t y e s rest. answer_text J answer = Some t \<and> trim_start t = y # e # s # rest
        \<and> y \<in> set ''yY'' \<and> e \<in> set ''eE'' \<and> s \<in> set ''sS'')) \<and>
   (starts_with_yes J answer = ''1'' \<or> starts_with_yes J answer = ''0'') \<and>
   recompute J VERDICT_FN_ID (answer # others) = Some (starts_with_yes J answer)"
proof (intro conjI)
  show "starts_with_yes J answer = ''1'' \<longleftrightarrow>
     (\<exists>t y e s rest. answer_text J answer = Some t \<and> trim_start t = y # e # s # rest
        \<and> y \<in> set ''yY'' \<and> e \<in> set ''eE'' \<and> s \<in> set ''sS'')"
    by (rule starts_with_yes_iff)
  show "starts_with_yes J answer = ''1'' \<or> starts_with_yes J answer = ''0''"
    by (rule starts_with_yes_cases)
  show "recompute J VERDICT_FN_ID (answer # others) = Some (starts_with_yes J answer)"
    by (simp add: recompute_def)
qed

end
