(* ===== verification/Session_Order.thy ===== *)
theory Session_Order
  imports Notary_Service Prover_Session
begin

text \<open>
  The course of a session on both sides, in phases: a linear order the calls of notary and
  prover go through, each call at most once (the prover's disclosure apart, which has one call
  per range). The two sides of a session are in step because they use the same phases.
\<close>

datatype phase = Configuring | Negotiating | Connecting | Proxying | Disclosing | Closing | Attesting

fun phase_rank :: "phase \<Rightarrow> nat" where
  "phase_rank Configuring = 0"
| "phase_rank Negotiating = 1"
| "phase_rank Connecting = 2"
| "phase_rank Proxying = 3"
| "phase_rank Disclosing = 4"
| "phase_rank Closing = 5"
| "phase_rank Attesting = 6"

lemma phase_rank_inject: "phase_rank a = phase_rank b \<longleftrightarrow> a = b"
  by (cases a; cases b) simp_all

instantiation phase :: linorder
begin

definition less_eq_phase :: "phase \<Rightarrow> phase \<Rightarrow> bool" where
  "less_eq_phase a b \<longleftrightarrow> phase_rank a \<le> phase_rank b"

definition less_phase :: "phase \<Rightarrow> phase \<Rightarrow> bool" where
  "less_phase a b \<longleftrightarrow> phase_rank a < phase_rank b"

instance
  by standard (auto simp: less_eq_phase_def less_phase_def phase_rank_inject)

end

section \<open>The notary\<close>

fun notary_phase :: "notary_call \<Rightarrow> phase" where
  "notary_phase BuildVerifierConfig = Configuring"
| "notary_phase NewVerifier = Configuring"
| "notary_phase AwaitCommit = Negotiating"
| "notary_phase (RejectMpc _) = Negotiating"
| "notary_phase (ConnectServer _ _) = Connecting"
| "notary_phase ServerNodelay = Connecting"
| "notary_phase AcceptProxy = Connecting"
| "notary_phase RunProxy = Proxying"
| "notary_phase AwaitVerify = Disclosing"
| "notary_phase (RejectDisclosure _) = Disclosing"
| "notary_phase AcceptDisclosure = Disclosing"
| "notary_phase CloseRejected = Closing"
| "notary_phase CloseVerifier = Closing"
| "notary_phase CloseHandle = Closing"
| "notary_phase JoinDriver = Closing"
| "notary_phase FinishDriver = Closing"
| "notary_phase (SignClaim _) = Attesting"
| "notary_phase SerializeAttestation = Attesting"
| "notary_phase (WriteAll _) = Attesting"
| "notary_phase CloseSocket = Attesting"

lemma notary_in_order:
  "stops (notarize_session L cfg E) (\<lambda>r tr. sorted (map notary_phase tr) \<and> distinct tr) []"
  unfolding notarize_session_def sign_and_return_def return_attestation_def Let_def
  by (intro stops_rules) (simp_all add: less_eq_phase_def)

section \<open>The prover\<close>

fun prover_phase :: "prover_call \<Rightarrow> phase" where
  "prover_phase (ConnectNotary _) = Configuring"
| "prover_phase NotaryNodelay = Configuring"
| "prover_phase BuildProverConfig = Configuring"
| "prover_phase NewProver = Configuring"
| "prover_phase (CommitServerName _) = Negotiating"
| "prover_phase BuildProxyConfig = Negotiating"
| "prover_phase CommitProxy = Negotiating"
| "prover_phase (TlsServerName _) = Connecting"
| "prover_phase BuildTlsConfig = Connecting"
| "prover_phase ConnectTls = Connecting"
| "prover_phase Handshake = Connecting"
| "prover_phase (BuildRequest _) = Proxying"
| "prover_phase (SendRequest _) = Proxying"
| "prover_phase CollectBody = Proxying"
| "prover_phase JoinProver = Proxying"
| "prover_phase FinishProver = Proxying"
| "prover_phase RevealIdentity = Disclosing"
| "prover_phase (RevealRecv _ _) = Disclosing"
| "prover_phase (RevealSent _ _) = Disclosing"
| "prover_phase BuildProveConfig = Disclosing"
| "prover_phase Prove = Disclosing"
| "prover_phase CloseProver = Closing"
| "prover_phase CloseSession = Closing"
| "prover_phase JoinSession = Closing"
| "prover_phase FinishSession = Closing"
| "prover_phase ReadAttestation = Attesting"

fun is_reveal :: "prover_call \<Rightarrow> bool" where
  "is_reveal (RevealSent _ _) = True"
| "is_reveal _ = False"

lemma is_reveal_call [simp]: "is_reveal (reveal_call x)" "prover_phase (reveal_call x) = Disclosing"
  by (simp_all add: reveal_call_def split: prod.split)

lemma not_reveal_call [simp]: "\<not> is_reveal k \<Longrightarrow> k \<notin> reveal_call ` A"
  by auto

lemma reveal_calls [simp]:
  "filter (\<lambda>k. \<not> is_reveal k) (map reveal_call rs) = []"
  "map (prover_phase \<circ> reveal_call) rs = replicate (length rs) Disclosing"
  by (induction rs) simp_all

lemma prover_in_order:
  "stops (run_prover L E st body)
     (\<lambda>r tr. sorted (map prover_phase tr) \<and> distinct (filter (\<lambda>k. \<not> is_reveal k) tr)) []"
  unfolding run_prover_def prove_and_read_def Let_def
  by (intro stops_rules)
    (simp_all add: less_eq_phase_def sorted_append)

end
