(* ===== verification/Session_Properties.thy ===== *)
theory Session_Properties
  imports Reference_Run Session_Order
begin

text \<open>
  Properties of the sessions: what the notary signs and hands out, what the prover discloses,
  and what the payment-gated handler does in which order.
\<close>

section \<open>The notary\<close>

text \<open>
  C14. The notary signs a claim in exactly the sessions that run in proxy mode without a failed
  call, reveal the identity of the configured upstream and the transcript, and only the claim
  about that transcript.
\<close>

theorem notary_signs_exactly_witnessed:
  assumes "notarize_session L cfg E [] = (r, tr)"
  shows "SignClaim c \<in> set tr \<longleftrightarrow>
     (\<forall>k \<in> set (before_signing cfg) - {CloseHandle}. nv_fails E k = None) \<and>
     nv_commit E = ProxyRequested \<and> nv_server_identity E \<and>
     nv_server_name E = Some (cfg_upstream_host cfg) \<and>
     (\<exists>sent received. nv_transcript E = Some (sent, received) \<and>
        c = witnessed_claim L (cfg_upstream_host cfg) sent received (nv_time E))"
  using signed_iff_witnessed [OF assms, of c] by (simp add: quiet_def witnessed_def)

theorem notary_signs_exactly_witnessed_witness:
  "SignClaim ref_witnessed \<in> set (snd (notarize_session ref_libs ref_config ref_session []))"
proof -
  obtain r tr where run: "notarize_session ref_libs ref_config ref_session [] = (r, tr)"
    by (cases "notarize_session ref_libs ref_config ref_session []")
  show ?thesis
    using notary_signs_exactly_witnessed [OF run, of ref_witnessed] by (simp add: run ref_sel)
qed

text \<open>
  Whatever a session writes to the prover's socket is the attestation of one witnessed
  claim, written once, after every other step of the session, the signature last.
\<close>

theorem handed_out_is_signed:
  assumes "notarize_session L cfg E [] = (r, tr)" and "WriteAll b \<in> set tr"
  shows "\<exists>c. witnessed L cfg E c \<and> b = attestation_to_json L (attest L (cfg_notary cfg) c) \<and>
     (tr = before_signing cfg @ [SignClaim c, SerializeAttestation, WriteAll b] \<or>
      tr = before_signing cfg @ [SignClaim c, SerializeAttestation, WriteAll b, CloseSocket])"
  using stops_result [OF notarize_session_ends assms(1)] assms(2)
  by (auto simp: session_ends_def before_signing_def Let_def)

theorem handed_out_is_signed_witness:
  "\<exists>c. witnessed ref_libs ref_config ref_session c \<and>
     attestation_to_json ref_libs ref_signed = attestation_to_json ref_libs (attest ref_libs (cfg_notary ref_config) c)"
proof -
  obtain r tr where run: "notarize_session ref_libs ref_config ref_session [] = (r, tr)"
    by (cases "notarize_session ref_libs ref_config ref_session []")
  then have "WriteAll (attestation_to_json ref_libs ref_signed) \<in> set tr"
    using ref_session_written by (simp add: set_written [symmetric] del: ref_libs_simps)
  from handed_out_is_signed [OF run this] show ?thesis by blast
qed

text \<open>
  A session the notary may attest is attested: when no call fails, it returns normally,
  having handed out exactly the attestation of the claim it witnessed.
\<close>

theorem notary_session_succeeds:
  assumes "\<forall>k. nv_fails E k = None" and "nv_commit E = ProxyRequested" and "nv_server_identity E"
    and "nv_server_name E = Some (cfg_upstream_host cfg)" and "nv_transcript E = Some (sent, received)"
  shows "fst (notarize_session L cfg E []) = Inr () \<and>
     written (snd (notarize_session L cfg E [])) =
       [attestation_to_json L (attest L (cfg_notary cfg)
          (witnessed_claim L (cfg_upstream_host cfg) sent received (nv_time E)))]"
proof -
  have w: "witnessed L cfg E (witnessed_claim L (cfg_upstream_host cfg) sent received (nv_time E))"
    using assms by (simp add: witnessed_def)
  have q: "quiet cfg E" using assms(1) by (simp add: quiet_def)
  have "good_session cfg E sent received" using assms by (simp add: good_session_def)
  from good_session_written [OF this, of L] show ?thesis
    using assms(1) by (simp add: notarize_session_signs [OF q w] Let_def)
qed

theorem notary_session_succeeds_witness: "fst (notarize_session ref_libs ref_config ref_session []) = Inr ()"
  using notary_session_succeeds [of ref_session ref_config ref_seen ref_received ref_libs]
  by (simp add: ref_sel)

text \<open>
  The notary connects to its configured upstream only; a prover that asks for the MPC mode
  gets no connection and no signature, and the session ends with an error.
\<close>

theorem notary_connects_upstream_only:
  assumes "notarize_session L cfg E [] = (r, tr)"
  shows "(ConnectServer h p \<in> set tr \<longrightarrow> h = cfg_upstream_host cfg \<and> p = cfg_upstream_port cfg) \<and>
     (nv_commit E = MpcRequested \<longrightarrow>
        (\<exists>e. r = Inl (Bail e)) \<and> ConnectServer h p \<notin> set tr \<and> SignClaim c \<notin> set tr)"
proof (intro conjI impI)
  show "h = cfg_upstream_host cfg" and "p = cfg_upstream_port cfg" if "ConnectServer h p \<in> set tr"
    using connects_upstream_only [OF assms that] by simp_all
  assume mpc: "nv_commit E = MpcRequested"
  show "\<exists>e. r = Inl (Bail e)" and "ConnectServer h p \<notin> set tr"
    using mpc_refused [OF assms mpc] by blast+
  show "SignClaim c \<notin> set tr"
    using signed_iff_witnessed [OF assms, of c] mpc by (simp add: witnessed_def)
qed

theorem notary_connects_upstream_only_witness:
  "\<exists>e. fst (notarize_session ref_libs ref_config (ref_session\<lparr>nv_commit := MpcRequested\<rparr>) []) = Inl (Bail e)"
proof -
  obtain r tr where run:
    "notarize_session ref_libs ref_config (ref_session\<lparr>nv_commit := MpcRequested\<rparr>) [] = (r, tr)"
    by (cases "notarize_session ref_libs ref_config (ref_session\<lparr>nv_commit := MpcRequested\<rparr>) []")
  show ?thesis
    using notary_connects_upstream_only [OF run, of "[]" 0 ref_witnessed] by (simp add: run)
qed

section \<open>The prover\<close>

text \<open>
  C17. When a proof is made, it reveals the sent transcript except for the first occurrence of
  the API key, all of it when there is no key.
\<close>

theorem prover_reveals_all_but_key:
  assumes "run_prover L E st body [] = (r, tr)" and "Prove \<in> set tr"
  shows "case api_key st of
       None \<Rightarrow> positions (sent_ranges tr) = {..<length (pv_sent E)}
     | Some k \<Rightarrow> \<exists>pos. occurs_at k (pv_sent E) pos \<and> (\<forall>j<pos. \<not> occurs_at k (pv_sent E) j) \<and>
         positions (sent_ranges tr) = {..<length (pv_sent E)} - {pos..<pos + length k}"
proof -
  obtain rs where rs: "reveal_plan (api_key st) (pv_sent E) = Inr rs" and ranges: "sent_ranges tr = rs"
    using stops_result [OF run_prover_ends assms(1)] assms(2)
    by (auto simp: prover_ends_def before_disclosure_def)
  show ?thesis
  proof (cases "api_key st")
    case None
    then have "rs = [(0, length (pv_sent E))]" using rs by (simp add: reveal_plan_def)
    with None show ?thesis by (auto simp: ranges positions_def)
  next
    case (Some k)
    then show ?thesis using reveal_plan_key [of k "pv_sent E" rs] rs by (auto simp: ranges)
  qed
qed

lemma ref_run_prover: "\<exists>tr. run_prover ref_libs ref_prover ref_app body [] =
    (Inr (ref_answer ''Yes'', ref_signed), tr) \<and> Prove \<in> set tr"
proof -
  obtain rs where rs: "reveal_plan (api_key ref_app) (pv_sent ref_prover) = Inr rs"
    using ref_plan by blast
  have "attestation_from_json ref_libs (pv_attestation ref_prover) = Some ref_signed"
    by (simp only: ref_sel ref_attestation_read)
  from run_prover_quiet [OF _ rs this, of body] show ?thesis
    by (simp add: ref_sel)
qed

theorem prover_reveals_all_but_key_witness:
  "\<exists>tr pos. occurs_at ''Q7'' ref_sent pos \<and>
     positions (sent_ranges tr) = {..<length ref_sent} - {pos..<pos + length ''Q7''}"
proof -
  obtain tr where "run_prover ref_libs ref_prover ref_app [] [] = (Inr (ref_answer ''Yes'', ref_signed), tr)"
      and "Prove \<in> set tr"
    using ref_run_prover by blast
  from prover_reveals_all_but_key [OF this] show ?thesis
    unfolding ref_sel option.case by blast
qed

text \<open>What is put up for disclosure around the key.\<close>

lemma disclosed_around_key:
  assumes "run_prover L E st body [] = (r, tr)" and "Prove \<in> set tr" and "api_key st = Some k"
    and "pv_sent E = a @ k @ c" and "\<forall>j < length a. \<not> occurs_at k (a @ k @ c) j"
  shows "sent_ranges tr = [(0, length a), (length a + length k, length (a @ k @ c))] \<and>
     withheld fill (sent_ranges tr) (pv_sent E) = a @ replicate (length k) fill @ c"
proof -
  have plan: "reveal_plan (Some k) (a @ k @ c) = Inr (sent_ranges tr)"
    using stops_result [OF run_prover_ends assms(1)] assms(2-4)
    by (auto simp: prover_ends_def before_disclosure_def)
  obtain pos where "occurs_at k (a @ k @ c) pos" "\<forall>j<pos. \<not> occurs_at k (a @ k @ c) j"
      and ranges: "sent_ranges tr = [(0, pos), (pos + length k, length (a @ k @ c))]"
    using reveal_plan_key [OF plan] by blast
  moreover have "occurs_at k (a @ k @ c) (length a)" by (simp add: occurs_at_def)
  ultimately have "pos = length a" using assms(5) by (meson linorder_neqE_nat)
  then show ?thesis using ranges withheld_plan [OF plan assms(5)] by (simp add: assms(4))
qed

text \<open>
  C19. The notary learns the length of the API key and nothing else of it: take two proofs, by
  resellers with two keys, whose sent bytes are the same around the key, which first occurs
  there. The ranges disclosed and the transcript as the notary sees it, taken together, are
  the same in both exactly when the keys have the same length.
\<close>

theorem key_noninterference:
  assumes "run_prover L E st body [] = (r, tr)" and "Prove \<in> set tr" and "api_key st = Some k"
    and "run_prover L E' st' body' [] = (r', tr')" and "Prove \<in> set tr'" and "api_key st' = Some k'"
    and "pv_sent E = a @ k @ c" and "pv_sent E' = a @ k' @ c"
    and "\<forall>j < length a. \<not> occurs_at k (a @ k @ c) j \<and> \<not> occurs_at k' (a @ k' @ c) j"
  shows "(sent_ranges tr, withheld fill (sent_ranges tr) (pv_sent E))
       = (sent_ranges tr', withheld fill (sent_ranges tr') (pv_sent E')) \<longleftrightarrow> length k = length k'"
proof -
  have "sent_ranges tr = [(0, length a), (length a + length k, length (a @ k @ c))] \<and>
      withheld fill (sent_ranges tr) (pv_sent E) = a @ replicate (length k) fill @ c"
    using assms(9) by (intro disclosed_around_key [OF assms(1-3,7)]) blast
  moreover have "sent_ranges tr' = [(0, length a), (length a + length k', length (a @ k' @ c))] \<and>
      withheld fill (sent_ranges tr') (pv_sent E') = a @ replicate (length k') fill @ c"
    using assms(9) by (intro disclosed_around_key [OF assms(4-6,8)]) blast
  ultimately show ?thesis by auto
qed

theorem key_noninterference_witness:
  "\<exists>tr tr'. Prove \<in> set tr \<and> Prove \<in> set tr' \<and>
     withheld CHR 0x00 (sent_ranges tr) ''k: Q7;'' = withheld CHR 0x00 (sent_ranges tr') ''k: Z9;''"
proof -
  define st where "st k = ref_app\<lparr>api_key := Some k\<rparr>" for k
  define E where "E k = ref_prover\<lparr>pv_sent := ''k: '' @ k @ '';''\<rparr>" for k
  have run: "\<exists>r tr. run_prover ref_libs (E k) (st k) [] [] = (r, tr) \<and> Prove \<in> set tr" if k: "k \<noteq> []" for k
  proof -
    have "occurs_at k (''k: '' @ k @ '';'') 3" by (simp add: occurs_at_def)
    then obtain rs where "reveal_plan (api_key (st k)) (pv_sent (E k)) = Inr rs"
      using reveal_plan_found [OF k] by (auto simp: st_def E_def)
    moreover have "attestation_from_json ref_libs (pv_attestation (E k)) = Some ref_signed"
      using ref_attestation_read by (simp add: E_def ref_sel del: ref_libs_simps)
    ultimately show ?thesis
      using run_prover_quiet [of "E k" "st k" rs ref_libs ref_signed "[]"] by (simp add: E_def ref_sel)
  qed
  obtain r tr where r: "run_prover ref_libs (E ''Q7'') (st ''Q7'') [] [] = (r, tr)" "Prove \<in> set tr"
    using run [of "''Q7''"] by auto
  obtain r' tr' where r': "run_prover ref_libs (E ''Z9'') (st ''Z9'') [] [] = (r', tr')" "Prove \<in> set tr'"
    using run [of "''Z9''"] by auto
  have first: "\<forall>j < length ''k: ''. \<not> occurs_at ''Q7'' (''k: '' @ ''Q7'' @ '';'') j \<and>
      \<not> occurs_at ''Z9'' (''k: '' @ ''Z9'' @ '';'') j"
    using no_earlier_key [of "''Q7''" "''k: ''"] no_earlier_key [of "''Z9''" "''k: ''"] by simp
  have "withheld CHR 0x00 (sent_ranges tr) (pv_sent (E ''Q7'')) = withheld CHR 0x00 (sent_ranges tr') (pv_sent (E ''Z9''))"
    using key_noninterference [OF r _ r' _ _ _ first, of "CHR 0x00"] by (auto simp: st_def E_def)
  then show ?thesis using r(2) r'(2) by (auto simp: E_def)
qed

text \<open>
  C20. The prover fails closed: when the key does not occur in the sent transcript, nothing of
  it is put up for disclosure, no proof is made and the session ends with a fault.
\<close>

theorem prover_fails_closed:
  assumes "run_prover L E st body [] = (r, tr)" and "api_key st = Some k"
    and "\<forall>i. \<not> occurs_at k (pv_sent E) i"
  shows "Prove \<notin> set tr \<and> sent_ranges tr = [] \<and> (\<exists>f. r = Inl f)"
proof -
  have "k \<noteq> []" using assms(3) by (auto simp: occurs_at_def)
  then obtain m where "reveal_plan (api_key st) (pv_sent E) = Inl (Bail m)"
    using reveal_plan_cases(3) assms(2,3) by fastforce
  then show ?thesis
    using stops_result [OF run_prover_ends assms(1)] by (auto simp: prover_ends_def)
qed

theorem prover_fails_closed_witness:
  "Prove \<notin> set (snd (run_prover ref_libs (ref_prover\<lparr>pv_sent := ''GET /''\<rparr>) ref_app [] []))"
proof -
  obtain r tr where run: "run_prover ref_libs (ref_prover\<lparr>pv_sent := ''GET /''\<rparr>) ref_app [] [] = (r, tr)"
    by (cases "run_prover ref_libs (ref_prover\<lparr>pv_sent := ''GET /''\<rparr>) ref_app [] []")
  have "position (\<lambda>w. w = ''Q7'') (windows (length ''Q7'') ''GET /'') = None" by code_simp
  then have "\<forall>i. \<not> occurs_at ''Q7'' (pv_sent (ref_prover\<lparr>pv_sent := ''GET /''\<rparr>)) i"
    unfolding position_windows_None by simp
  from prover_fails_closed [OF run _ this] show ?thesis
    by (simp add: run ref_sel)
qed

text \<open>
  A second copy of the key is disclosed: only the first occurrence is withheld, so any
  occurrence behind it lies inside the revealed ranges of a proof.
\<close>

theorem repeated_key_disclosed:
  assumes "run_prover L E st body [] = (r, tr)" and "Prove \<in> set tr" and "api_key st = Some k"
    and "occurs_at k (pv_sent E) i" and "occurs_at k (pv_sent E) j" and "i + length k \<le> j"
  shows "{j..<j + length k} \<subseteq> positions (sent_ranges tr)"
proof -
  obtain rs where rs: "reveal_plan (api_key st) (pv_sent E) = Inr rs" and ranges: "sent_ranges tr = rs"
    using stops_result [OF run_prover_ends assms(1)] assms(2)
    by (auto simp: prover_ends_def before_disclosure_def)
  obtain pos where first: "\<forall>j<pos. \<not> occurs_at k (pv_sent E) j"
      and pos: "positions rs = {..<length (pv_sent E)} - {pos..<pos + length k}"
    using reveal_plan_key [of k "pv_sent E" rs] rs assms(3) by auto
  have "pos \<le> i" using first assms(4) by (meson not_le)
  moreover have "j + length k \<le> length (pv_sent E)" using assms(5) by (simp add: occurs_at_def)
  ultimately show ?thesis using assms(6) by (auto simp: ranges pos)
qed

theorem repeated_key_disclosed_witness:
  "{3..<5} \<subseteq> positions (sent_ranges
     (snd (run_prover ref_libs (ref_prover\<lparr>pv_sent := ''Q7 Q7''\<rparr>) ref_app [] [])))"
proof -
  let ?E = "ref_prover\<lparr>pv_sent := ''Q7 Q7''\<rparr>"
  have occ: "occurs_at ''Q7'' (pv_sent ?E) 0" "occurs_at ''Q7'' (pv_sent ?E) 3"
    by (simp_all add: occurs_at_def)
  then obtain rs where rs: "reveal_plan (api_key ref_app) (pv_sent ?E) = Inr rs"
    using reveal_plan_found [of "''Q7''" "pv_sent ?E" 0] by (auto simp: ref_sel)
  have "attestation_from_json ref_libs (pv_attestation ?E) = Some ref_signed"
    using ref_attestation_read by (simp add: ref_sel del: ref_libs_simps)
  note run = run_prover_quiet [OF _ rs this, of "[]"]
  have "{3..<3 + length ''Q7''} \<subseteq> positions (sent_ranges (snd (run_prover ref_libs ?E ref_app [] [])))"
    using repeated_key_disclosed [OF run _ ref_sel(1) occ] run by (simp add: ref_sel)
  then show ?thesis by simp
qed

text \<open>
  C18. Withholding the key does not change what is attested: when the key is the value of one
  line of the request's head, the claim about the transcript the notary sees is the claim
  about the bytes that were sent, so the request digest is that of the buyer's body.
\<close>

theorem redaction_keeps_attested_claim:
  assumes "request_sent (api_key st) body sent" and "seen_by_notary fill (api_key st) sent seen"
  shows "witnessed_claim L h seen received t = witnessed_claim L h sent received t \<and>
     request_digest (witnessed_claim L h seen received t) = sha256_hex L body"
  using seen_claim [OF assms] by simp

theorem redaction_keeps_attested_claim_witness:
  "request_digest (witnessed_claim ref_libs ''h'' ref_seen ref_received ''t'') = sha256_hex ref_libs ref_request"
  using redaction_keeps_attested_claim [of ref_app ref_request ref_sent "CHR 0x00" ref_seen ref_libs "''h''" ref_received "''t''"]
    ref_request_sent ref_withheld unfolding ref_sel(1) by blast

section \<open>The course of a session\<close>

text \<open>
  C16. Both sides go through a session in the same order of phases (configuration, negotiation,
  connection, traffic, disclosure, closing, attestation), however it ends, and make each call
  at most once; only the prover's disclosure takes one call per range.
\<close>

theorem sessions_in_phase_order:
  assumes "notarize_session L cfg E [] = (r, tr)" and "run_prover L E' st body [] = (r', tr')"
  shows "sorted (map notary_phase tr) \<and> distinct tr \<and>
     sorted (map prover_phase tr') \<and> distinct (filter (\<lambda>k. \<not> is_reveal k) tr')"
  using stops_result [OF notary_in_order assms(1)] stops_result [OF prover_in_order assms(2)] by simp

theorem sessions_in_phase_order_witness:
  "sorted (map notary_phase (snd (notarize_session ref_libs ref_config ref_session []))) \<and>
   sorted (map prover_phase (snd (run_prover ref_libs ref_prover ref_app ref_request [])))"
proof -
  obtain r tr r' tr' where run: "notarize_session ref_libs ref_config ref_session [] = (r, tr)"
      "run_prover ref_libs ref_prover ref_app ref_request [] = (r', tr')"
    by (meson surj_pair)
  from sessions_in_phase_order [OF this] show ?thesis by (simp add: run)
qed

end
