(* ===== verification/Reseller_Server.thy ===== *)
theory Reseller_Server
  imports Reseller
begin

text \<open>
  The rest of \<open>main\<close> in \<open>tlsn/reseller/src/main.rs\<close>: the wallet, the payment handler, the
  routes and the listener. \<open>axum\<close>'s router is a parameter: it is given the routes the program
  registers, and picks the handler of a request or answers itself.
\<close>

section \<open>Start-up\<close>

datatype reseller_main_call =
    FundAddress string string  \<comment> \<open>RPC node and address\<close>
  | CreatePayment string string string  \<comment> \<open>recipient, RPC node and server secret\<close>
  | BindAddress string
  | PrintText string
  | ServeRequests

definition rpc_unwrap :: string where
  "rpc_unwrap = ''called `Result::unwrap()` on an `Err` value''"

definition reseller_banner :: "string \<Rightarrow> app \<Rightarrow> string list" where
  "reseller_banner recipient st =
     [''provable reseller (TLSNotary Prover, proxy mode) listening on http://localhost:3000'',
      ''  recipient wallet : '' @ recipient,
      ''  notary           : '' @ notary_addr st @ ''  (pubkey '' @ app_notary_pubkey st @ '')'',
      ''  upstream         : '' @ upstream_host st @ '':443  (attested via TLS cert)'',
      ''  price            : '' @ price st,
      ''  mode             : '' @
        (if app_mode st = Honest then ''honest''
         else ''CHEAT-SUBSTITUTE (sells tampered bytes '' @ em_dash @ '' buyer should detect it)'')]"

text \<open>
  \<open>recipient\<close> is the printed address of the random signer. The result is the state the
  requests are served with, once \<open>axum::serve\<close> runs.
\<close>

definition reseller_main ::
  "libs \<Rightarrow> (string \<Rightarrow> bool) \<Rightarrow> (reseller_main_call \<Rightarrow> string option) \<Rightarrow> string \<Rightarrow> (string \<Rightarrow> string option)
     \<Rightarrow> (reseller_main_call, app) script" where
  "reseller_main L url_ok fails recipient var =
     (case reseller_setup L var of
        Inl f \<Rightarrow> return_fault f
      | Inr (rpc_url, st) \<Rightarrow>
          (let secret = (case var ''MPP_SECRET_KEY'' of Some s \<Rightarrow> s | None \<Rightarrow> ''reseller-example-secret'')
           in if \<not> url_ok rpc_url then return_fault (Panic rpc_unwrap)
              else
                expect_call fails (FundAddress rpc_url recipient) ''faucet funding failed'' (
                expect_call fails (CreatePayment recipient rpc_url secret)
                  ''failed to create payment handler'' (
                expect_call fails (BindAddress ''0.0.0.0:3000'') ''bind'' (
                events PrintText (reseller_banner recipient st) (
                expect_call fails ServeRequests ''serve'' (
                return_ok st)))))))"

section \<open>Routes\<close>

datatype endpoint = Health | NotaryPubkey | Messages

definition reseller_routes :: "(string \<times> string \<times> endpoint) list" where
  "reseller_routes =
     [(''/health'', ''GET'', Health),
      (''/notary/pubkey'', ''GET'', NotaryPubkey),
      (''/v1/messages'', ''POST'', Messages)]"

record request =
  rq_method :: string
  rq_path :: string
  rq_headers :: "string \<Rightarrow> bytes option"
  rq_body :: bytes

text \<open>
  The router, given the routes: the handler it runs, or the reply it makes itself (no such
  path, another method, a body over the limit). It runs registered handlers only, a \<open>GET\<close>
  route also for \<open>HEAD\<close>, and it runs the handler of a literal path that was registered, unless
  the body is over the default limit of 2 MB.
\<close>

type_synonym 'v router = "(string \<times> string \<times> endpoint) list \<Rightarrow> request \<Rightarrow> 'v reply + endpoint"

definition router_law :: "'v router \<Rightarrow> bool" where
  "router_law route \<longleftrightarrow>
     (\<forall>rs rq. distinct (map (\<lambda>(p, m, h). (p, m)) rs) \<longrightarrow>
        (\<forall>h. route rs rq = Inr h \<longrightarrow>
           (rq_path rq, rq_method rq, h) \<in> set rs
           \<or> rq_method rq = ''HEAD'' \<and> (rq_path rq, ''GET'', h) \<in> set rs) \<and>
        (\<forall>h. (rq_path rq, rq_method rq, h) \<in> set rs \<longrightarrow> length (rq_body rq) \<le> 2097152 \<longrightarrow>
           route rs rq = Inr h))"

definition json_ok :: "'v \<Rightarrow> 'v reply" where
  "json_ok v =
     \<lparr>reply_status = 200, reply_headers = [(''content-type'', ''application/json'')], reply_body = JsonBody v\<rparr>"

definition health :: "'v json_lib \<Rightarrow> 'v reply" where
  "health J = json_ok (jobject J [(''status'', jstring J ''ok'')])"

definition handle_request ::
  "libs \<Rightarrow> 'v json_lib \<Rightarrow> ('c, 'ch, 'r) mpp_lib \<Rightarrow> 'v router \<Rightarrow> prover_env \<Rightarrow> app \<Rightarrow> request
     \<Rightarrow> ('c reseller_call, 'v reply) script" where
  "handle_request L J M route E st rq =
     (case route reseller_routes rq of
        Inl reply \<Rightarrow> return_ok reply
      | Inr h \<Rightarrow>
          (case h of
             Health \<Rightarrow> return_ok (health J)
           | NotaryPubkey \<Rightarrow> return_ok (json_ok (notary_pubkey_route J st))
           | Messages \<Rightarrow> messages L J M E st (rq_headers rq) (rq_body rq)))"

lemma routes_distinct: "distinct (map (\<lambda>(p, m, h). (p, m)) reseller_routes)"
  by (simp add: reseller_routes_def)

lemma routed_registered:
  assumes "router_law route" and "route reseller_routes rq = Inr h"
  shows "(rq_path rq, rq_method rq, h) \<in> set reseller_routes
    \<or> rq_method rq = ''HEAD'' \<and> (rq_path rq, ''GET'', h) \<in> set reseller_routes"
  using assms routes_distinct unfolding router_law_def by blast

lemma routed_to:
  assumes "router_law route" and "(rq_path rq, rq_method rq, h) \<in> set reseller_routes"
    and "length (rq_body rq) \<le> 2097152"
  shows "route reseller_routes rq = Inr h"
  using assms routes_distinct unfolding router_law_def by blast

text \<open>Only \<open>POST /v1/messages\<close> reaches the handler that calls out.\<close>

lemma routed_messages:
  "router_law route \<Longrightarrow> route reseller_routes rq = Inr Messages \<Longrightarrow>
     rq_path rq = ''/v1/messages'' \<and> rq_method rq = ''POST''"
  by (drule (1) routed_registered) (auto simp: reseller_routes_def)

lemma handle_request_calls:
  assumes "router_law route" and "handle_request L J M route E st rq [] = (res, tr)" and "tr \<noteq> []"
  shows "rq_path rq = ''/v1/messages'' \<and> rq_method rq = ''POST''
    \<and> messages L J M E st (rq_headers rq) (rq_body rq) [] = (res, tr)"
proof -
  have "route reseller_routes rq = Inr Messages"
    using assms(2,3)
    by (auto simp: handle_request_def script_simps split: sum.splits endpoint.splits)
  then show ?thesis
    using routed_messages [OF assms(1)] assms(2) by (simp add: handle_request_def)
qed

section \<open>Outcomes of the start\<close>

definition startup_calls :: "string \<Rightarrow> string \<Rightarrow> string \<Rightarrow> reseller_main_call list" where
  "startup_calls rpc_url recipient secret =
     [FundAddress rpc_url recipient, CreatePayment recipient rpc_url secret, BindAddress ''0.0.0.0:3000'']"

lemma reseller_main_serves:
  "stops (reseller_main L url_ok fails recipient var)
     (\<lambda>r tr. \<forall>st. r = Inr st \<longrightarrow>
        (\<exists>rpc_url secret. reseller_setup L var = Inr (rpc_url, st) \<and> url_ok rpc_url \<and>
           (\<forall>c \<in> set tr. \<not> (\<exists>l. c = PrintText l) \<longrightarrow> fails c = None) \<and>
           tr = startup_calls rpc_url recipient secret @ map PrintText (reseller_banner recipient st)
                @ [ServeRequests])) []"
  unfolding reseller_main_def Let_def
  by (intro stops_rules) (auto simp: stops_def script_simps expect_call_def startup_calls_def split: option.split)

lemma reseller_main_panics:
  "stops (reseller_main L url_ok fails recipient var) (\<lambda>r tr. \<forall>f. r = Inl f \<longrightarrow> (\<exists>m. f = Panic m)) []"
proof -
  have "reseller_setup L var = Inl f \<Longrightarrow> \<exists>m. f = Panic m" for f
    by (auto simp: reseller_setup_def Let_def split: option.splits)
  then show ?thesis
    unfolding reseller_main_def Let_def
    by (intro stops_rules) (auto simp: stops_def script_simps expect_call_def split: option.split)
qed

end
