(* ===== verification/Receipt_Types.thy ===== *)
theory Receipt_Types
  imports Honest_Run
begin

text \<open>
  The shape of the data the program produces, as opposed to what a verifier lets pass: digests
  are 64 lower-case hexadecimal digits, keys 64 and signatures 128; a receipt is a graph whose
  ids are unique, whose edges resolve, that has no cycle and contains its output. The
  serializers carry strings, so nothing but the code that builds a receipt ensures this.
\<close>

section \<open>Hexadecimal strings\<close>

definition hex_string :: "nat \<Rightarrow> string \<Rightarrow> bool" where
  "hex_string n s \<longleftrightarrow> length s = 2 * n \<and> set s \<subseteq> set ''0123456789abcdef''"

text \<open>\<open>hex::encode\<close>: two lower-case digits for each byte.\<close>

definition hex_shape_law :: "libs \<Rightarrow> bool" where
  "hex_shape_law L \<longleftrightarrow> (\<forall>b. hex_string (length b) (hex_encode L b))"

named_theorems typing \<open>what the operations produce\<close>

lemma sha256_hex_typed [typing]:
  "hex_shape_law L \<Longrightarrow> sha256_law L \<Longrightarrow> hex_string 32 (sha256_hex L b)"
  by (metis hex_shape_law_def sha256_hex_def sha256_law_def)

section \<open>Attestations\<close>

definition claim_typed :: "leg_claim \<Rightarrow> bool" where
  "claim_typed c \<longleftrightarrow> hex_string 32 (request_digest c) \<and> hex_string 32 (response_digest c)"

definition proof_typed :: "leg_proof \<Rightarrow> bool" where
  "proof_typed p = (case p of NotarySig pk sig \<Rightarrow> hex_string 32 pk \<and> hex_string 64 sig)"

definition attestation_typed :: "leg_attestation \<Rightarrow> bool" where
  "attestation_typed att \<longleftrightarrow> claim_typed (claim att) \<and> proof_typed (leg_proof_of att)"

definition typing_laws :: "libs \<Rightarrow> bool" where
  "typing_laws L \<longleftrightarrow> hex_shape_law L \<and> sha256_law L \<and> ed25519_law L"

lemma witnessed_claim_typed [typing]:
  "typing_laws L \<Longrightarrow> claim_typed (witnessed_claim L h sent received t)"
  by (simp add: claim_typed_def typing_laws_def typing)

lemma public_key_typed [typing]:
  "typing_laws L \<Longrightarrow> length (signing_key n) = 32 \<Longrightarrow> hex_string 32 (public_key_hex L n)"
  by (metis ed25519_law_def hex_shape_law_def public_key_hex_def typing_laws_def)

lemma signature_typed:
  "typing_laws L \<Longrightarrow> length (signing_key n) = 32 \<Longrightarrow>
     hex_string 64 (hex_encode L (sk_sign L (signing_key n) m))"
  by (metis ed25519_law_def hex_shape_law_def typing_laws_def)

lemma attest_typed [typing]:
  "typing_laws L \<Longrightarrow> length (signing_key n) = 32 \<Longrightarrow> claim_typed c \<Longrightarrow> attestation_typed (attest L n c)"
  by (simp add: attestation_typed_def proof_typed_def public_key_typed signature_typed)

lemma from_seed_key: "typing_laws L \<Longrightarrow> length (signing_key (from_seed L seed)) = 32"
  by (simp add: from_seed_def typing_laws_def sha256_law_def)

lemma witnessed_typed [typing]:
  "typing_laws L \<Longrightarrow> witnessed L cfg E c \<Longrightarrow> claim_typed c"
  by (auto simp: witnessed_def typing)

section \<open>Receipts\<close>

definition node_typed :: "node \<Rightarrow> bool" where
  "node_typed n \<longleftrightarrow> hex_string 32 (output_digest n) \<and>
     (case node_proof_of n of Leg att \<Rightarrow> attestation_typed att \<and> inputs n = [] | Interior _ \<Rightarrow> True)"

definition receipt_typed :: "harness_receipt \<Rightarrow> bool" where
  "receipt_typed r \<longleftrightarrow>
     distinct (map node_id (nodes r)) \<and>
     (\<forall>n \<in> set (nodes r). node_typed n \<and> set (inputs n) \<subseteq> node_id ` set (nodes r)) \<and>
     acyclic (depends (node_map (nodes r))) \<and>
     output_node r \<in> node_id ` set (nodes r)"

lemma bundle_acyclic: "acyclic (depends (node_map (nodes (make_bundle leg d p))))"
proof -
  have "depends (node_map (nodes (make_bundle leg d p))) \<subseteq> {(''verdict'', ''leg0'')}"
    by (auto simp: depends_def bundle_map split: if_splits)
  moreover have "acyclic {(''verdict'', ''leg0'')}"
    by (simp add: acyclic_def trancl_insert2)
  ultimately show ?thesis by (rule acyclic_subset [rotated])
qed

lemma make_bundle_typed [typing]:
  assumes "attestation_typed leg" and "hex_string 32 d"
  shows "receipt_typed (make_bundle leg d p)"
proof -
  have "hex_string 32 (response_digest (claim leg))"
    using assms(1) by (simp add: attestation_typed_def claim_typed_def)
  then show ?thesis
    using assms bundle_acyclic [of leg d p]
    by (simp add: receipt_typed_def node_typed_def) (simp add: make_bundle_def)
qed

text \<open>What the response carries is that receipt.\<close>

lemma deliver_receipt:
  assumes "deliver L J M st receipt response_body leg = Inr reply"
  shows "\<exists>verdict. (PROVABLY_RECEIPT_HEADER,
     to_header L (make_bundle leg (sha256_hex L verdict) (reference M receipt))) \<in> set (reply_headers reply)
     \<and> reply_body reply = TextBody verdict"
  using assms by (auto simp: deliver_def Let_def split: sum.splits if_splits)

end
