(* ===== verification/Reseller_Properties.thy ===== *)
theory Reseller_Properties
  imports Reference_Run Reseller_Server Receipt_Types
begin

text \<open>
  Properties of the payment-gated handler: the order of payment, proof and delivery, what each
  status says about the run, and the distribution of the notary's key.
\<close>

text \<open>
  Nothing goes upstream before the money: if the handler made any call of the prover
  session, the request presented a credential that verified, and verifying it came first.
\<close>

theorem upstream_only_after_payment:
  assumes "messages L J M E st headers body [] = (res, tr)" and "ProverCall k \<in> set tr"
  shows "\<exists>c receipt calls. presented M headers = Some c \<and> verify_credential M c = Inr receipt \<and>
     tr = VerifyCredential c # map ProverCall calls \<and> k \<in> set calls"
  using assms(1)
proof (cases rule: messages_cases)
  case (failed c receipt e calls)
  then show ?thesis using assms(2) by auto
next
  case (crashed c receipt m calls)
  then show ?thesis using assms(2) by auto
next
  case (answered c receipt response_body leg calls)
  then show ?thesis using assms(2) by auto
qed (use assms(2) in simp_all)

lemma ref_messages_calls:
  "\<exists>res tr. messages ref_libs ref_json ref_mpp ref_prover ref_app ref_paid_headers body [] = (res, tr)
     \<and> ProverCall Prove \<in> set tr"
proof -
  obtain rs where rs: "reveal_plan (api_key ref_app) (pv_sent ref_prover) = Inr rs"
    using ref_plan by blast
  have "attestation_from_json ref_libs (pv_attestation ref_prover) = Some ref_signed"
    by (simp only: ref_sel ref_attestation_read)
  note run = run_prover_quiet [OF _ rs this, of body]
  show ?thesis
    using messages_paid [OF ref_paid run, of ref_json] by (simp add: ref_sel)
qed

theorem upstream_only_after_payment_witness:
  "\<exists>c receipt. presented ref_mpp ref_paid_headers = Some c \<and> verify_credential ref_mpp c = Inr receipt"
proof -
  obtain res tr where
    "messages ref_libs ref_json ref_mpp ref_prover ref_app ref_paid_headers [] [] = (res, tr)"
    and "ProverCall Prove \<in> set tr"
    using ref_messages_calls by blast
  from upstream_only_after_payment [OF this] show ?thesis by blast
qed

text \<open>
  C22. A reply with status 200 is a complete run: the payment verified, the prover session made
  every call, revealing exactly the planned ranges, the notary's attestation was decoded, and
  the body is the transform of the answer, the upstream's own answer in honest mode.
\<close>

theorem delivered_only_complete:
  assumes "messages L J M E st headers body [] = (Inr reply, tr)" and "reply_status reply = 200"
  shows "\<exists>c receipt leg rs answer. presented M headers = Some c \<and> verify_credential M c = Inr receipt \<and>
     reveal_plan (api_key st) (pv_sent E) = Inr rs \<and>
     attestation_from_json L (pv_attestation E) = Some leg \<and>
     tr = VerifyCredential c # map ProverCall (before_disclosure st body E @ map reveal_call rs @
            [BuildProveConfig, Prove, CloseProver, CloseSession, JoinSession, FinishSession, ReadAttestation]) \<and>
     reply_body reply = TextBody (starts_with_yes J answer) \<and>
     (app_mode st = Honest \<longrightarrow> answer = pv_body E)"
  using assms(1)
proof (cases rule: messages_cases)
  case unpaid
  then show ?thesis using assms(2) challenge_status [of J M st] by simp
next
  case (answered c receipt response_body leg calls)
  obtain rs where "reveal_plan (api_key st) (pv_sent E) = Inr rs"
    and "response_body = pv_body E" and "attestation_from_json L (pv_attestation E) = Some leg"
    and "calls = before_disclosure st body E @ map reveal_call rs @
       [BuildProveConfig, Prove, CloseProver, CloseSession, JoinSession, FinishSession, ReadAttestation]"
    using stops_result [OF run_prover_ends answered(3)] by (auto simp: prover_ends_def)
  moreover obtain answer where "reply_body reply = TextBody (starts_with_yes J answer)"
    and "app_mode st = Honest \<longrightarrow> answer = response_body"
    using deliver_reply(2) [OF answered(4) [symmetric]] by (auto split: mode.splits)
  ultimately show ?thesis using answered by metis
qed (use assms(2) in simp_all)

theorem delivered_only_complete_witness:
  "\<exists>reply tr. messages ref_libs ref_json ref_mpp ref_prover ref_app ref_paid_headers ref_request [] = (Inr reply, tr) \<and>
     reply_body reply = TextBody (starts_with_yes ref_json (ref_answer ''Yes''))"
proof -
  obtain reply where fst: "fst (messages ref_libs ref_json ref_mpp ref_prover ref_app ref_paid_headers ref_request [])
      = Inr reply" and status: "reply_status reply = 200"
    using honest_reply [OF ref_run_laws ref_deployed ref_good_session ref_good_prover ref_paid,
        of ref_json] by blast
  obtain tr where run: "messages ref_libs ref_json ref_mpp ref_prover ref_app ref_paid_headers ref_request []
      = (Inr reply, tr)"
    using fst by (cases "messages ref_libs ref_json ref_mpp ref_prover ref_app ref_paid_headers ref_request []") simp
  from delivered_only_complete [OF run status] show ?thesis
    using run by (auto simp: ref_sel)
qed

text \<open>
  C24. The status tells the branch: 402 and 500 are replied without a single call upstream, 502
  exactly when a paid session ended with an error, and nothing else but 200 is ever replied.
\<close>

theorem status_tells_branch:
  assumes "messages L J M E st headers body [] = (Inr reply, tr)"
  shows "reply_status reply \<in> {200, 402, 500, 502} \<and>
     (reply_status reply \<in> {402, 500} \<longrightarrow> (\<forall>k. ProverCall k \<notin> set tr)) \<and>
     (reply_status reply = 502 \<longleftrightarrow>
        (\<exists>c receipt e. presented M headers = Some c \<and> verify_credential M c = Inr receipt \<and>
           fst (run_prover L E st body []) = Inl (Bail e)))"
  using assms
proof (cases rule: messages_cases)
  case unpaid
  then show ?thesis using challenge_status [of J M st] by auto
next
  case (answered c receipt response_body leg calls)
  then show ?thesis using deliver_reply(1) [OF answered(4) [symmetric]] by auto
qed auto

theorem status_tells_branch_witness:
  "reply_status (challenge ref_json ref_mpp ref_app) \<in> {200, 402, 500, 502}"
proof -
  have "messages ref_libs ref_json ref_mpp ref_prover ref_app (\<lambda>_. None) [] [] =
      (Inr (challenge ref_json ref_mpp ref_app), [])"
    by (rule messages_unpaid) (simp add: presented_def)
  from conjunct1 [OF status_tells_branch [OF this]] show ?thesis .
qed

text \<open>
  C25. An empty API key costs the buyer its payment: with UPSTREAM_API_KEY set to the empty
  string every paid request that gets through upstream ends in a panic, after the credential
  was verified and the request was sent.
\<close>

theorem empty_key_panics:
  assumes "presented M headers = Some c" and "verify_credential M c = Inr receipt"
    and "api_key st = Some []" and "\<forall>k. pv_fails E k = None"
  shows "messages L J M E st headers body [] =
     (Inl (Panic ''window size must be non-zero''),
      VerifyCredential c # map ProverCall (before_disclosure st body E)) \<and>
     SendRequest (build_request st body) \<in> set (before_disclosure st body E)"
proof -
  have "run_prover L E st body [] =
      (Inl (Panic ''window size must be non-zero''), before_disclosure st body E)"
    using assms(3,4)
    by (simp add: run_prover_def prove_and_read_def script_simps reveal_plan_cases before_disclosure_def
        Let_def)
  from messages_paid [OF assms(1,2) this, of J] show ?thesis
    by (simp add: before_disclosure_def)
qed

theorem empty_key_panics_witness:
  "fst (messages ref_libs ref_json ref_mpp ref_prover (ref_app\<lparr>api_key := Some []\<rparr>) ref_paid_headers [] [])
     = Inl (Panic ''window size must be non-zero'')"
  using empty_key_panics [OF ref_paid, of "ref_app\<lparr>api_key := Some []\<rparr>" ref_prover ref_libs ref_json "[]"]
  by (simp add: ref_sel)

text \<open>
  Key distribution: a notary and a reseller started with the same seed agree on the
  notary's key, and a buyer that pins none gets this key from the reseller's route.
\<close>

theorem setups_agree_on_key:
  fixes J :: "'v json_lib"
  assumes "notary_setup L nvar = Inr (listen, cfg)" and "reseller_setup L rvar = Inr (rpc, st)"
    and "rvar ''NOTARY_SEED'' = nvar ''NOTARY_SEED''"
    and "be_var B ''NOTARY_PUBKEY'' = None" and "be_get B (url @ ''/notary/pubkey'') = Inr (notary_pubkey_route J st)"
    and "\<And>k v. jas_str J (jkey J (jobject J [(k, jstring J v)]) k) = Some v"
  shows "app_notary_pubkey st = public_key_hex L (cfg_notary cfg) \<and>
     pinned_key J B url = Inr (public_key_hex L (cfg_notary cfg))"
proof -
  have key: "app_notary_pubkey st = public_key_hex L (cfg_notary cfg)"
    using setup_keys [OF assms(1,2)] assms(3) by simp
  then show ?thesis
    using assms(4-6) by (simp add: pinned_key_def notary_pubkey_route_def)
qed

theorem setups_agree_on_key_witness:
  "pinned_key ref_json (ref_buyer\<lparr>be_var := (\<lambda>_. None), be_get := (\<lambda>_. Inr (notary_pubkey_route ref_json ref_app))\<rparr>) ''u''
     = Inr (public_key_hex ref_libs ref_notary)"
proof -
  obtain listen rpc where "notary_setup ref_libs ref_nvar = Inr (listen, ref_config)"
      and "reseller_setup ref_libs ref_rvar = Inr (rpc, ref_app)"
    using ref_deployed unfolding deployed_def by blast
  from setups_agree_on_key [OF this, of "ref_buyer\<lparr>be_var := (\<lambda>_. None),
      be_get := (\<lambda>_. Inr (notary_pubkey_route ref_json ref_app))\<rparr>" "''u''" ref_json]
  show ?thesis
    by (simp add: ref_rvar_def ref_nvar_def ref_json_def ref_config_def)
qed

section \<open>The server\<close>

text \<open>A router over the registered routes: exact paths and methods, bodies up to the limit.\<close>

definition ref_route :: "json router" where
  "ref_route rs rq =
     (case map_of (map (\<lambda>(p, m, h). ((p, m), h)) rs) (rq_path rq, rq_method rq) of
        Some h \<Rightarrow>
          (if length (rq_body rq) \<le> 2097152 then Inr h
           else Inl \<lparr>reply_status = 413, reply_headers = [], reply_body = TextBody []\<rparr>)
      | None \<Rightarrow> Inl \<lparr>reply_status = 404, reply_headers = [], reply_body = TextBody []\<rparr>)"

lemma ref_router_law: "router_law ref_route"
  unfolding router_law_def
proof (intro allI impI conjI)
  fix rs :: "(string \<times> string \<times> endpoint) list" and rq h
  let ?kvs = "map (\<lambda>(p, m, h). ((p, m), h)) rs"
  assume "distinct (map (\<lambda>(p, m, h). (p, m)) rs)"
  then have dist: "distinct (map fst ?kvs)"
    by (simp add: comp_def case_prod_unfold)
  show "(rq_path rq, rq_method rq, h) \<in> set rs \<or> rq_method rq = ''HEAD'' \<and> (rq_path rq, ''GET'', h) \<in> set rs"
    if "ref_route rs rq = Inr h"
  proof -
    have "map_of ?kvs (rq_path rq, rq_method rq) = Some h"
      using that by (auto simp: ref_route_def split: option.splits if_splits)
    then show ?thesis by (auto dest!: map_of_SomeD)
  qed
  show "ref_route rs rq = Inr h"
    if "(rq_path rq, rq_method rq, h) \<in> set rs" and "length (rq_body rq) \<le> 2097152"
  proof -
    have "((rq_path rq, rq_method rq), h) \<in> set ?kvs"
      using that(1) by force
    then show ?thesis
      using map_of_is_SomeI [OF dist] that(2) by (simp add: ref_route_def)
  qed
qed

text \<open>
  Only paid requests for messages reach the upstream: if the server makes any call for a
  request, that request is a POST to /v1/messages, it presented a credential, verifying this
  credential came first, and calls of the prover session follow only if it was verified.
\<close>

theorem only_paid_messages_go_upstream:
  assumes "router_law route" and "handle_request L J M route E st rq [] = (res, tr)" and "tr \<noteq> []"
  shows "rq_method rq = ''POST'' \<and> rq_path rq = ''/v1/messages'' \<and>
     (\<exists>c calls. presented M (rq_headers rq) = Some c \<and> tr = VerifyCredential c # map ProverCall calls \<and>
        (calls \<noteq> [] \<longrightarrow> (\<exists>receipt. verify_credential M c = Inr receipt)))"
proof -
  note call = handle_request_calls [OF assms]
  then have "messages L J M E st (rq_headers rq) (rq_body rq) [] = (res, tr)" by blast
  then have "\<exists>c calls. presented M (rq_headers rq) = Some c \<and> tr = VerifyCredential c # map ProverCall calls \<and>
        (calls \<noteq> [] \<longrightarrow> (\<exists>receipt. verify_credential M c = Inr receipt))"
    by (cases rule: messages_cases) (use assms(3) in auto)
  with call show ?thesis by blast
qed

definition ref_post :: request where
  "ref_post = \<lparr>rq_method = ''POST'', rq_path = ''/v1/messages'', rq_headers = ref_paid_headers, rq_body = []\<rparr>"

theorem only_paid_messages_go_upstream_witness:
  "\<exists>c calls. snd (handle_request ref_libs ref_json ref_mpp ref_route ref_prover ref_app ref_post [])
     = VerifyCredential c # map ProverCall calls"
proof -
  have route: "ref_route reseller_routes ref_post = Inr Messages"
    by (simp add: ref_route_def reseller_routes_def ref_post_def)
  obtain res tr where run: "messages ref_libs ref_json ref_mpp ref_prover ref_app ref_paid_headers [] [] = (res, tr)"
      and calls: "ProverCall Prove \<in> set tr"
    using ref_messages_calls by blast
  have "handle_request ref_libs ref_json ref_mpp ref_route ref_prover ref_app ref_post [] = (res, tr)"
    using route run by (simp add: handle_request_def ref_post_def)
  moreover have "tr \<noteq> []" using calls by auto
  ultimately show ?thesis
    using only_paid_messages_go_upstream [OF ref_router_law] by fastforce
qed

text \<open>
  The key a buyer fetches is the key the notary signs with: with notary and reseller started
  on one seed, whatever the environment of the session, the reseller's server answers GET
  /notary/pubkey without a call, and a buyer that pins the fetched value pins the key every
  attestation of this notary names.
\<close>

theorem fetched_key_is_signing_key:
  fixes J :: "'v json_lib"
  assumes "notary_setup L nvar = Inr (listen, cfg)" and "reseller_setup L rvar = Inr (rpc, st)"
    and "rvar ''NOTARY_SEED'' = nvar ''NOTARY_SEED''" and "router_law route"
    and "rq_method rq = ''GET''" and "rq_path rq = ''/notary/pubkey''" and "rq_body rq = []"
    and "be_var B ''NOTARY_PUBKEY'' = None"
    and "\<And>reply v. handle_request L J M route E st rq [] = (Inr reply, []) \<Longrightarrow>
           reply_status reply = 200 \<Longrightarrow> reply_body reply = JsonBody v \<Longrightarrow>
           be_get B (url @ ''/notary/pubkey'') = Inr v"
    and "\<And>k v. jas_str J (jkey J (jobject J [(k, jstring J v)]) k) = Some v"
  shows "\<exists>k. pinned_key J B url = Inr k \<and> (\<forall>c. notary_pubkey (attest L (cfg_notary cfg) c) = Some k)"
proof -
  have "(rq_path rq, rq_method rq, NotaryPubkey) \<in> set reseller_routes"
    using assms(5,6) by (simp add: reseller_routes_def)
  then have "route reseller_routes rq = Inr NotaryPubkey"
    by (rule routed_to [OF assms(4)]) (simp add: assms(7))
  then have "handle_request L J M route E st rq [] = (Inr (json_ok (notary_pubkey_route J st)), [])"
    by (simp add: handle_request_def script_simps)
  then have "be_get B (url @ ''/notary/pubkey'') = Inr (notary_pubkey_route J st)"
    by (rule assms(9)) (simp_all add: json_ok_def)
  then have "pinned_key J B url = Inr (public_key_hex L (cfg_notary cfg))"
    using setups_agree_on_key [OF assms(1-3,8) _ assms(10)] by blast
  then show ?thesis by simp
qed

definition ref_get_key_request :: request where
  "ref_get_key_request =
     \<lparr>rq_method = ''GET'', rq_path = ''/notary/pubkey'', rq_headers = (\<lambda>_. None), rq_body = []\<rparr>"

lemma ref_get_key_request_sel:
  "rq_method ref_get_key_request = ''GET''" "rq_path ref_get_key_request = ''/notary/pubkey''"
  "rq_body ref_get_key_request = []"
  "jas_str ref_json (jkey ref_json (jobject ref_json [(k, jstring ref_json v)]) k) = Some v"
  by (simp_all add: ref_get_key_request_def ref_json_def)

theorem fetched_key_is_signing_key_witness:
  "\<exists>k. pinned_key ref_json (ref_buyer\<lparr>be_var := (\<lambda>_. None), be_get := (\<lambda>_. Inr (notary_pubkey_route ref_json ref_app))\<rparr>) ''u''
     = Inr k \<and> notary_pubkey ref_signed = Some k"
proof -
  obtain listen rpc where started: "notary_setup ref_libs ref_nvar = Inr (listen, ref_config)"
      "reseller_setup ref_libs ref_rvar = Inr (rpc, ref_app)"
    using ref_deployed unfolding deployed_def by blast
  let ?B = "ref_buyer\<lparr>be_var := (\<lambda>_. None), be_get := (\<lambda>_. Inr (notary_pubkey_route ref_json ref_app))\<rparr>"
  have answered: "handle_request ref_libs ref_json ref_mpp ref_route ref_prover ref_app ref_get_key_request []
      = (Inr (json_ok (notary_pubkey_route ref_json ref_app)), [])"
    by (simp add: handle_request_def ref_route_def reseller_routes_def ref_get_key_request_def script_simps)
  have "\<exists>k. pinned_key ref_json ?B ''u'' = Inr k
      \<and> (\<forall>c. notary_pubkey (attest ref_libs (cfg_notary ref_config) c) = Some k)"
    by (rule fetched_key_is_signing_key [OF started _ ref_router_law, where rq = ref_get_key_request
          and M = ref_mpp and E = ref_prover])
      (auto simp: ref_rvar_def ref_nvar_def answered json_ok_def ref_get_key_request_sel)
  then show ?thesis
    by (auto simp: ref_signed_def ref_config_def)
qed

text \<open>
  C26. The reseller serves only what it set up: when it serves, it has the state its environment
  configures, the faucet, the payment handler and the listener succeeded in this order, and the
  announced lines came before the first request; a start that fails is a panic, and the server
  never listens before its wallet is funded and its payment handler exists.
\<close>

theorem reseller_start_outcomes:
  assumes "reseller_main L url_ok fails recipient var [] = (r, tr)"
  shows "(case r of
       Inr st \<Rightarrow> \<exists>rpc_url secret. reseller_setup L var = Inr (rpc_url, st) \<and> url_ok rpc_url \<and>
          tr = startup_calls rpc_url recipient secret @ map PrintText (reseller_banner recipient st)
               @ [ServeRequests] \<and>
          (\<forall>c \<in> set (ServeRequests # startup_calls rpc_url recipient secret). fails c = None)
     | Inl f \<Rightarrow> \<exists>m. f = Panic m) \<and>
     (BindAddress ''0.0.0.0:3000'' \<in> set tr \<longrightarrow>
        (\<exists>rpc_url st secret. reseller_setup L var = Inr (rpc_url, st) \<and>
           fails (FundAddress rpc_url recipient) = None \<and> fails (CreatePayment recipient rpc_url secret) = None))"
proof -
  have bind: "stops (reseller_main L url_ok fails recipient var)
     (\<lambda>r tr. BindAddress ''0.0.0.0:3000'' \<in> set tr \<longrightarrow>
        (\<exists>rpc_url st secret. reseller_setup L var = Inr (rpc_url, st) \<and>
           fails (FundAddress rpc_url recipient) = None \<and> fails (CreatePayment recipient rpc_url secret) = None)) []"
    unfolding reseller_main_def Let_def
    by (intro stops_rules) (auto simp: stops_def script_simps expect_call_def split: option.split)
  show ?thesis
    using stops_result [OF reseller_main_serves assms] stops_result [OF reseller_main_panics assms]
      stops_result [OF bind assms]
    by (cases r) (fastforce simp: startup_calls_def)+
qed

theorem reseller_start_outcomes_witness:
  "\<exists>tr. reseller_main ref_libs (\<lambda>_. True) (\<lambda>_. None) ''0x01'' ref_rvar [] = (Inr ref_app, tr) \<and>
     (\<exists>st rpc_url. reseller_setup ref_libs ref_rvar = Inr (rpc_url, st))"
proof -
  obtain rpc where "reseller_setup ref_libs ref_rvar = Inr (rpc, ref_app)"
    using ref_deployed unfolding deployed_def by blast
  then obtain tr where run: "reseller_main ref_libs (\<lambda>_. True) (\<lambda>_. None) ''0x01'' ref_rvar [] = (Inr ref_app, tr)"
    by (simp add: reseller_main_def script_simps Let_def)
  from reseller_start_outcomes [OF this] run show ?thesis by auto
qed

section \<open>The type of what is delivered\<close>

text \<open>
  C23. A delivered receipt is well-formed: when the attestation the prover read is one the notary
  made of a witnessed claim, the header of a successful reply decodes to a receipt with unique
  ids, edges that resolve, no cycle and its output among its nodes, whose digests are 64, keys
  64 and signatures 128 lower-case hexadecimal digits, in either mode of the reseller.
\<close>

theorem delivered_receipt_typed:
  assumes "typing_laws L" and "receipt_codec_law L" and "length (signing_key (cfg_notary cfg)) = 32"
    and "attestation_from_json L (pv_attestation E) = Some (attest L (cfg_notary cfg) c)"
    and "witnessed L cfg E' c"
    and "messages L J M E st headers body [] = (Inr reply, tr)" and "reply_status reply = 200"
  shows "\<exists>value r. (PROVABLY_RECEIPT_HEADER, value) \<in> set (reply_headers reply) \<and>
     read_receipt_header L value = Inr r \<and> receipt_typed r"
  using assms(6)
proof (cases rule: messages_cases)
  case unpaid
  then show ?thesis using assms(7) challenge_status [of J M st] by simp
next
  case (answered cr receipt response_body leg calls)
  have "leg = attest L (cfg_notary cfg) c"
    using stops_result [OF run_prover_ends answered(3)] assms(4) by (auto simp: prover_ends_def)
  then have leg: "attestation_typed leg"
    using assms(1,3,5) by (simp add: typing)
  obtain verdict where header: "(PROVABLY_RECEIPT_HEADER,
     to_header L (make_bundle leg (sha256_hex L verdict) (reference M receipt))) \<in> set (reply_headers reply)"
    using deliver_receipt [OF answered(4) [symmetric]] by blast
  have "read_receipt_header L (to_header L r) = Inr r" for r
    using receipt_codec.dec_enc [OF assms(2)] by (simp add: read_receipt_header_def)
  moreover have "receipt_typed (make_bundle leg (sha256_hex L verdict) (reference M receipt))"
    using leg assms(1) by (simp add: typing typing_laws_def)
  ultimately show ?thesis using header by blast
qed (use assms(7) in simp_all)

lemma ref_typing_laws: "typing_laws ref_libs"
proof -
  have "\<forall>d \<in> set [0..<16]. digit_char d \<in> set ''0123456789abcdef''"
    by code_simp
  then have digit: "digit_char d \<in> set ''0123456789abcdef''" if "d < 16" for d
    using that by simp
  have "hex_string (length b) (ref_hex b)" for b
  proof (induction b)
    case (Cons x b)
    have "byte_val x div 16 < 16" using byte_val_less [of x] by arith
    then show ?case
      using Cons digit [of "byte_val x div 16"] digit [of "byte_val x mod 16"]
      unfolding hex_string_def ref_hex.simps by (simp only: list.size list.set insert_subset) simp
  qed (simp add: hex_string_def)
  then show ?thesis by (simp add: typing_laws_def hex_shape_law_def)
qed

theorem delivered_receipt_typed_witness:
  "\<exists>value r. read_receipt_header ref_libs value = Inr r \<and> receipt_typed r"
proof -
  obtain reply where "fst (messages ref_libs ref_json ref_mpp ref_prover ref_app ref_paid_headers ref_request [])
      = Inr reply" and status: "reply_status reply = 200"
    using honest_reply [OF ref_run_laws ref_deployed ref_good_session ref_good_prover ref_paid,
        of ref_json] by blast
  then obtain tr where run: "messages ref_libs ref_json ref_mpp ref_prover ref_app ref_paid_headers ref_request []
      = (Inr reply, tr)"
    by (cases "messages ref_libs ref_json ref_mpp ref_prover ref_app ref_paid_headers ref_request []") simp
  have "cfg_notary ref_config = ref_notary" by (simp add: ref_config_def)
  then have "attestation_from_json ref_libs (pv_attestation ref_prover)
      = Some (attest ref_libs (cfg_notary ref_config) ref_witnessed)"
    using ref_attestation_read by (simp only: ref_sel(6) ref_signed_def)
  moreover have "length (signing_key (cfg_notary ref_config)) = 32"
    by (simp add: ref_config_def ref_key_length)
  ultimately show ?thesis
    using delivered_receipt_typed [OF ref_typing_laws ref_codec_laws(1) _ _ ref_witnessed run status]
    by blast
qed

end
