(* ===== verification/Notary_Server.thy ===== *)
theory Notary_Server
  imports Notary_Service
begin

text \<open>
  The rest of \<open>main\<close> in \<open>tlsn/notary/src/main.rs\<close>: the listener and the accept loop, which
  spawns one task per connection. The server is driven by events: a connection is accepted, a
  session begins its next call, a call returns, a session ends, or \<open>accept\<close> fails, which ends
  \<open>main\<close> and with it every task under way. Events of different sessions interleave freely. None
  of them has to come: a call that never returns (no await of the source has a time limit) is
  one whose \<open>Returned\<close> never comes, and its task then stays as it is.
\<close>

section \<open>Start-up\<close>

datatype notary_main_call = BindListener string | PrintLine string

definition notary_banner :: "libs \<Rightarrow> string \<Rightarrow> notary_config \<Rightarrow> string list" where
  "notary_banner L listen cfg =
     [''notary (proxy mode) listening on '' @ listen,
      ''  notary pubkey : '' @ public_key_hex L (cfg_notary cfg),
      ''  proxying to   : '' @ cfg_upstream_host cfg @ '':'' @ show_radix 10 (unat (cfg_upstream_port cfg))
        @ ''  (attested via its TLS certificate)'']"

definition notary_main ::
  "libs \<Rightarrow> (notary_main_call \<Rightarrow> string option) \<Rightarrow> (string \<Rightarrow> string option)
     \<Rightarrow> (notary_main_call, notary_config) script" where
  "notary_main L fails var =
     (case notary_setup L var of
        Inl f \<Rightarrow> return_fault f
      | Inr (listen, cfg) \<Rightarrow>
          call fails (BindListener listen) (events PrintLine (notary_banner L listen cfg) (return_ok cfg)))"

lemma notary_main_bound:
  assumes "notary_setup L var = Inr (listen, cfg)"
  shows "notary_main L fails var [] =
     (case fails (BindListener listen) of
        Some e \<Rightarrow> (Inl (Bail e), [BindListener listen])
      | None \<Rightarrow> (Inr cfg, BindListener listen # map PrintLine (notary_banner L listen cfg)))"
  using assms by (simp add: notary_main_def script_simps split: option.split)

section \<open>The accept loop\<close>

text \<open>A session under way: the calls it has begun, and whether it awaits the last of them.\<close>

record notary_task =
  task_peer :: string
  task_env :: notary_env  \<comment> \<open>what its calls yield, as far as they return\<close>
  task_made :: "notary_call list"
  task_awaits :: bool
  task_over :: bool

record notary_server =
  tasks :: "notary_task list"  \<comment> \<open>in the order of their connections\<close>
  error_log :: "string list"
  stopped_with :: "string option"  \<comment> \<open>the error \<open>main\<close> returned\<close>

definition init_server :: notary_server where
  "init_server = \<lparr>tasks = [], error_log = [], stopped_with = None\<rparr>"

datatype server_event =
    Accepted string notary_env
  | Called nat
  | Returned nat
  | Ended nat
  | AcceptFailed string

definition spawn_session :: "string \<Rightarrow> notary_env \<Rightarrow> notary_task" where
  "spawn_session peer E =
     \<lparr>task_peer = peer, task_env = E, task_made = [], task_awaits = False, task_over = False\<rparr>"

text \<open>What the session's code does next: a call, or its result when there is none.\<close>

definition next_call :: "libs \<Rightarrow> notary_config \<Rightarrow> notary_task \<Rightarrow> notary_call option" where
  "next_call L cfg t =
     (let tr = snd (notarize_session L cfg (task_env t) []); n = length (task_made t)
      in if n < length tr then Some (tr ! n) else None)"

text \<open>The line logged when a session returns an error.\<close>

definition session_log :: "libs \<Rightarrow> notary_config \<Rightarrow> notary_task \<Rightarrow> string list" where
  "session_log L cfg t =
     (case fst (notarize_session L cfg (task_env t) []) of
        Inl (Bail e) \<Rightarrow> [''session from '' @ task_peer t @ '' failed: '' @ e]
      | _ \<Rightarrow> [])"

definition serve_event ::
  "libs \<Rightarrow> notary_config \<Rightarrow> server_event \<Rightarrow> notary_server \<Rightarrow> notary_server option" where
  "serve_event L cfg ev s =
     (if stopped_with s \<noteq> None then None
      else case ev of
        Accepted peer E \<Rightarrow> Some (s\<lparr>tasks := tasks s @ [spawn_session peer E]\<rparr>)
      | AcceptFailed e \<Rightarrow> Some (s\<lparr>stopped_with := Some e\<rparr>)
      | Called i \<Rightarrow>
          (if i < length (tasks s) \<and> \<not> task_awaits (tasks s ! i)
           then map_option
                  (\<lambda>c. s\<lparr>tasks := (tasks s)[i := (tasks s ! i)\<lparr>task_made := task_made (tasks s ! i) @ [c],
                                                              task_awaits := True\<rparr>]\<rparr>)
                  (next_call L cfg (tasks s ! i))
           else None)
      | Returned i \<Rightarrow>
          (if i < length (tasks s) \<and> task_awaits (tasks s ! i)
           then Some (s\<lparr>tasks := (tasks s)[i := (tasks s ! i)\<lparr>task_awaits := False\<rparr>]\<rparr>)
           else None)
      | Ended i \<Rightarrow>
          (if i < length (tasks s) \<and> \<not> task_awaits (tasks s ! i) \<and> \<not> task_over (tasks s ! i)
              \<and> next_call L cfg (tasks s ! i) = None
           then Some (s\<lparr>tasks := (tasks s)[i := (tasks s ! i)\<lparr>task_over := True\<rparr>],
                        error_log := error_log s @ session_log L cfg (tasks s ! i)\<rparr>)
           else None))"

text \<open>The loop, on the events as they come; \<open>None\<close> if one of them cannot happen then.\<close>

fun serve :: "libs \<Rightarrow> notary_config \<Rightarrow> server_event list \<Rightarrow> notary_server \<Rightarrow> notary_server option" where
  "serve L cfg [] s = Some s"
| "serve L cfg (ev # evs) s = Option.bind (serve_event L cfg ev s) (serve L cfg evs)"

lemma serve_append: "serve L cfg (evs @ evs') s = Option.bind (serve L cfg evs s) (serve L cfg evs')"
  by (induction evs arbitrary: s) (auto split: Option.bind_split)

text \<open>What a step does to the tasks: a new one, none, or one of them moves on.\<close>

definition moves_on :: "libs \<Rightarrow> notary_config \<Rightarrow> notary_task \<Rightarrow> notary_task \<Rightarrow> bool" where
  "moves_on L cfg t t' \<longleftrightarrow> task_env t' = task_env t \<and>
     (task_made t' = task_made t \<or>
      (\<exists>c. next_call L cfg t = Some c \<and> task_made t' = task_made t @ [c]))"

lemma serve_eventE [consumes 1, case_names accepted accept_failed moved]:
  assumes "serve_event L cfg ev s = Some s'"
  obtains peer E where "ev = Accepted peer E" "stopped_with s = None"
      "s' = s\<lparr>tasks := tasks s @ [spawn_session peer E]\<rparr>"
    | e where "ev = AcceptFailed e" "stopped_with s = None" "s' = s\<lparr>stopped_with := Some e\<rparr>"
    | i t where "\<And>e. ev \<noteq> AcceptFailed e" "stopped_with s = None" "stopped_with s' = None"
      "i < length (tasks s)" "moves_on L cfg (tasks s ! i) t" "tasks s' = (tasks s)[i := t]"
proof (cases ev)
  case (Called i)
  then obtain c where "stopped_with s = None" "i < length (tasks s)" "next_call L cfg (tasks s ! i) = Some c"
      "s' = s\<lparr>tasks := (tasks s)[i := (tasks s ! i)\<lparr>task_made := task_made (tasks s ! i) @ [c], task_awaits := True\<rparr>]\<rparr>"
    using assms by (auto simp: serve_event_def split: if_splits)
  then show thesis
    by (intro that(3) [of i "(tasks s ! i)\<lparr>task_made := task_made (tasks s ! i) @ [c], task_awaits := True\<rparr>"])
      (simp_all add: moves_on_def Called)
next
  case (Returned i)
  then show thesis
    using assms by (intro that(3) [of i "(tasks s ! i)\<lparr>task_awaits := False\<rparr>"])
      (auto simp: serve_event_def moves_on_def split: if_splits)
next
  case (Ended i)
  then show thesis
    using assms by (intro that(3) [of i "(tasks s ! i)\<lparr>task_over := True\<rparr>"])
      (auto simp: serve_event_def moves_on_def split: if_splits)
qed (use assms that(1,2) in \<open>auto simp: serve_event_def split: if_splits\<close>)

section \<open>What a session has done so far\<close>

text \<open>At every moment the calls of a task are a beginning of those its session makes.\<close>

definition task_ok :: "libs \<Rightarrow> notary_config \<Rightarrow> notary_task \<Rightarrow> bool" where
  "task_ok L cfg t \<longleftrightarrow> prefix (task_made t) (snd (notarize_session L cfg (task_env t) []))"

definition tasks_ok :: "libs \<Rightarrow> notary_config \<Rightarrow> notary_server \<Rightarrow> bool" where
  "tasks_ok L cfg s \<longleftrightarrow> (\<forall>t \<in> set (tasks s). task_ok L cfg t)"

lemma tasks_ok_init [simp]: "tasks_ok L cfg init_server"
  by (simp add: tasks_ok_def init_server_def)

lemma moves_on_ok: "moves_on L cfg t t' \<Longrightarrow> task_ok L cfg t \<Longrightarrow> task_ok L cfg t'"
proof -
  have "prefix (xs @ [tr ! length xs]) tr" if pre: "prefix xs tr" and less: "length xs < length tr" for xs tr :: "notary_call list"
  proof -
    obtain zs where tr: "tr = xs @ zs" using pre by (auto simp: prefix_def)
    then show ?thesis using less by (cases zs) (auto simp: prefix_def)
  qed
  then show "moves_on L cfg t t' \<Longrightarrow> task_ok L cfg t \<Longrightarrow> task_ok L cfg t'"
    by (auto simp: moves_on_def task_ok_def next_call_def Let_def split: if_splits)
qed

lemma serve_event_ok: "serve_event L cfg ev s = Some s' \<Longrightarrow> tasks_ok L cfg s \<Longrightarrow> tasks_ok L cfg s'"
proof (erule serve_eventE)
  fix i t assume "tasks_ok L cfg s" "i < length (tasks s)" "moves_on L cfg (tasks s ! i) t" "tasks s' = (tasks s)[i := t]"
  then show "tasks_ok L cfg s'"
    using moves_on_ok set_update_subset_insert [of "tasks s" i t] by (fastforce simp: tasks_ok_def)
qed (auto simp: tasks_ok_def task_ok_def spawn_session_def)

text \<open>Steps only ever add calls to a session.\<close>

lemma in_set_update_cases:
  "x \<in> set xs \<Longrightarrow> i < length xs \<Longrightarrow> x = xs ! i \<or> x \<in> set (xs[i := y])"
  by (metis in_set_conv_nth length_list_update nth_list_update_neq)

lemma serve_event_keeps_task:
  assumes "serve_event L cfg ev s = Some s'" and "t \<in> set (tasks s)"
  shows "\<exists>t' \<in> set (tasks s'). task_env t' = task_env t \<and> set (task_made t) \<subseteq> set (task_made t')"
  using assms(1)
proof (cases rule: serve_eventE)
  case (moved i u)
  have "task_env u = task_env (tasks s ! i)" "set (task_made (tasks s ! i)) \<subseteq> set (task_made u)"
    using moved(5) by (auto simp: moves_on_def)
  then show ?thesis
    using in_set_update_cases [OF assms(2) moved(4), of u] set_update_memI [OF moved(4), of u]
    by (auto simp: moved(6))
qed (use assms(2) in auto)

text \<open>What was handed out so far is the attestation of a claim signed so far.\<close>

lemma task_written:
  assumes "tasks_ok L cfg s" and "t \<in> set (tasks s)" and "WriteAll b \<in> set (task_made t)"
  shows "\<exists>c. witnessed L cfg (task_env t) c \<and> SignClaim c \<in> set (task_made t)
     \<and> b = attestation_to_json L (attest L (cfg_notary cfg) c)"
proof -
  obtain r tr where run: "notarize_session L cfg (task_env t) [] = (r, tr)" by fastforce
  have pre: "prefix (task_made t) tr"
    using assms(1,2) by (auto simp: tasks_ok_def task_ok_def run)
  have "session_ends L cfg (task_env t) r tr"
    by (rule stops_result [OF notarize_session_ends run])
  moreover have "WriteAll b \<in> set tr"
    using assms(3) set_mono_prefix [OF pre] by blast
  ultimately obtain c rest where c: "witnessed L cfg (task_env t) c"
      and tr: "tr = before_signing cfg @ SignClaim c # SerializeAttestation # rest"
      and b: "b = attestation_to_json L (attest L (cfg_notary cfg) c)"
    by (auto simp: session_ends_def before_signing_def Let_def)
  have "SignClaim c \<in> set (task_made t)"
  proof (rule ccontr)
    assume "SignClaim c \<notin> set (task_made t)"
    with pre have "prefix (task_made t) (before_signing cfg)"
      unfolding tr by (auto simp: prefix_append prefix_Cons)
    with assms(3) have "WriteAll b \<in> set (before_signing cfg)"
      by (meson set_mono_prefix subsetD)
    then show False by (simp add: before_signing_def)
  qed
  with c b show ?thesis by blast
qed

text \<open>A session whose calls all return: the server after its first \<open>n\<close> calls.\<close>

lemma serve_one:
  assumes "n \<le> length (snd (notarize_session L cfg E []))"
  shows "serve L cfg (Accepted p E # concat (replicate n [Called 0, Returned 0])) init_server =
    Some \<lparr>tasks = [\<lparr>task_peer = p, task_env = E, task_made = take n (snd (notarize_session L cfg E [])),
                     task_awaits = False, task_over = False\<rparr>],
          error_log = [], stopped_with = None\<rparr>"
  using assms
proof (induction n)
  case 0
  show ?case by (simp add: serve_event_def init_server_def spawn_session_def)
next
  case (Suc n)
  have "concat (replicate (Suc n) [Called 0, Returned 0]) = concat (replicate n [Called 0, Returned 0]) @ [Called 0, Returned 0]"
    by (simp only: replicate_Suc replicate_append_same [symmetric] concat_append) simp
  then have split: "serve L cfg (Accepted p E # concat (replicate (Suc n) [Called 0, Returned 0])) init_server =
      Option.bind (serve L cfg (Accepted p E # concat (replicate n [Called 0, Returned 0])) init_server)
        (serve L cfg [Called 0, Returned 0])"
    by (metis append_Cons serve_append)
  have less: "n < length (snd (notarize_session L cfg E []))" using Suc.prems by simp
  show ?case
    unfolding split Suc.IH [OF less_imp_le [OF less]] bind.bind_lunit
    using less by (simp add: serve_event_def next_call_def Let_def take_Suc_conv_app_nth)
qed

section \<open>How the loop ends\<close>

lemma serve_event_stopped:
  "serve_event L cfg ev s = Some s' \<Longrightarrow> stopped_with s = None \<and>
     (stopped_with s' = Some e \<longleftrightarrow> ev = AcceptFailed e)"
  by (erule serve_eventE) auto

lemma serve_stopped:
  "serve L cfg evs s = Some s' \<Longrightarrow> stopped_with s = None \<Longrightarrow>
     stopped_with s' = Some e \<longleftrightarrow> (evs \<noteq> [] \<and> last evs = AcceptFailed e)"
proof (induction evs arbitrary: s)
  case (Cons ev evs)
  then obtain u where u: "serve_event L cfg ev s = Some u" "serve L cfg evs u = Some s'"
    by (auto simp: Option.bind_eq_Some_conv)
  show ?case
  proof (cases "stopped_with u")
    case None
    then show ?thesis
      using Cons.IH [OF u(2)] serve_event_stopped [OF u(1), of e] u(2) by (cases evs) auto
  next
    case (Some e')
    then have "evs = []"
      using u(2) by (cases evs) (auto simp: serve_event_def)
    then show ?thesis
      using u serve_event_stopped [OF u(1), of e] by simp
  qed
qed simp

end
