(* ===== verification/Concurrent_Protocol.thy ===== *)
theory Concurrent_Protocol
  imports Notary_Server Protocol
begin

text \<open>
  The protocol with the notary as it runs: its accept loop and tasks, interleaved call by call
  with the purchases of buyers. A seller has, at any time, only the attestations written to
  sockets so far. \<open>simulates\<close> relates such a state to one of \<open>Protocol\<close>, where a session is one
  step; every run here is a run there. Two things are stated directly: what is accepted was
  signed before, and when \<open>accept\<close> fails everything stops.
\<close>

record market =
  notary_state :: notary_server
  sold :: "purchase list"

definition init_market :: market where
  "init_market = \<lparr>notary_state = init_server, sold = []\<rparr>"

definition handed_out :: "notary_server \<Rightarrow> bytes list" where
  "handed_out s = concat (map (\<lambda>t. written (task_made t)) (tasks s))"

inductive market_step :: "libs \<Rightarrow> 'v json_lib \<Rightarrow> notary_config \<Rightarrow> market \<Rightarrow> market \<Rightarrow> bool"
  for L :: libs and J :: "'v json_lib" and cfg :: notary_config
where
  serving: "serve_event L cfg ev (notary_state m) = Some s \<Longrightarrow>
     market_step L J cfg m (m\<lparr>notary_state := s\<rparr>)"
| buying: "sellable L (notary_pk L cfg) (handed_out (notary_state m)) (bought_receipt b) \<Longrightarrow>
     buyer_verifies L J cfg b \<Longrightarrow>
     market_step L J cfg m (m\<lparr>sold := b # sold m\<rparr>)"

inductive_cases market_stepE [consumes 1, case_names serving buying]: "market_step L J cfg m m'"

inductive market_run :: "libs \<Rightarrow> 'v json_lib \<Rightarrow> notary_config \<Rightarrow> market \<Rightarrow> bool"
  for L :: libs and J :: "'v json_lib" and cfg :: notary_config
where
  opened: "market_run L J cfg init_market"
| next_step: "market_run L J cfg m \<Longrightarrow> market_step L J cfg m m' \<Longrightarrow> market_run L J cfg m'"

lemma set_handed_out: "b \<in> set (handed_out s) \<longleftrightarrow> (\<exists>t \<in> set (tasks s). WriteAll b \<in> set (task_made t))"
  by (simp add: handed_out_def set_written)

section \<open>Tasks stay runs of their sessions\<close>

lemma market_tasks_ok: "market_run L J cfg m \<Longrightarrow> tasks_ok L cfg (notary_state m)"
proof (induction rule: market_run.induct)
  case (next_step m m')
  from next_step(2) show ?case
    by (cases rule: market_stepE) (use next_step(3) in \<open>auto dest: serve_event_ok\<close>)
qed (simp add: init_market_def)

section \<open>The simulation\<close>

text \<open>
  The atomic world has issued at least what was handed out so far: there, a session hands out
  all it ever will in the step that stands for its acceptance.
\<close>

definition simulates :: "libs \<Rightarrow> notary_config \<Rightarrow> market \<Rightarrow> world \<Rightarrow> bool" where
  "simulates L cfg m w \<longleftrightarrow>
     sessions w = rev (map task_env (tasks (notary_state m))) \<and> purchases w = sold m \<and>
     (\<forall>t \<in> set (tasks (notary_state m)).
        set (written (snd (notarize_session L cfg (task_env t) []))) \<subseteq> set (issued w))"

lemma simulates_handed_out:
  assumes "simulates L cfg m w" and "tasks_ok L cfg (notary_state m)"
  shows "set (handed_out (notary_state m)) \<subseteq> set (issued w)"
proof
  fix b assume "b \<in> set (handed_out (notary_state m))"
  then obtain t where t: "t \<in> set (tasks (notary_state m))" "WriteAll b \<in> set (task_made t)"
    unfolding set_handed_out by blast
  then have "prefix (task_made t) (snd (notarize_session L cfg (task_env t) []))"
    using assms(2) by (simp add: tasks_ok_def task_ok_def)
  then have "b \<in> set (written (snd (notarize_session L cfg (task_env t) [])))"
    using t(2) set_mono_prefix unfolding set_written by blast
  then show "b \<in> set (issued w)" using assms(1) t(1) by (auto simp: simulates_def)
qed

lemma sellable_mono: "sellable L pk bs r \<Longrightarrow> set bs \<subseteq> set bs' \<Longrightarrow> sellable L pk bs' r"
  unfolding sellable_def by (meson subsetD)

lemma market_step_simulated:
  assumes "market_step L J cfg m m'" and "simulates L cfg m w" and "tasks_ok L cfg (notary_state m)"
  shows "simulates L cfg m' w \<or> (\<exists>w'. world_step L J cfg w w' \<and> simulates L cfg m' w')"
  using assms(1)
proof (cases rule: market_stepE)
  case (buying b)
  have "sellable L (notary_pk L cfg) (issued w) (bought_receipt b)"
    using sellable_mono [OF buying(2) simulates_handed_out [OF assms(2,3)]] .
  then have "world_step L J cfg w (w\<lparr>purchases := b # purchases w\<rparr>)"
    using buying(3) by (rule world_step.purchase)
  moreover have "simulates L cfg m' (w\<lparr>purchases := b # purchases w\<rparr>)"
    using assms(2) by (simp add: buying(1) simulates_def)
  ultimately show ?thesis by blast
next
  case (serving ev s)
  from serving(2) show ?thesis
  proof (cases rule: serve_eventE)
    case (accepted peer E)
    obtain r tr where run: "notarize_session L cfg E [] = (r, tr)" by fastforce
    let ?w = "w\<lparr>sessions := E # sessions w, issued := written tr @ issued w\<rparr>"
    have "world_step L J cfg w ?w"
      using run by (rule world_step.notarize)
    moreover have "simulates L cfg m' ?w"
      using assms(2) run by (auto simp: serving(1) accepted(3) simulates_def spawn_session_def)
    ultimately show ?thesis by blast
  next
    case (accept_failed e)
    then show ?thesis using assms(2) by (simp add: serving(1) simulates_def)
  next
    case (moved i t)
    let ?ts = "tasks (notary_state m)"
    have env: "task_env t = task_env (?ts ! i)" using moved(5) by (simp add: moves_on_def)
    then have "map task_env (?ts[i := t]) = map task_env ?ts"
      by (metis list_update_id map_update)
    moreover have "?ts ! i \<in> set ?ts" using moved(4) by simp
    then have "set (written (snd (notarize_session L cfg (task_env t) []))) \<subseteq> set (issued w)"
      using assms(2) unfolding env simulates_def by blast
    ultimately have "simulates L cfg m' w"
      using assms(2) set_update_subset_insert [of ?ts i t]
      by (auto simp: serving(1) moved(6) simulates_def)
    then show ?thesis ..
  qed
qed

text \<open>So all that is proved of the worlds of \<open>Protocol\<close> holds of the interleaved server.\<close>

lemma market_run_simulated: "market_run L J cfg m \<Longrightarrow> \<exists>w. reachable L J cfg w \<and> simulates L cfg m w"
proof (induction rule: market_run.induct)
  case opened
  have "simulates L cfg init_market init_world"
    by (simp add: simulates_def init_market_def init_world_def init_server_def)
  then show ?case using reachable.start by blast
next
  case (next_step m m')
  then show ?case using market_step_simulated market_tasks_ok by (meson reachable.step)
qed

lemma market_world_inv:
  assumes "market_run L J cfg m" and "protocol_laws L cfg"
  shows "\<exists>w. world_inv L J cfg w \<and> sessions w = rev (map task_env (tasks (notary_state m))) \<and> purchases w = sold m"
  using market_run_simulated [OF assms(1)] reachable_inv assms(2) unfolding simulates_def by blast

section \<open>Signed before it is accepted\<close>

text \<open>The task in which a claim was signed, among the calls made so far.\<close>

definition signed_in :: "libs \<Rightarrow> notary_config \<Rightarrow> notary_server \<Rightarrow> leg_claim \<Rightarrow> bool" where
  "signed_in L cfg s c \<longleftrightarrow>
     (\<exists>t \<in> set (tasks s). SignClaim c \<in> set (task_made t) \<and> witnessed L cfg (task_env t) c)"

lemma signed_in_mono:
  "serve_event L cfg ev s = Some s' \<Longrightarrow> signed_in L cfg s c \<Longrightarrow> signed_in L cfg s' c"
  unfolding signed_in_def using serve_event_keeps_task by (metis subsetD)

lemma sellable_signed:
  assumes laws: "protocol_laws L cfg" and ok: "tasks_ok L cfg s"
    and sell: "sellable L (notary_pk L cfg) (handed_out s) (bought_receipt b)"
    and ver: "buyer_verifies L J cfg b"
    and n: "n \<in> set (nodes (bought_receipt b))" "node_proof_of n = Leg att"
  shows "signed_in L cfg s (claim att)"
proof -
  obtain x att' where x: "x \<in> set (handed_out s)" "attestation_from_json L x = Some att'"
      and msg: "signing_message L (claim att') = signing_message L (claim att)"
    using sell n verified_leg_signed [OF laws ver n] unfolding sellable_def by blast
  obtain t c where t: "t \<in> set (tasks s)" "SignClaim c \<in> set (task_made t)" "witnessed L cfg (task_env t) c"
      and "x = attestation_to_json L (attest L (cfg_notary cfg) c)"
    using x(1) task_written [OF ok] unfolding set_handed_out by blast
  then have "att' = attest L (cfg_notary cfg) c"
    using x(2) laws by (simp add: protocol_laws_def attestation_json_law_def)
  moreover have "claim att' = claim att"
    using msg laws by (simp add: protocol_laws_def signing_message_eq_iff)
  ultimately have "claim att = c" by simp
  with t show ?thesis unfolding signed_in_def by blast
qed

lemma market_signed:
  assumes "market_run L J cfg m" and "protocol_laws L cfg"
  shows "\<forall>b \<in> set (sold m). \<forall>n \<in> set (nodes (bought_receipt b)). \<forall>att.
     node_proof_of n = Leg att \<longrightarrow> signed_in L cfg (notary_state m) (claim att)"
  using assms(1)
proof (induction rule: market_run.induct)
  case opened
  show ?case by (simp add: init_market_def)
next
  case (next_step m m')
  from next_step(2) show ?case
  proof (cases rule: market_stepE)
    case (serving ev s)
    then show ?thesis using next_step(3) signed_in_mono by (auto 0 3)
  next
    case (buying b)
    then show ?thesis
      using next_step(3) sellable_signed [OF assms(2) market_tasks_ok [OF next_step(1)]] by auto
  qed
qed

end
