(* ===== verification/Server_Properties.thy ===== *)
theory Server_Properties
  imports Reference_Run Concurrent_Protocol
begin

text \<open>
  Properties of the notary as a server: how it starts, what a failing \<open>accept\<close> does, and that
  nothing is accepted by a buyer before the interleaved server has signed it.
\<close>

section \<open>Start-up\<close>

text \<open>
  The notary starts in one of three ways: without UPSTREAM_HOST it panics before it binds
  anything; when the address cannot be bound it returns that error and prints nothing; else it
  serves with the configuration of its environment, having printed the key it signs with.
\<close>

theorem notary_start_outcomes:
  "(var ''UPSTREAM_HOST'' = None \<longrightarrow>
      notary_main L fails var [] =
        (Inl (Panic ''UPSTREAM_HOST must be set (the TLS server to proxy and attest)''), [])) \<and>
   (\<forall>h listen. var ''UPSTREAM_HOST'' = Some h \<longrightarrow>
      listen = (case var ''NOTARY_LISTEN'' of Some a \<Rightarrow> a | None \<Rightarrow> ''0.0.0.0:7047'') \<longrightarrow>
      (case fails (BindListener listen) of
         Some e \<Rightarrow> notary_main L fails var [] = (Inl (Bail e), [BindListener listen])
       | None \<Rightarrow>
           \<exists>cfg lines. notary_main L fails var [] = (Inr cfg, BindListener listen # map PrintLine lines)
             \<and> cfg_upstream_host cfg = h
             \<and> ''  notary pubkey : '' @ public_key_hex L (cfg_notary cfg) \<in> set lines))"
proof (intro conjI allI impI)
  assume "var ''UPSTREAM_HOST'' = None"
  then show "notary_main L fails var [] =
      (Inl (Panic ''UPSTREAM_HOST must be set (the TLS server to proxy and attest)''), [])"
    by (simp add: notary_main_def notary_setup_def script_simps Let_def)
next
  fix h listen
  assume "var ''UPSTREAM_HOST'' = Some h"
    and "listen = (case var ''NOTARY_LISTEN'' of Some a \<Rightarrow> a | None \<Rightarrow> ''0.0.0.0:7047'')"
  then obtain cfg where cfg: "notary_setup L var = Inr (listen, cfg)" "cfg_upstream_host cfg = h"
    by (simp add: notary_setup_def Let_def)
  have "''  notary pubkey : '' @ public_key_hex L (cfg_notary cfg) \<in> set (notary_banner L listen cfg)"
    by (simp add: notary_banner_def)
  with cfg show "case fails (BindListener listen) of
         Some e \<Rightarrow> notary_main L fails var [] = (Inl (Bail e), [BindListener listen])
       | None \<Rightarrow>
           \<exists>cfg lines. notary_main L fails var [] = (Inr cfg, BindListener listen # map PrintLine lines)
             \<and> cfg_upstream_host cfg = h
             \<and> ''  notary pubkey : '' @ public_key_hex L (cfg_notary cfg) \<in> set lines"
    unfolding notary_main_bound [OF cfg(1)] by (cases "fails (BindListener listen)") auto
qed

theorem notary_start_outcomes_witness:
  "fst (notary_main ref_libs (\<lambda>_. Some ''address in use'') ref_nvar []) = Inl (Bail ''address in use'')"
  using notary_start_outcomes [of ref_nvar ref_libs "\<lambda>_. Some ''address in use''"]
  by (simp add: ref_nvar_def Let_def)

section \<open>The accept loop\<close>

text \<open>A server that has accepted the reference connection and one in another mode.\<close>

definition ref_refused :: notary_env where
  "ref_refused = ref_session\<lparr>nv_commit := MpcRequested\<rparr>"

definition ref_arrivals :: "server_event list" where
  "ref_arrivals = [Accepted ''A'' ref_session, Accepted ''B'' ref_refused]"

text \<open>
  C13. One failed \<open>accept\<close> ends the notary: \<open>main\<close> returns the error then and only then, and
  after it no event is possible any more, so sessions under way are cut off where they are,
  also between the signature and its delivery.
\<close>

theorem accept_failure_stops:
  assumes "serve L cfg evs init_server = Some s"
  shows "(stopped_with s = Some e \<longleftrightarrow> (\<exists>before. evs = before @ [AcceptFailed e])) \<and>
     (stopped_with s = Some e \<longrightarrow> (\<forall>ev. serve_event L cfg ev s = None))"
  using serve_stopped [OF assms, of e]
  by (auto simp: init_server_def serve_event_def) (metis append_butlast_last_id)

theorem accept_failure_stops_witness:
  "\<exists>s. serve ref_libs ref_config (ref_arrivals @ [AcceptFailed ''too many open files'']) init_server = Some s \<and>
     \<not> task_over (tasks s ! 0) \<and> serve_event ref_libs ref_config (Called 0) s = None"
proof -
  obtain s where s: "serve ref_libs ref_config (ref_arrivals @ [AcceptFailed ''too many open files'']) init_server
      = Some s" "\<not> task_over (tasks s ! 0)"
    by (simp add: ref_arrivals_def serve_event_def init_server_def spawn_session_def)
  then show ?thesis
    using accept_failure_stops [OF s(1), of "''too many open files''"] by blast
qed

section \<open>The protocol with the interleaved notary\<close>

text \<open>
  C6. Nothing is accepted before it was signed: whenever a buyer of the running system has
  verified a receipt, the notary has, in one of its sessions, witnessed and already signed the
  claim of every leg in it.
\<close>

theorem accepted_after_signed:
  assumes "protocol_laws L cfg" and "market_run L J cfg m" and "b \<in> set (sold m)"
    and "n \<in> set (nodes (bought_receipt b))" and "node_proof_of n = Leg att"
  shows "\<exists>t \<in> set (tasks (notary_state m)). SignClaim (claim att) \<in> set (task_made t)
     \<and> witnessed L cfg (task_env t) (claim att)"
  using market_signed [OF assms(2,1)] assms(3-5) unfolding signed_in_def by blast

text \<open>The reference purchase, made from the interleaved server.\<close>

lemma market_run_serve:
  "market_run L J cfg m \<Longrightarrow> serve L cfg evs (notary_state m) = Some s \<Longrightarrow>
     market_run L J cfg (m\<lparr>notary_state := s\<rparr>)"
proof (induction evs arbitrary: m)
  case (Cons ev evs)
  then obtain u where "serve_event L cfg ev (notary_state m) = Some u" "serve L cfg evs u = Some s"
    by (auto simp: Option.bind_eq_Some_conv)
  then show ?case
    using Cons.IH [of "m\<lparr>notary_state := u\<rparr>"] market_run.next_step [OF Cons.prems(1) market_step.serving]
    by simp
next
  case Nil
  then show ?case by (cases m) simp
qed

lemma ref_market:
  obtains m where "market_run ref_libs ref_json ref_config m" "sold m = [ref_bought]"
    "map task_env (tasks (notary_state m)) = [ref_session]"
proof -
  let ?tr = "snd (notarize_session ref_libs ref_config ref_session [])"
  obtain evs s where run: "serve ref_libs ref_config evs init_server = Some s"
      and s: "map task_env (tasks s) = [ref_session]" "handed_out s = written ?tr"
    using serve_one [of "length ?tr" ref_libs ref_config ref_session "''A''"]
    by (fastforce simp: handed_out_def)
  have "handed_out s = [attestation_to_json ref_libs ref_signed]"
    using ref_session_written by (simp add: s(2))
  moreover have m: "market_run ref_libs ref_json ref_config (init_market\<lparr>notary_state := s\<rparr>)"
    using market_run_serve [OF market_run.opened] run by (simp add: init_market_def)
  ultimately have "market_step ref_libs ref_json ref_config (init_market\<lparr>notary_state := s\<rparr>)
      (init_market\<lparr>notary_state := s, sold := [ref_bought]\<rparr>)"
    using market_step.buying [of ref_libs ref_config "init_market\<lparr>notary_state := s\<rparr>" ref_bought ref_json]
      ref_sellable ref_buyer_verifies by (simp add: init_market_def)
  with m have "market_run ref_libs ref_json ref_config (init_market\<lparr>notary_state := s, sold := [ref_bought]\<rparr>)"
    by (rule market_run.next_step)
  then show thesis using that s(1) by simp
qed

theorem accepted_after_signed_witness:
  "witnessed ref_libs ref_config ref_session (claim ref_signed)"
proof -
  obtain m where run: "market_run ref_libs ref_json ref_config m" and m: "sold m = [ref_bought]"
    "map task_env (tasks (notary_state m)) = [ref_session]"
    by (rule ref_market)
  let ?n = "nodes (bought_receipt ref_bought) ! 0"
  have n: "?n \<in> set (nodes (bought_receipt ref_bought))" "node_proof_of ?n = Leg ref_signed"
    by (simp_all add: ref_bought_def make_bundle_def)
  obtain t where "t \<in> set (tasks (notary_state m))" "witnessed ref_libs ref_config (task_env t) (claim ref_signed)"
    using accepted_after_signed [OF ref_protocol_laws run _ n] m(1) by auto
  moreover from this(1) have "task_env t \<in> set (map task_env (tasks (notary_state m)))" by simp
  ultimately show ?thesis unfolding m(2) by simp
qed

end
