(* ===== verification/Selective_Disclosure.thy ===== *)
theory Selective_Disclosure
  imports Honest_Run
begin

text \<open>
  A prover that discloses what suits it. The notary reads the transcript it is given as a
  whole (\<open>sent_unsafe\<close>, \<open>received_unsafe\<close>): positions that were not disclosed hold a filler
  byte, and \<open>notarize_session\<close> does not ask which they are. So the digests it signs are those
  of the bodies with the filler in place of what was hidden. Two uses of that: hiding the
  request that was asked, in front of the one that was paid for, and hiding a byte of the
  answer. Both pass every check of the buyer.
\<close>

section \<open>What is seen\<close>

lemma withheld_prefix:
  "withheld fill [(length a, length (a @ b))] (a @ b) = replicate (length a) fill @ b"
  by (intro nth_equalityI) (auto simp: withheld_def positions_def nth_append)

lemma withheld_middle:
  "withheld fill [(0, length a), (length (a @ x), length (a @ x @ b))] (a @ x @ b)
     = a @ replicate (length x) fill @ b"
  by (intro nth_equalityI) (auto simp: withheld_def positions_def nth_append)

text \<open>Filler in front of a message's head: still a head, with the same header lines.\<close>

lemma filled_head:
  assumes "http_head h" and "fill \<noteq> CHR 0x0D"
  shows "http_head (replicate n fill @ h)"
proof -
  have "occurs_at (crlf @ crlf) (replicate n fill @ h) i \<longleftrightarrow> n \<le> i \<and> occurs_at (crlf @ crlf) h (i - n)" for i
  proof (cases "n \<le> i")
    case True
    then show ?thesis by (auto simp: occurs_at_nth nth_append)
  next
    case False
    have "\<not> occurs_at (crlf @ crlf) (replicate n fill @ h) i"
    proof
      assume "occurs_at (crlf @ crlf) (replicate n fill @ h) i"
      then have "\<forall>t < length (crlf @ crlf). (replicate n fill @ h) ! (i + t) = (crlf @ crlf) ! t"
        unfolding occurs_at_nth by blast
      from this [rule_format, of 0] have "(replicate n fill @ h) ! i = (crlf @ crlf) ! 0"
        by simp
      then show False using False assms(2) by (simp add: nth_append crlf_def)
    qed
    then show ?thesis using False by simp
  qed
  then show ?thesis
    using assms(1) by (auto simp: http_head_iff)
qed

lemma filled_lines:
  assumes "http_head h" and "ascii h" and "\<not> header_is_chunked h"
    and "byte_val fill < 128" and "fill \<notin> {CHR 0x0A, CHR ''t'', CHR ''T''}"
  shows "\<not> header_is_chunked (replicate n fill @ h)"
proof (cases n)
  case 0
  then show ?thesis using assms(3) by simp
next
  case (Suc k)
  let ?low = to_ascii_lowercase
  have "CHR 0x0A \<in> set h"
    using assms(1) by (auto simp: http_head_def crlf_def)
  then obtain l rest where h: "h = l @ CHR 0x0A # rest" and l: "CHR 0x0A \<notin> set l"
    by (meson split_list_first)
  have low: "?low (x @ CHR 0x0A # y) = ?low x @ CHR 0x0A # ?low y" for x y
    by (simp add: to_ascii_lowercase_def ascii_lower_def)
  have lines: "str_lines (?low (x @ h)) = strip_cr (?low (x @ l)) # str_lines (?low rest)"
    if "CHR 0x0A \<notin> set x" for x
    using str_lines_line(2) [of "?low (x @ l)" "?low rest"] low [of "x @ l" rest] that l
    by (simp add: h LF_in_lowercase)
  have "fill \<noteq> CHR ''t''" and "fill \<noteq> CHR ''T''"
    using assms(5) by simp_all
  then have "ascii_lower fill \<noteq> CHR ''t''"
    unfolding char_eq_byte_val [of fill] char_eq_byte_val [of "ascii_lower fill"] byte_val_ascii_lower
    by auto
  then have "\<not> prefix ''transfer-encoding:'' (?low (replicate n fill @ l))"
    by (simp add: Suc to_ascii_lowercase_def)
  then have "\<not> prefix ''transfer-encoding:'' (strip_cr (?low (replicate n fill @ l)))"
    using prefix_order.trans [OF _ prefix_strip_cr] by blast
  then have "\<not> chunked_line (strip_cr (?low (replicate n fill @ l)))"
    by (simp add: chunked_line_def)
  moreover have "\<not> (\<exists>l \<in> set (str_lines (?low rest)). chunked_line l)"
    using assms(2,3) lines [of "[]"] by (simp add: header_is_chunked_def chunked_line_def)
  moreover have "ascii (replicate n fill @ h)"
    using assms(2,4) by (auto simp: ascii_def)
  ultimately show ?thesis
    using lines [of "replicate n fill"] assms(5)
    by (auto simp: header_is_chunked_def chunked_line_def)
qed

section \<open>What is accepted\<close>

text \<open>A session without failures, in which the prover discloses the given ranges of each side.\<close>

definition disclosing_session ::
  "notary_config \<Rightarrow> char \<Rightarrow> (nat \<times> nat) list \<Rightarrow> (nat \<times> nat) list \<Rightarrow> bytes \<Rightarrow> bytes \<Rightarrow> string \<Rightarrow> notary_env" where
  "disclosing_session cfg fill srs rrs sent received time =
     \<lparr>nv_fails = (\<lambda>_. None), nv_commit = ProxyRequested, nv_server_identity = True,
      nv_server_name = Some (cfg_upstream_host cfg),
      nv_transcript = Some (withheld fill srs sent, withheld fill rrs received), nv_time = time\<rparr>"

definition signing_laws :: "libs \<Rightarrow> notary_config \<Rightarrow> bool" where
  "signing_laws L cfg \<longleftrightarrow> hex_law L \<and> ed25519_law L \<and> length (signing_key (cfg_notary cfg)) = 32"

text \<open>\<open>leg\<close> is handed out in the session, and sells the transform of \<open>answer\<close> for the request \<open>q\<close>.\<close>

definition sold_as ::
  "libs \<Rightarrow> 'v json_lib \<Rightarrow> notary_config \<Rightarrow> notary_env \<Rightarrow> bytes \<Rightarrow> bytes \<Rightarrow> string \<Rightarrow> leg_attestation \<Rightarrow> bool" where
  "sold_as L J cfg E q answer p leg \<longleftrightarrow>
     written (snd (notarize_session L cfg E [])) = [attestation_to_json L leg] \<and>
     (\<exists>cs. judge_bundle L J (public_key_hex L (cfg_notary cfg)) (cfg_upstream_host cfg) (sha256_hex L q) p
        (starts_with_yes J answer) (make_bundle leg (sha256_hex L (starts_with_yes J answer)) p)
        [(''leg0'', answer)] = Verified cs)"

lemma disclosed_is_sold:
  assumes "signing_laws L cfg"
    and "decoded_body (withheld fill srs sent) = q" and "decoded_body (withheld fill rrs received) = answer"
  shows "\<exists>leg. sold_as L J cfg (disclosing_session cfg fill srs rrs sent received t) q answer p leg"
proof -
  let ?E = "disclosing_session cfg fill srs rrs sent received t"
  let ?c = "witnessed_claim L (cfg_upstream_host cfg) (withheld fill srs sent) (withheld fill rrs received) t"
  let ?leg = "attest L (cfg_notary cfg) ?c"
  have "good_session cfg ?E (withheld fill srs sent) (withheld fill rrs received)"
    by (simp add: good_session_def disclosing_session_def)
  from good_session_written [OF this, of L]
  have "written (snd (notarize_session L cfg ?E [])) = [attestation_to_json L ?leg]"
    by (simp add: disclosing_session_def)
  moreover have "signed_under L (sk_public L (signing_key (cfg_notary cfg))) ?leg"
    using assms(1) by (intro signed_under_attest) (simp_all add: signing_laws_def)
  from honest_bundle_verified [OF this, of "cfg_upstream_host cfg" "public_key_hex L (cfg_notary cfg)"
      "sha256_hex L q" answer J p]
  have "\<exists>cs. judge_bundle L J (public_key_hex L (cfg_notary cfg)) (cfg_upstream_host cfg) (sha256_hex L q) p
      (starts_with_yes J answer) (make_bundle ?leg (sha256_hex L (starts_with_yes J answer)) p)
      [(''leg0'', answer)] = Verified cs"
    by (simp add: assms(2,3))
  ultimately show ?thesis unfolding sold_as_def by blast
qed

end
