(* ===== verification/Disclosure_Properties.thy ===== *)
theory Disclosure_Properties
  imports Reference_Run Selective_Disclosure
begin

text \<open>
  What the choice of the disclosed ranges lets a seller do: the notary signs digests of the
  transcript as it was disclosed, whatever was hidden from it.
\<close>

text \<open>
  C33. The request can be exchanged: a seller that sends another request first, hides it, and
  discloses the buyer's request behind it on the same connection gets a claim that binds the
  upstream's answer to the buyer's request, and the buyer verifies the receipt.
\<close>

theorem hidden_request_accepted:
  assumes "signing_laws L cfg" and "byte_val fill < 128"
    and "fill \<notin> {CHR 0x0D, CHR 0x0A, CHR ''t'', CHR ''T''}"
    and "http_head h" and "ascii h" and "\<not> header_is_chunked h"
    and "http_head rh" and "\<not> header_is_chunked rh"
  shows "\<exists>leg. sold_as L J cfg
     (disclosing_session cfg fill [(length other, length (other @ h @ q))] [(0, length (rh @ answer))]
        (other @ h @ q) (rh @ answer) t) q answer p leg"
proof (rule disclosed_is_sold [OF assms(1)])
  have "http_head (replicate (length other) fill @ h)"
    using assms(3,4) by (intro filled_head) simp_all
  moreover have "\<not> header_is_chunked (replicate (length other) fill @ h)"
    using assms(2-6) by (intro filled_lines) simp_all
  ultimately have "decoded_body ((replicate (length other) fill @ h) @ q) = q"
    by (simp only: decoded_body_message if_False)
  then show "decoded_body (withheld fill [(length other, length (other @ h @ q))] (other @ h @ q)) = q"
    by (simp only: withheld_prefix append_assoc)
  show "decoded_body (withheld fill [(0, length (rh @ answer))] (rh @ answer)) = answer"
    using assms(7,8) by (simp add: withheld_all decoded_body_message del: length_append)
qed

theorem hidden_request_accepted_witness:
  "\<exists>leg. sold_as ref_libs ref_json ref_config
     (disclosing_session ref_config CHR 0x00
        [(length (ref_head ''Q7'' @ ''{}''), length ((ref_head ''Q7'' @ ''{}'') @ ref_head ''Q7'' @ ref_request))]
        [(0, length (ref_response_head @ ref_answer ''Yes''))]
        ((ref_head ''Q7'' @ ''{}'') @ ref_head ''Q7'' @ ref_request)
        (ref_response_head @ ref_answer ''Yes'') ''1781740800'')
     ref_request (ref_answer ''Yes'') ''0xabc'' leg"
proof (rule hidden_request_accepted)
  show "signing_laws ref_libs ref_config"
    by (simp add: signing_laws_def ref_config_def ref_key_length)
  show "ascii (ref_head ''Q7'')"
    by (simp add: ascii_def ref_head_def ref_before_def crlf_def)
qed (simp_all add: ref_heads)

text \<open>
  C34. An answer can be spoilt: a seller that hides any part of the upstream's answer which makes
  it unreadable as JSON sells the verdict 0 for it, with a claim the notary signed over the
  spoilt bytes; the buyer verifies the receipt although the transform of the true answer is 1.
\<close>

theorem hidden_answer_accepted:
  assumes "signing_laws L cfg"
    and "http_head h" and "\<not> header_is_chunked h" and "http_head rh" and "\<not> header_is_chunked rh"
    and "starts_with_yes J (a @ x @ b) = ''1''" and "jparse J (a @ replicate (length x) fill @ b) = None"
  shows "starts_with_yes J (a @ replicate (length x) fill @ b) = ''0'' \<and>
     (\<exists>leg. sold_as L J cfg
        (disclosing_session cfg fill [(0, length (h @ q))]
           [(0, length (rh @ a)), (length (rh @ a @ x), length (rh @ a @ x @ b))]
           (h @ q) (rh @ a @ x @ b) t) q (a @ replicate (length x) fill @ b) p leg)"
proof
  show "starts_with_yes J (a @ replicate (length x) fill @ b) = ''0''"
    using assms(7) by (simp add: starts_with_yes_def)
  have sent: "decoded_body (withheld fill [(0, length (h @ q))] (h @ q)) = q"
    using assms(2,3) by (simp add: withheld_all decoded_body_message del: length_append)
  have "withheld fill [(0, length (rh @ a)), (length (rh @ a @ x), length (rh @ a @ x @ b))] (rh @ a @ x @ b)
      = rh @ a @ replicate (length x) fill @ b"
    using withheld_middle [of fill "rh @ a" x b] by (simp only: append_assoc)
  then have "decoded_body (withheld fill
      [(0, length (rh @ a)), (length (rh @ a @ x), length (rh @ a @ x @ b))] (rh @ a @ x @ b))
      = a @ replicate (length x) fill @ b"
    using assms(4,5) by (simp only: decoded_body_message if_False)
  from disclosed_is_sold [OF assms(1) sent this]
  show "\<exists>leg. sold_as L J cfg
        (disclosing_session cfg fill [(0, length (h @ q))]
           [(0, length (rh @ a)), (length (rh @ a @ x), length (rh @ a @ x @ b))]
           (h @ q) (rh @ a @ x @ b) t) q (a @ replicate (length x) fill @ b) p leg" .
qed

text \<open>The reference answer, with its last character hidden.\<close>

lemma ref_spoilt:
  "ref_answer ''Yes'' = butlast (ref_answer ''Yes'') @ ''}'' @ []"
  "ref_parse (butlast (ref_answer ''Yes'') @ replicate 1 CHR 0x00 @ []) = None"
  by code_simp+

theorem hidden_answer_accepted_witness:
  "\<exists>E leg answer. starts_with_yes ref_json answer = ''0'' \<and>
     sold_as ref_libs ref_json ref_config E ref_request answer ''0xabc'' leg"
proof -
  have laws: "signing_laws ref_libs ref_config"
    by (simp add: signing_laws_def ref_config_def ref_key_length)
  have "starts_with_yes ref_json (butlast (ref_answer ''Yes'') @ ''}'' @ []) = ''1''"
    using ref_verdict unfolding ref_spoilt(1) [symmetric] .
  moreover have "jparse ref_json (butlast (ref_answer ''Yes'') @ replicate (length ''}'') CHR 0x00 @ []) = None"
    using ref_spoilt(2) by (simp add: ref_json_def)
  ultimately show ?thesis
    using hidden_answer_accepted [OF laws ref_heads(2,5,3,6)] by blast
qed

end
