(* ===== verification/Joint_Session.thy ===== *)
theory Joint_Session
  imports Honest_Run
begin

text \<open>
  One notarization from both ends: \<open>notarize_session\<close> and \<open>run_prover\<close> as two processes whose
  calls interleave, joined by the socket over which the attestation comes back. The notary
  writes it and closes; the prover reads to the end of the stream. What the code relies on, and
  all that is assumed of the socket, is that bytes arrive in order, that a read to the end
  returns only after the other side closed, and that a write that fails, or a process that is
  cut off, has written some beginning of the bytes. The invariant says what can be on the wire.
\<close>

section \<open>The two scripts\<close>

text \<open>The calls the prover makes do not depend on the attestation, which it reads last.\<close>

lemma snd_call: "(\<And>tr. snd (k tr) = snd (k' tr)) \<Longrightarrow> snd (call env c k tr) = snd (call env c k' tr)"
  by (simp add: call_def split: option.split)

lemma snd_event: "(\<And>tr. snd (k tr) = snd (k' tr)) \<Longrightarrow> snd (event c k tr) = snd (event c k' tr)"
  by (simp add: event_def)

lemma snd_reveal_ranges:
  assumes "\<And>tr. snd (k tr) = snd (k' tr)"
  shows "snd (reveal_ranges fails rs k tr) = snd (reveal_ranges fails rs k' tr)"
proof (induction rs arbitrary: tr)
  case (Cons r rs)
  obtain a b where "r = (a, b)" by (cases r)
  then show ?case
    using snd_call [of "reveal_ranges fails rs k" "reveal_ranges fails rs k'"] Cons by simp
qed (simp add: assms)

definition with_attestation :: "bytes \<Rightarrow> prover_env \<Rightarrow> prover_env" where
  "with_attestation b P = P\<lparr>pv_attestation := b\<rparr>"

lemma with_attestation_sel [simp]:
  "pv_fails (with_attestation b P) = pv_fails P" "pv_body (with_attestation b P) = pv_body P"
  "pv_sent (with_attestation b P) = pv_sent P" "pv_received (with_attestation b P) = pv_received P"
  "pv_attestation (with_attestation b P) = b"
  by (simp_all add: with_attestation_def)

lemma snd_prove_and_read:
  "snd (prove_and_read L (with_attestation b P) st tr) = snd (prove_and_read L P st tr)"
proof (cases "reveal_plan (api_key st) (pv_sent P)")
  case (Inl f)
  then show ?thesis
    by (simp add: prove_and_read_def event_def call_def split: option.split)
next
  case (Inr rs)
  show ?thesis
    unfolding prove_and_read_def with_attestation_sel Inr sum.case
    by (intro snd_event snd_call snd_reveal_ranges)
      (auto simp: Let_def return_fault_def return_ok_def split: option.split)
qed

lemma run_prover_calls:
  "snd (run_prover L (with_attestation b P) st body tr) = snd (run_prover L P st body tr)"
  unfolding run_prover_def Let_def with_attestation_sel
  by (intro snd_call snd_prove_and_read)


text \<open>What a session writes, it writes once, the claim signed before.\<close>

lemma session_written_once:
  assumes "snd (notarize_session L cfg N []) = before @ WriteAll b # after"
  shows "(\<forall>b'. WriteAll b' \<notin> set before \<union> set after) \<and>
     (\<exists>c. witnessed L cfg N c \<and> SignClaim c \<in> set before \<and> b = attestation_to_json L (attest L (cfg_notary cfg) c))"
proof -
  define tr where "tr = before @ WriteAll b # after"
  have ends: "session_ends L cfg N (fst (notarize_session L cfg N [])) tr"
    using stops_result [OF notarize_session_ends, of L cfg N _ tr] assms
    by (metis prod.collapse tr_def)
  have "WriteAll b \<in> set tr" by (simp add: tr_def)
  with ends obtain c rest where c: "witnessed L cfg N c"
      and tr: "tr = before_signing cfg @ SignClaim c # SerializeAttestation # rest"
      and rest: "rest \<in> {[WriteAll (attestation_to_json L (attest L (cfg_notary cfg) c))],
                        [WriteAll (attestation_to_json L (attest L (cfg_notary cfg) c)), CloseSocket]}"
    by (auto simp: session_ends_def Let_def before_signing_def)
  have no: "WriteAll b' \<notin> set (before_signing cfg @ [SignClaim c, SerializeAttestation])" for b'
    by (simp add: before_signing_def)
  have split: "x = x' \<and> w = w' \<and> y = y'"
    if "x @ WriteAll w # y = x' @ WriteAll w' # y'" "\<forall>b'. WriteAll b' \<notin> set x'" "\<forall>b'. WriteAll b' \<notin> set y'"
    for x w y x' w' y'
    using that by (auto simp: append_eq_append_conv2 append_eq_Cons_conv Cons_eq_append_conv)
  have "\<exists>y'. (\<forall>b'. WriteAll b' \<notin> set y') \<and> before @ WriteAll b # after =
      (before_signing cfg @ [SignClaim c, SerializeAttestation])
        @ WriteAll (attestation_to_json L (attest L (cfg_notary cfg) c)) # y'"
    using rest tr unfolding tr_def by auto
  then show ?thesis
    using split [of before b after "before_signing cfg @ [SignClaim c, SerializeAttestation]"] no c by auto
qed

section \<open>The joint machine\<close>

record joint =
  notary_made :: "notary_call list"
  notary_left :: "notary_call list"
  prover_made :: "prover_call list"
  prover_left :: "prover_call list"
  wire :: bytes  \<comment> \<open>what has reached the socket after the session was closed\<close>
  hung_up :: bool
  bytes_read :: "bytes option"  \<comment> \<open>\<open>buf\<close>, once the read has returned\<close>

definition joint_start :: "libs \<Rightarrow> notary_config \<Rightarrow> notary_env \<Rightarrow> prover_env \<Rightarrow> app \<Rightarrow> bytes \<Rightarrow> joint" where
  "joint_start L cfg N P st body =
     \<lparr>notary_made = [], notary_left = snd (notarize_session L cfg N []),
      prover_made = [], prover_left = snd (run_prover L P st body []),
      wire = [], hung_up = False, bytes_read = None\<rparr>"

definition calls_writing :: "notary_call \<Rightarrow> bytes" where
  "calls_writing c = (case c of WriteAll b \<Rightarrow> b | _ \<Rightarrow> [])"

text \<open>
  One step: the notary makes its next call, is cut off inside of one (its process ended), or
  lets go of the socket when its task is over; the prover makes its next call, where the read
  waits for the other side. This is the environment of the two scripts, not code: no step has
  to happen, so a side that waits for the other, or for ever, is one that makes none, and
  everything that is said of all runs is said of the runs in which it waits.
\<close>

inductive joint_step :: "notary_env \<Rightarrow> prover_env \<Rightarrow> joint \<Rightarrow> joint \<Rightarrow> bool"
  for N :: notary_env and P :: prover_env
where
  notary_calls: "notary_left s = c # cs \<Longrightarrow> prefix b (calls_writing c) \<Longrightarrow>
     (nv_fails N c = None \<Longrightarrow> b = calls_writing c) \<Longrightarrow>
     joint_step N P s (s\<lparr>notary_made := notary_made s @ [c], notary_left := cs, wire := wire s @ b,
       hung_up := (hung_up s \<or> c = CloseSocket)\<rparr>)"
| notary_cut_off: "notary_left s = c # cs \<Longrightarrow> prefix b (calls_writing c) \<Longrightarrow>
     joint_step N P s (s\<lparr>notary_left := [], wire := wire s @ b, hung_up := True\<rparr>)"
| notary_drops: "notary_left s = [] \<Longrightarrow> \<not> hung_up s \<Longrightarrow> joint_step N P s (s\<lparr>hung_up := True\<rparr>)"
| prover_calls: "prover_left s = c # cs \<Longrightarrow> c \<noteq> ReadAttestation \<or> pv_fails P c \<noteq> None \<Longrightarrow>
     joint_step N P s (s\<lparr>prover_made := prover_made s @ [c], prover_left := cs\<rparr>)"
| prover_reads: "prover_left s = ReadAttestation # cs \<Longrightarrow> pv_fails P ReadAttestation = None \<Longrightarrow> hung_up s \<Longrightarrow>
     joint_step N P s (s\<lparr>prover_made := prover_made s @ [ReadAttestation], prover_left := cs,
       bytes_read := Some (wire s)\<rparr>)"

inductive joint_run ::
  "libs \<Rightarrow> notary_config \<Rightarrow> notary_env \<Rightarrow> prover_env \<Rightarrow> app \<Rightarrow> bytes \<Rightarrow> joint \<Rightarrow> bool"
  for L :: libs and cfg :: notary_config and N :: notary_env and P :: prover_env and st :: app and body :: bytes
where
  joint_starts: "joint_run L cfg N P st body (joint_start L cfg N P st body)"
| joint_goes_on: "joint_run L cfg N P st body s \<Longrightarrow> joint_step N P s s' \<Longrightarrow> joint_run L cfg N P st body s'"

inductive_cases joint_stepE [consumes 1, case_names notary_calls notary_cut_off notary_drops prover_calls prover_reads]:
  "joint_step N P s s'"

text \<open>What \<open>run_prover\<close> returns, from what was read.\<close>

definition prover_outcome ::
  "libs \<Rightarrow> prover_env \<Rightarrow> app \<Rightarrow> bytes \<Rightarrow> joint \<Rightarrow> fault + bytes \<times> leg_attestation" where
  "prover_outcome L P st body s =
     fst (run_prover L (with_attestation (case bytes_read s of Some b \<Rightarrow> b | None \<Rightarrow> []) P) st body [])"

section \<open>What is on the wire\<close>

definition writes :: "notary_call list \<Rightarrow> bool" where
  "writes tr \<longleftrightarrow> (\<exists>b. WriteAll b \<in> set tr)"

lemma writes_simps [simp]:
  "\<not> writes []" "writes (c # tr) \<longleftrightarrow> (\<exists>b. c = WriteAll b) \<or> writes tr" "writes (x @ y) \<longleftrightarrow> writes x \<or> writes y"
  by (auto simp: writes_def)

lemma session_closes_last:
  assumes "snd (notarize_session L cfg N []) = before @ CloseSocket # after"
  shows "\<not> writes after"
proof -
  have "stops (notarize_session L cfg N) (\<lambda>r tr. CloseSocket \<notin> set (butlast tr)) []"
    unfolding notarize_session_def sign_and_return_def return_attestation_def Let_def
    by (intro stops_rules) simp_all
  from stops_result [OF this, of _ "snd (notarize_session L cfg N [])"]
  have "CloseSocket \<notin> set (butlast (before @ CloseSocket # after))"
    using assms by (metis prod.collapse)
  then have "after = []" by (auto simp: butlast_append split: if_splits)
  then show ?thesis by simp
qed

text \<open>
  A beginning of the one attestation the notary signed, once that was signed, and then nothing
  more is written.
\<close>

definition wire_ok :: "libs \<Rightarrow> notary_config \<Rightarrow> notary_env \<Rightarrow> joint \<Rightarrow> bool" where
  "wire_ok L cfg N s \<longleftrightarrow> wire s \<noteq> [] \<longrightarrow> \<not> writes (notary_left s) \<and>
     (\<exists>c. witnessed L cfg N c \<and> SignClaim c \<in> set (notary_made s) \<and>
        prefix (wire s) (attestation_to_json L (attest L (cfg_notary cfg) c)))"

definition joint_inv ::
  "libs \<Rightarrow> notary_config \<Rightarrow> notary_env \<Rightarrow> prover_env \<Rightarrow> app \<Rightarrow> bytes \<Rightarrow> joint \<Rightarrow> bool" where
  "joint_inv L cfg N P st body s \<longleftrightarrow>
     prefix (notary_made s @ notary_left s) (snd (notarize_session L cfg N [])) \<and>
     prover_made s @ prover_left s = snd (run_prover L P st body []) \<and>
     wire_ok L cfg N s \<and>
     (hung_up s \<longrightarrow> \<not> writes (notary_left s)) \<and>
     (\<forall>b. bytes_read s = Some b \<longrightarrow> hung_up s \<and> b = wire s) \<and>
     (ReadAttestation \<in> set (prover_made s) \<and> pv_fails P ReadAttestation = None \<longrightarrow> bytes_read s \<noteq> None)"

lemma calls_writing_not: "\<not> writes [c] \<Longrightarrow> calls_writing c = []"
  by (auto simp: calls_writing_def split: notary_call.split)

text \<open>The step in which bytes can reach the wire, whole or in part.\<close>

lemma writing_ok:
  assumes "wire_ok L cfg N s" and "prefix (notary_made s @ c # cs) (snd (notarize_session L cfg N []))"
    and "notary_left s = c # cs" and "prefix b (calls_writing c)"
  shows "wire s @ b \<noteq> [] \<longrightarrow> \<not> writes cs \<and>
     (\<exists>cl. witnessed L cfg N cl \<and> SignClaim cl \<in> set (notary_made s) \<and>
        prefix (wire s @ b) (attestation_to_json L (attest L (cfg_notary cfg) cl)))"
proof (cases "writes [c]")
  case True
  then obtain w where c: "c = WriteAll w" by auto
  obtain rest where "snd (notarize_session L cfg N []) = notary_made s @ WriteAll w # cs @ rest"
    using assms(2) c by (auto simp: prefix_def)
  from session_written_once [OF this] obtain cl where
      "witnessed L cfg N cl" "SignClaim cl \<in> set (notary_made s)"
      "w = attestation_to_json L (attest L (cfg_notary cfg) cl)" and "\<not> writes cs"
    by (auto simp: writes_def)
  moreover have "wire s = []"
    using assms(1,3) c by (auto simp: wire_ok_def)
  moreover have "prefix b w" using assms(4) c by (simp add: calls_writing_def)
  ultimately show ?thesis by auto
next
  case False
  then have "b = []" using assms(4) calls_writing_not [of c] by simp
  then show ?thesis using assms(1,3) by (auto simp: wire_ok_def)
qed

lemma joint_step_inv:
  assumes "joint_inv L cfg N P st body s" and "joint_step N P s s'"
  shows "joint_inv L cfg N P st body s'"
proof -
  have calls: "prefix (notary_made s @ notary_left s) (snd (notarize_session L cfg N []))"
      and made: "prover_made s @ prover_left s = snd (run_prover L P st body [])"
      and wire: "wire_ok L cfg N s" and hung: "hung_up s \<longrightarrow> \<not> writes (notary_left s)"
      and read: "\<forall>b. bytes_read s = Some b \<longrightarrow> hung_up s \<and> b = wire s"
      and got: "ReadAttestation \<in> set (prover_made s) \<and> pv_fails P ReadAttestation = None \<longrightarrow> bytes_read s \<noteq> None"
    using assms(1) by (simp_all add: joint_inv_def)
  have stable: "b = []" if "hung_up s" "notary_left s = c # cs" "prefix b (calls_writing c)" for b c cs
    using hung that calls_writing_not [of c] by simp
  from assms(2) show ?thesis
  proof (cases rule: joint_stepE)
    case (notary_calls c cs b)
    have pre: "prefix (notary_made s @ c # cs) (snd (notarize_session L cfg N []))"
      using calls notary_calls(2) by simp
    have "\<not> writes cs" if "c = CloseSocket"
      using pre that session_closes_last [of L cfg N "notary_made s"]
      by (auto simp: prefix_def)
    moreover have "wire_ok L cfg N s'"
      using writing_ok [OF wire pre notary_calls(2,3)] by (auto simp: notary_calls(1) wire_ok_def)
    ultimately show ?thesis
      using pre made hung read got stable [OF _ notary_calls(2,3)] notary_calls(2)
      by (auto simp: notary_calls(1) joint_inv_def)
  next
    case (notary_cut_off c cs b)
    have pre: "prefix (notary_made s @ c # cs) (snd (notarize_session L cfg N []))"
      using calls notary_cut_off(2) by simp
    then have "prefix (notary_made s) (snd (notarize_session L cfg N []))"
      using append_prefixD by blast
    moreover have "wire_ok L cfg N s'"
      using writing_ok [OF wire pre notary_cut_off(2,3)] by (auto simp: notary_cut_off(1) wire_ok_def)
    ultimately show ?thesis
      using made hung read got stable [OF _ notary_cut_off(2,3)]
      by (auto simp: notary_cut_off(1) joint_inv_def)
  next
    case notary_drops
    then show ?thesis using calls made wire read got by (auto simp: joint_inv_def wire_ok_def)
  next
    case (prover_calls c cs)
    then show ?thesis using calls made wire hung read got by (auto simp: joint_inv_def wire_ok_def)
  next
    case (prover_reads cs)
    then show ?thesis using calls made wire hung read got by (auto simp: joint_inv_def wire_ok_def)
  qed
qed

lemma joint_run_inv: "joint_run L cfg N P st body s \<Longrightarrow> joint_inv L cfg N P st body s"
proof (induction rule: joint_run.induct)
  case joint_starts
  show ?case by (simp add: joint_inv_def joint_start_def wire_ok_def)
qed (rule joint_step_inv)

section \<open>What the prover gets\<close>

text \<open>\<open>serde_json\<close>: the beginning of an object is no document, nor is the empty input.\<close>

definition attestation_prefix_law :: "libs \<Rightarrow> bool" where
  "attestation_prefix_law L \<longleftrightarrow>
     (\<forall>a b. strict_prefix b (attestation_to_json L a) \<longrightarrow> attestation_from_json L b = None) \<and>
     (\<forall>a. attestation_to_json L a \<noteq> [])"

lemma run_prover_read:
  assumes "run_prover L E st body [] = (Inr (resp, leg), tr)"
  shows "pv_fails E ReadAttestation = None \<and> ReadAttestation \<in> set tr \<and> resp = pv_body E \<and>
     attestation_from_json L (pv_attestation E) = Some leg"
proof -
  have ok: "stops (run_prover L E st body) (\<lambda>r tr. (\<exists>v. r = Inr v) \<longrightarrow> pv_fails E ReadAttestation = None) []"
    unfolding run_prover_def prove_and_read_def Let_def
    by (intro stops_rules) simp_all
  then show ?thesis
    using stops_result [OF run_prover_ends assms] stops_result [OF ok assms]
    by (auto simp: prover_ends_def)
qed

lemma outcome_agreed:
  assumes "attestation_json_law L" and "attestation_prefix_law L"
    and "joint_run L cfg N P st body s" and "prover_left s = []"
    and "prover_outcome L P st body s = Inr (resp, leg)"
  shows "resp = pv_body P \<and> bytes_read s = Some (attestation_to_json L leg) \<and>
     (\<exists>c. witnessed L cfg N c \<and> SignClaim c \<in> set (notary_made s) \<and> leg = attest L (cfg_notary cfg) c)"
proof -
  have inv: "joint_inv L cfg N P st body s" by (rule joint_run_inv [OF assms(3)])
  define b where "b = (case bytes_read s of Some b \<Rightarrow> b | None \<Rightarrow> [])"
  have run: "run_prover L (with_attestation b P) st body [] = (Inr (resp, leg), prover_made s)"
    using assms(4,5) inv run_prover_calls [of L b P st body "[]"]
    by (simp add: prover_outcome_def b_def joint_inv_def prod_eq_iff)
  note got = run_prover_read [OF run]
  have "bytes_read s \<noteq> None"
    using inv got by (simp add: joint_inv_def)
  then have read: "bytes_read s = Some b" by (auto simp: b_def)
  then have wire: "wire s = b" using inv by (simp add: joint_inv_def)
  have "b \<noteq> []"
  proof
    assume "b = []"
    then have "strict_prefix b (attestation_to_json L leg)"
      using assms(2) unfolding attestation_prefix_law_def strict_prefix_def by (metis prefix_bot.bot_least)
    then show False using got assms(2) by (simp add: attestation_prefix_law_def)
  qed
  then obtain c where c: "witnessed L cfg N c" "SignClaim c \<in> set (notary_made s)"
      "prefix b (attestation_to_json L (attest L (cfg_notary cfg) c))"
    using inv wire unfolding joint_inv_def wire_ok_def by blast
  have "\<not> strict_prefix b (attestation_to_json L (attest L (cfg_notary cfg) c))"
    using got assms(2) unfolding attestation_prefix_law_def by auto
  then have b: "b = attestation_to_json L (attest L (cfg_notary cfg) c)"
    using c(3) by (simp add: strict_prefix_def)
  then have "leg = attest L (cfg_notary cfg) c"
    using got assms(1) by (simp add: attestation_json_law_def)
  then show ?thesis using got read b c by auto
qed

section \<open>An honest reseller\<close>

text \<open>
  The two ends of one TLS connection: the notary is shown the request with the key withheld and
  all of the answer; the HTTP client hands on the decoded body.
\<close>

definition one_connection :: "char \<Rightarrow> app \<Rightarrow> bytes \<Rightarrow> notary_env \<Rightarrow> prover_env \<Rightarrow> bool" where
  "one_connection fill st body N P \<longleftrightarrow>
     request_sent (api_key st) body (pv_sent P) \<and> pv_body P = decoded_body (pv_received P) \<and>
     (\<forall>seen received. nv_transcript N = Some (seen, received) \<longrightarrow>
        seen_by_notary fill (api_key st) (pv_sent P) seen \<and> received = pv_received P)"

lemma agreed_claim:
  assumes "one_connection fill st body N P" and "witnessed L cfg N c"
  shows "host c = cfg_upstream_host cfg" and "request_digest c = sha256_hex L body"
    and "response_digest c = sha256_hex L (pv_body P)"
proof -
  obtain seen where "seen_by_notary fill (api_key st) (pv_sent P) seen"
      and c: "c = witnessed_claim L (cfg_upstream_host cfg) seen (pv_received P) (nv_time N)"
    using assms by (auto simp: one_connection_def witnessed_def)
  moreover have "request_sent (api_key st) body (pv_sent P)"
    using assms(1) by (simp add: one_connection_def)
  ultimately have "c = witnessed_claim L (cfg_upstream_host cfg) (pv_sent P) (pv_received P) (nv_time N)"
    and "decoded_body (pv_sent P) = body"
    using seen_claim by metis+
  then show "host c = cfg_upstream_host cfg" and "request_digest c = sha256_hex L body"
    and "response_digest c = sha256_hex L (pv_body P)"
    using assms(1) by (simp_all add: one_connection_def)
qed

text \<open>Every reply an honest reseller is paid for is one the buyer verifies.\<close>

lemma honest_reply_verified:
  fixes J :: "'v json_lib"
  assumes laws: "run_laws L M" "attestation_prefix_law L" and key: "length (signing_key (cfg_notary cfg)) = 32"
    and mode: "app_mode st = Honest" and conn: "one_connection fill st body N P"
    and run: "joint_run L cfg N P st body s" "prover_left s = []"
    and reply: "fst (messages L J M (with_attestation (case bytes_read s of Some b \<Rightarrow> b | None \<Rightarrow> []) P)
       st headers body []) = Inr reply" "reply_status reply = 200"
  shows "\<exists>cs. judge_response L J M (public_key_hex L (cfg_notary cfg)) (cfg_upstream_host cfg)
     (sha256_hex L body) (as_response J reply) = Verified cs"
proof -
  let ?P = "with_attestation (case bytes_read s of Some b \<Rightarrow> b | None \<Rightarrow> []) P"
  obtain tr where "messages L J M ?P st headers body [] = (Inr reply, tr)"
    using reply(1) by (metis prod.collapse)
  then show ?thesis
  proof (cases rule: messages_cases)
    case unpaid
    then show ?thesis using reply(2) challenge_status [of J M st] by simp
  next
    case (answered cr receipt response_body leg calls)
    have "prover_outcome L P st body s = Inr (response_body, leg)"
      using answered(3) by (simp add: prover_outcome_def)
    then obtain c where c: "witnessed L cfg N c" "leg = attest L (cfg_notary cfg) c" "response_body = pv_body P"
      using outcome_agreed [OF _ laws(2) run] laws(1) unfolding run_laws_def by blast
    note fields = agreed_claim [OF conn c(1)]
    have "signed_under L (sk_public L (signing_key (cfg_notary cfg))) leg"
      unfolding c(2) using laws(1) key by (intro signed_under_attest) (simp_all add: run_laws_def delivery_laws_def)
    then have "\<exists>cs. judge_bundle L J (public_key_hex L (cfg_notary cfg)) (cfg_upstream_host cfg)
        (sha256_hex L body) (reference M receipt) (starts_with_yes J response_body)
        (make_bundle leg (sha256_hex L (starts_with_yes J response_body)) (reference M receipt))
        [(''leg0'', response_body)] = Verified cs"
      by (rule honest_bundle_verified) (simp_all add: c fields)
    moreover obtain reply' where "deliver L J M st receipt response_body leg = Inr reply'"
      and "judge_response L J M (public_key_hex L (cfg_notary cfg)) (cfg_upstream_host cfg)
        (sha256_hex L body) (as_response J reply') =
        judge_bundle L J (public_key_hex L (cfg_notary cfg)) (cfg_upstream_host cfg)
        (sha256_hex L body) (reference M receipt) (starts_with_yes J response_body)
        (make_bundle leg (sha256_hex L (starts_with_yes J response_body)) (reference M receipt))
        [(''leg0'', response_body)]"
      using delivered_is_judged [where L = L and M = M and st = st and response_body = response_body
          and answer = response_body and J = J and receipt = receipt and leg = leg
          and k = "public_key_hex L (cfg_notary cfg)" and h = "cfg_upstream_host cfg" and q = "sha256_hex L body"]
        laws(1) mode
      by (auto simp: run_laws_def)
    ultimately show ?thesis using answered(4) by auto
  qed (use reply(2) in simp_all)
qed

section \<open>A schedule\<close>

text \<open>The notary first, then the prover: one of the runs, for every course of the two sessions.\<close>

lemma notary_first:
  "joint_run L cfg N P st body s \<Longrightarrow> notary_left s = cs \<Longrightarrow>
     \<exists>s'. joint_run L cfg N P st body s' \<and> notary_left s' = [] \<and> prover_left s' = prover_left s
       \<and> notary_made s' = notary_made s @ cs \<and> bytes_read s' = bytes_read s
       \<and> wire s' = wire s @ concat (map calls_writing cs)"
proof (induction cs arbitrary: s)
  case (Cons c cs)
  let ?u = "s\<lparr>notary_made := notary_made s @ [c], notary_left := cs, wire := wire s @ calls_writing c,
       hung_up := (hung_up s \<or> c = CloseSocket)\<rparr>"
  have "joint_run L cfg N P st body ?u"
    using joint_goes_on [OF Cons.prems(1) notary_calls] Cons.prems(2) by simp
  then show ?case using Cons.IH [of ?u] by simp
qed auto

lemma prover_then:
  "joint_run L cfg N P st body s \<Longrightarrow> hung_up s \<Longrightarrow> prover_left s = cs \<Longrightarrow>
     \<exists>s'. joint_run L cfg N P st body s' \<and> prover_left s' = [] \<and> notary_made s' = notary_made s \<and> wire s' = wire s"
proof (induction cs arbitrary: s)
  case (Cons c cs)
  show ?case
  proof (cases "c = ReadAttestation \<and> pv_fails P c = None")
    case True
    let ?u = "s\<lparr>prover_made := prover_made s @ [ReadAttestation], prover_left := cs, bytes_read := Some (wire s)\<rparr>"
    have left: "prover_left s = ReadAttestation # cs" "pv_fails P ReadAttestation = None"
      using True Cons.prems(3) by auto
    have "joint_run L cfg N P st body ?u"
      by (rule joint_goes_on [OF Cons.prems(1) prover_reads [OF left Cons.prems(2)]])
    then show ?thesis using Cons.IH [of ?u] Cons.prems(2) by simp
  next
    case False
    let ?u = "s\<lparr>prover_made := prover_made s @ [c], prover_left := cs\<rparr>"
    have "joint_run L cfg N P st body ?u"
      using joint_goes_on [OF Cons.prems(1) prover_calls] Cons.prems(3) False by blast
    then show ?thesis using Cons.IH [of ?u] Cons.prems(2) by simp
  qed
qed auto

lemma joint_completed:
  obtains s where "joint_run L cfg N P st body s" "prover_left s = []"
    "notary_made s = snd (notarize_session L cfg N [])"
    "wire s = concat (map calls_writing (snd (notarize_session L cfg N [])))"
proof -
  obtain u where u: "joint_run L cfg N P st body u" "notary_left u = []"
      "notary_made u = snd (notarize_session L cfg N [])"
      "wire u = concat (map calls_writing (snd (notarize_session L cfg N [])))"
    using notary_first [OF joint_starts, of L cfg N P st body] by (auto simp: joint_start_def)
  have "joint_run L cfg N P st body (u\<lparr>hung_up := True\<rparr>)"
  proof (cases "hung_up u")
    case True
    then have "u\<lparr>hung_up := True\<rparr> = u" by (cases u) simp
    then show ?thesis using u(1) by simp
  next
    case False
    then show ?thesis using joint_goes_on [OF u(1) notary_drops] u(2) by simp
  qed
  from prover_then [OF this] obtain s where "joint_run L cfg N P st body s" "prover_left s = []"
      "notary_made s = notary_made u" "wire s = wire u"
    by auto
  then show thesis using that u(3,4) by simp
qed

end
