(* ===== verification/Joint_Properties.thy ===== *)
theory Joint_Properties
  imports Joint_Session Reference_Run Session_Properties
begin

text \<open>
  Properties of a notarization from both ends, over all interleavings of the two processes and
  all failures, with the attestation going over the socket between them.
\<close>

section \<open>The reference codec reads no proper beginning\<close>

text \<open>A reader that is not affected by what follows the document.\<close>

definition self_delimiting :: "(bytes \<Rightarrow> ('a \<times> bytes) option) \<Rightarrow> bool" where
  "self_delimiting d \<longleftrightarrow> (\<forall>b x r t. d b = Some (x, r) \<longrightarrow> d (b @ t) = Some (x, r @ t))"

lemma dec_str_delimiting: "self_delimiting dec_str"
proof -
  have "dec_str b = Some (x, r) \<Longrightarrow> dec_str (b @ t) = Some (x, r @ t)" for b x r t
  proof (induction b arbitrary: x r rule: dec_str.induct)
    case (2 y)
    then show ?case by (cases t) (auto split: if_splits)
  qed (auto split: if_splits)
  then show ?thesis by (simp add: self_delimiting_def)
qed

lemma dec_list_delimiting:
  "dec_list d f b = Some (xs, r) \<Longrightarrow> f \<le> f' \<Longrightarrow> self_delimiting d \<Longrightarrow> dec_list d f' (b @ t) = Some (xs, r @ t)"
proof (induction d f b arbitrary: xs r f' rule: dec_list.induct)
  case (2 d fuel bs)
  then obtain g where "f' = Suc g" "fuel \<le> g" by (cases f') auto
  moreover have "d b = Some (x, r) \<Longrightarrow> d (b @ t) = Some (x, r @ t)" for b x r
    using 2(4) by (simp add: self_delimiting_def)
  ultimately show ?case
    using 2(1,2,4) by (auto split: list.split_asm if_split_asm option.split_asm)
qed simp

lemma dec_strs_delimiting: "self_delimiting dec_strs"
  using dec_list_delimiting [OF _ _ dec_str_delimiting] by (auto simp: self_delimiting_def dec_strs_def)

lemma dec_attestation_eq_Some:
  "dec_attestation b = Some (x, r) \<longleftrightarrow>
     (\<exists>ss r1 c k sg. dec_strs b = Some (ss, r1) \<and> claim_of_strs ss = Some c
        \<and> dec_strs r1 = Some ([k, sg], r) \<and> x = \<lparr>claim = c, leg_proof_of = NotarySig k sg\<rparr>)"
proof
  assume dec: "dec_attestation b = Some (x, r)"
  then obtain ss r1 c ss' r' where parts: "dec_strs b = Some (ss, r1)" "claim_of_strs ss = Some c"
      "dec_strs r1 = Some (ss', r')"
    by (auto simp: dec_attestation_def dec_claim_def Option.bind_eq_Some_conv)
  then have "(case ss' of [k, s] \<Rightarrow> Some (\<lparr>claim = c, leg_proof_of = NotarySig k s\<rparr>, r') | _ \<Rightarrow> None) = Some (x, r)"
    using dec by (simp add: dec_attestation_def dec_claim_def)
  then obtain k sg where "ss' = [k, sg]" "x = \<lparr>claim = c, leg_proof_of = NotarySig k sg\<rparr>" "r' = r"
    by (cases ss' rule: remdups_adj.cases) (simp_all split: list.split_asm)
  then show "\<exists>ss r1 c k sg. dec_strs b = Some (ss, r1) \<and> claim_of_strs ss = Some c
        \<and> dec_strs r1 = Some ([k, sg], r) \<and> x = \<lparr>claim = c, leg_proof_of = NotarySig k sg\<rparr>"
    using parts by blast
qed (auto simp: dec_attestation_def dec_claim_def)

lemma dec_attestation_delimiting: "self_delimiting dec_attestation"
  using dec_strs_delimiting unfolding self_delimiting_def dec_attestation_eq_Some by blast

lemma ref_prefix_law: "attestation_prefix_law ref_libs"
proof -
  have "dec_all dec_attestation b = None" if strict: "strict_prefix b (enc_attestation a)" for a b
  proof (rule ccontr)
    assume "dec_all dec_attestation b \<noteq> None"
    then obtain x where x: "dec_attestation b = Some (x, [])"
      by (auto simp: dec_all_def split: option.splits list.splits)
    obtain t where t: "enc_attestation a = b @ t" "t \<noteq> []"
      using strict by (auto simp: strict_prefix_def prefix_def)
    have "dec_attestation (b @ t) = Some (x, [] @ t)"
      using dec_attestation_delimiting x unfolding self_delimiting_def by blast
    then have "dec_attestation (enc_attestation a @ []) = Some (x, t)" by (simp add: t(1))
    then show False using t(2) unfolding dec_attestation_enc by simp
  qed
  moreover have "enc_attestation a \<noteq> []" for a
    by (simp add: enc_attestation_def enc_claim_def enc_list_def)
  ultimately show ?thesis by (simp add: attestation_prefix_law_def)
qed

section \<open>The hand-over\<close>

text \<open>
  C15. The attestation is handed over whole or not at all: however the calls of the notary and the
  prover interleave, whatever fails on either side, also when the notary is cut off while it
  writes, a prover session that returns a leg has read exactly the bytes of the attestation that
  the notary of this very session made of the claim it witnessed, after it was signed.
\<close>

theorem attestation_agreed:
  assumes "attestation_json_law L" and "attestation_prefix_law L"
    and "joint_run L cfg N P st body s" and "prover_left s = []"
    and "prover_outcome L P st body s = Inr (resp, leg)"
  shows "resp = pv_body P \<and> bytes_read s = Some (attestation_to_json L leg) \<and>
     (\<exists>c. witnessed L cfg N c \<and> SignClaim c \<in> set (notary_made s) \<and> leg = attest L (cfg_notary cfg) c)"
  by (rule outcome_agreed [OF assms])

text \<open>The reference sessions, joined.\<close>

lemma ref_joint:
  obtains s where "joint_run ref_libs ref_config ref_session ref_prover ref_app ref_request s"
    "prover_left s = []" "bytes_read s = Some (attestation_to_json ref_libs ref_signed)"
    "prover_outcome ref_libs ref_prover ref_app ref_request s = Inr (ref_answer ''Yes'', ref_signed)"
proof -
  obtain s where run: "joint_run ref_libs ref_config ref_session ref_prover ref_app ref_request s"
    and left: "prover_left s = []"
    and wire: "wire s = concat (map calls_writing (snd (notarize_session ref_libs ref_config ref_session [])))"
    by (rule joint_completed)
  have "concat (map calls_writing tr) = concat (written tr)" for tr
    by (induction tr) (auto simp: calls_writing_def written_def List.map_filter_simps split: notary_call.splits)
  then have wire: "wire s = attestation_to_json ref_libs ref_signed"
    using wire ref_session_written by simp
  obtain tr where tr: "run_prover ref_libs ref_prover ref_app ref_request []
      = (Inr (ref_answer ''Yes'', ref_signed), tr)"
    using ref_run_prover by blast
  have inv: "joint_inv ref_libs ref_config ref_session ref_prover ref_app ref_request s"
    by (rule joint_run_inv [OF run])
  then have "bytes_read s \<noteq> None"
    using run_prover_read [OF tr] left tr by (simp add: joint_inv_def)
  then have read: "bytes_read s = Some (attestation_to_json ref_libs ref_signed)"
    using inv wire by (auto simp: joint_inv_def)
  have "with_attestation (attestation_to_json ref_libs ref_signed) ref_prover = ref_prover"
    by (simp add: with_attestation_def ref_prover_def)
  then have "prover_outcome ref_libs ref_prover ref_app ref_request s = Inr (ref_answer ''Yes'', ref_signed)"
    by (simp only: prover_outcome_def read option.case tr fst_conv)
  with run left read show thesis by (rule that)
qed

theorem attestation_agreed_witness:
  "\<exists>s :: joint. bytes_read s = Some (attestation_to_json ref_libs ref_signed) \<and>
     (\<exists>c. witnessed ref_libs ref_config ref_session c \<and> SignClaim c \<in> set (notary_made s))"
proof -
  obtain s where s: "joint_run ref_libs ref_config ref_session ref_prover ref_app ref_request s"
    "prover_left s = []"
    "prover_outcome ref_libs ref_prover ref_app ref_request s = Inr (ref_answer ''Yes'', ref_signed)"
    by (rule ref_joint)
  from attestation_agreed [OF ref_laws(7) ref_prefix_law s] show ?thesis
    by (intro exI [of _ s]) auto
qed

text \<open>
  An honest reseller is never rejected: every reply with status 200 that it gives to a request,
  in whatever interleaving with the notary and with whatever failures on the way, is one that a
  buyer who sent this request and pinned the notary's key and upstream verifies. So a rejection
  shows that the seller departed from the program, or that the HTTP client's body is not the
  one the notary decodes.
\<close>

theorem honest_seller_never_rejected:
  assumes "run_laws L M" and "attestation_prefix_law L" and "length (signing_key (cfg_notary cfg)) = 32"
    and "app_mode st = Honest" and "one_connection fill st body N P"
    and "joint_run L cfg N P st body s" and "prover_left s = []"
    and "fst (messages L J M (with_attestation (case bytes_read s of Some b \<Rightarrow> b | None \<Rightarrow> []) P)
       st headers body []) = Inr reply" and "reply_status reply = 200"
  shows "\<exists>cs. judge_response L J M (public_key_hex L (cfg_notary cfg)) (cfg_upstream_host cfg)
     (sha256_hex L body) (as_response J reply) = Verified cs"
  by (rule honest_reply_verified [OF assms])

lemma ref_one_connection: "one_connection CHR 0x00 ref_app ref_request ref_session ref_prover"
  using ref_request_sent ref_withheld ref_decoded
  by (simp add: one_connection_def ref_sel) (simp add: ref_prover_def)

theorem honest_seller_never_rejected_witness:
  "\<exists>reply cs. reply_status reply = 200 \<and>
     judge_response ref_libs ref_json ref_mpp (public_key_hex ref_libs ref_notary) (cfg_upstream_host ref_config)
       (sha256_hex ref_libs ref_request) (as_response ref_json reply) = Verified cs"
proof -
  obtain s where run: "joint_run ref_libs ref_config ref_session ref_prover ref_app ref_request s"
      "prover_left s = []" and read: "bytes_read s = Some (attestation_to_json ref_libs ref_signed)"
    by (rule ref_joint)
  obtain reply where reply: "fst (messages ref_libs ref_json ref_mpp ref_prover ref_app ref_paid_headers ref_request [])
      = Inr reply" "reply_status reply = 200"
    using honest_reply [OF ref_run_laws ref_deployed ref_good_session ref_good_prover ref_paid,
        of ref_json] by blast
  have whole: "with_attestation (case bytes_read s of Some b \<Rightarrow> b | None \<Rightarrow> []) ref_prover = ref_prover"
    by (simp add: with_attestation_def read ref_prover_def)
  have reply': "fst (messages ref_libs ref_json ref_mpp
      (with_attestation (case bytes_read s of Some b \<Rightarrow> b | None \<Rightarrow> []) ref_prover) ref_app ref_paid_headers
      ref_request []) = Inr reply"
    unfolding whole by (rule reply(1))
  have key: "length (signing_key (cfg_notary ref_config)) = 32"
    by (simp add: ref_config_def ref_key_length)
  show ?thesis
    using honest_seller_never_rejected [OF ref_run_laws ref_prefix_law key ref_sel(2) ref_one_connection run reply' reply(2)]
      reply(2) by (auto simp: ref_config_def)
qed

end
