(* ===== verification/Request_Properties.thy ===== *)
theory Request_Properties
  imports Reseller_Server Reseller_Properties Joint_Properties
begin

text \<open>
  Properties of one request to the reseller's server, from the routes to the reply. The server
  (\<open>axum::serve\<close>) runs a handler for each request; handlers share nothing they can change, so
  what is said of one request holds whatever others are under way.
\<close>

text \<open>The paid request of the reference run.\<close>

definition ref_paid_post :: request where
  "ref_paid_post = \<lparr>rq_method = ''POST'', rq_path = ''/v1/messages'', rq_headers = ref_paid_headers,
                    rq_body = ref_request\<rparr>"

lemma ref_paid_handled:
  "handle_request ref_libs ref_json ref_mpp ref_route ref_prover ref_app ref_paid_post
     = messages ref_libs ref_json ref_mpp ref_prover ref_app ref_paid_headers ref_request"
proof -
  have "length ref_request \<le> 2097152" by code_simp
  then have "ref_route reseller_routes ref_paid_post = Inr Messages"
    by (simp add: ref_route_def reseller_routes_def ref_paid_post_def)
  then show ?thesis by (simp add: handle_request_def ref_paid_post_def)
qed

text \<open>
  C21. At every moment, whatever has been called upstream was paid for: however far a handler has
  come, when a call of a prover session is among those it has begun, its request is a POST to
  /v1/messages whose credential has been verified before, by the first call of the same handler.
\<close>

theorem upstream_calls_are_paid:
  assumes "router_law route" and "prefix made (snd (handle_request L J M route E st rq []))"
    and "ProverCall k \<in> set made"
  shows "rq_method rq = ''POST'' \<and> rq_path rq = ''/v1/messages'' \<and>
     (\<exists>c receipt. presented M (rq_headers rq) = Some c \<and> verify_credential M c = Inr receipt \<and>
        hd made = VerifyCredential c)"
proof -
  obtain res tr where run: "handle_request L J M route E st rq [] = (res, tr)" by fastforce
  then have pre: "prefix made tr" using assms(2) by simp
  have call: "ProverCall k \<in> set tr" using set_mono_prefix [OF pre] assms(3) by blast
  then have "tr \<noteq> []" by auto
  from only_paid_messages_go_upstream [OF assms(1) run this] obtain c calls where
      "rq_method rq = ''POST''" "rq_path rq = ''/v1/messages''"
      "presented M (rq_headers rq) = Some c" "tr = VerifyCredential c # map ProverCall calls"
      "calls \<noteq> [] \<longrightarrow> (\<exists>receipt. verify_credential M c = Inr receipt)"
    by blast
  moreover have "hd made = hd tr"
    using pre assms(3) by (cases made) (auto simp: prefix_def)
  ultimately show ?thesis using call by (cases calls) auto
qed

theorem upstream_calls_are_paid_witness:
  "\<exists>c receipt. presented ref_mpp ref_paid_headers = Some c \<and> verify_credential ref_mpp c = Inr receipt \<and>
     hd (snd (handle_request ref_libs ref_json ref_mpp ref_route ref_prover ref_app ref_paid_post [])) = VerifyCredential c"
proof -
  let ?run = "handle_request ref_libs ref_json ref_mpp ref_route ref_prover ref_app ref_paid_post []"
  obtain tr where tr: "run_prover ref_libs ref_prover ref_app ref_request [] = (Inr (ref_answer ''Yes'', ref_signed), tr)"
      "Prove \<in> set tr"
    using ref_run_prover by blast
  have "snd ?run = VerifyCredential ''valid'' # map ProverCall tr"
    using messages_paid [OF ref_paid tr(1), of ref_json] by (simp add: ref_paid_handled)
  then have "ProverCall Prove \<in> set (snd ?run)" using tr(2) by simp
  from upstream_calls_are_paid [OF ref_router_law prefix_order.order_refl this] show ?thesis
    by (simp add: ref_paid_post_def)
qed

section \<open>Honest replies\<close>

text \<open>
  The course of a prover session that is one end of a session of the notary: its environment is
  what a joint run of the two left to read.
\<close>

definition joint_course ::
  "libs \<Rightarrow> notary_config \<Rightarrow> char \<Rightarrow> app \<Rightarrow> request \<Rightarrow> prover_env \<Rightarrow> bool" where
  "joint_course L cfg fill st rq E \<longleftrightarrow>
     (\<exists>N P s. one_connection fill st (rq_body rq) N P \<and> joint_run L cfg N P st (rq_body rq) s \<and>
        prover_left s = [] \<and>
        E = with_attestation (case bytes_read s of Some b \<Rightarrow> b | None \<Rightarrow> []) P)"

text \<open>
  C5. An honest reseller is never rejected: whatever failures happen on the way, in its session
  or the notary's, and however the two interleave, a reply with status 200 to a POST to
  /v1/messages is one that a buyer who sent this request and pinned the notary's key and
  upstream verifies. So a rejection shows that the seller departed from the program, or that its
  HTTP client's body is not the one the notary decodes.
\<close>

theorem served_replies_verified:
  fixes J :: "'v json_lib"
  assumes "run_laws L M" and "attestation_prefix_law L" and "length (signing_key (cfg_notary cfg)) = 32"
    and "app_mode st = Honest" and "router_law route" and "joint_course L cfg fill st rq E"
    and "fst (handle_request L J M route E st rq []) = Inr reply" and "reply_status reply = 200"
    and "rq_method rq = ''POST''" and "rq_path rq = ''/v1/messages''" and "length (rq_body rq) \<le> 2097152"
  shows "\<exists>cs. judge_response L J M (public_key_hex L (cfg_notary cfg)) (cfg_upstream_host cfg)
     (sha256_hex L (rq_body rq)) (as_response J reply) = Verified cs"
proof -
  obtain N P js where course: "one_connection fill st (rq_body rq) N P"
      "joint_run L cfg N P st (rq_body rq) js" "prover_left js = []"
    and E: "E = with_attestation (case bytes_read js of Some b \<Rightarrow> b | None \<Rightarrow> []) P"
    using assms(6) unfolding joint_course_def by blast
  have "route reseller_routes rq = Inr Messages"
    by (rule routed_to [OF assms(5)]) (simp_all add: reseller_routes_def assms(9-11))
  then have "fst (messages L J M (with_attestation (case bytes_read js of Some b \<Rightarrow> b | None \<Rightarrow> []) P) st
      (rq_headers rq) (rq_body rq) []) = Inr reply"
    using assms(7) by (simp add: handle_request_def E)
  from honest_seller_never_rejected [OF assms(1-4) course this assms(8)] show ?thesis .
qed

text \<open>The reference session, as the course of the reference request.\<close>

lemma ref_joint_course: "joint_course ref_libs ref_config CHR 0x00 ref_app ref_paid_post ref_prover"
proof -
  obtain s where s: "joint_run ref_libs ref_config ref_session ref_prover ref_app ref_request s"
      "prover_left s = []" "bytes_read s = Some (attestation_to_json ref_libs ref_signed)"
    by (rule ref_joint)
  have "ref_prover = with_attestation (case bytes_read s of Some b \<Rightarrow> b | None \<Rightarrow> []) ref_prover"
    by (simp add: with_attestation_def s(3) ref_prover_def)
  moreover have body: "rq_body ref_paid_post = ref_request" by (simp add: ref_paid_post_def)
  ultimately show ?thesis
    using s(1,2) ref_one_connection unfolding joint_course_def body by blast
qed

theorem served_replies_verified_witness:
  "\<exists>reply cs. reply_status reply = 200 \<and>
     judge_response ref_libs ref_json ref_mpp (public_key_hex ref_libs ref_notary) (cfg_upstream_host ref_config)
       (sha256_hex ref_libs ref_request) (as_response ref_json reply) = Verified cs"
proof -
  obtain reply where reply: "fst (messages ref_libs ref_json ref_mpp ref_prover ref_app ref_paid_headers ref_request [])
      = Inr reply" "reply_status reply = 200"
    using honest_reply [OF ref_run_laws ref_deployed ref_good_session ref_good_prover ref_paid,
        of ref_json] by blast
  then have handled: "fst (handle_request ref_libs ref_json ref_mpp ref_route ref_prover ref_app ref_paid_post [])
      = Inr reply" unfolding ref_paid_handled by simp
  have key: "length (signing_key (cfg_notary ref_config)) = 32"
    by (simp add: ref_config_def ref_key_length)
  have small: "length (rq_body ref_paid_post) \<le> 2097152"
    unfolding ref_paid_post_def by code_simp
  from served_replies_verified [OF ref_run_laws ref_prefix_law key ref_sel(2) ref_router_law ref_joint_course
      handled reply(2) _ _ small]
  show ?thesis using reply(2) by (auto simp: ref_paid_post_def ref_config_def)
qed

end
