(* ===== verification/Upstream_Messages.thy ===== *)
theory Upstream_Messages
  imports Honest_Run Http_Grammar
begin

text \<open>
  Where the two readers of the upstream's answer meet: the reseller's HTTP client, which hands
  on the payload of the final response, and the notary, which decodes the received bytes by
  itself. They agree on one message, sent plainly or in chunks. They do not when an interim
  response goes before the final one: the notary takes the interim response for the head, and
  all of the final response, head included, for the body.
\<close>

lemma message_prover_good:
  assumes "well_formed m" and "notarized_prover L cfg st N P fill body seen" and "pv_body P = message_body m"
  shows "good_prover L cfg st N P fill body seen (wire_form m)"
  using assms by (simp add: good_prover_def decoded_body_wire)

text \<open>A message that is a head only, with another one behind it.\<close>

definition interim :: "http_message \<Rightarrow> bool" where
  "interim i \<longleftrightarrow> well_formed i \<and> framing_of i = Plain []"

lemma wire_form_nonempty: "length (message_body m) < length (wire_form m)"
proof -
  have "length (message_body m) \<le> length (framed (framing_of m))"
    unfolding message_body_def
  proof (cases "framing_of m")
    case (Chunks cs e t)
    have "length (concat (map snd cs)) \<le>
        length (chunked (map (\<lambda>(ext, d). (show_radix 16 (length d) @ ext, d)) cs))"
      by (induction cs) (auto simp: chunked_def)
    then show "length (payload_of (framing_of m)) \<le> length (framed (framing_of m))"
      by (simp add: Chunks)
  qed simp
  moreover have "0 < length (message_head m)"
    by (simp add: message_head_def lines_head_def)
  ultimately show ?thesis unfolding wire_form_def length_append by linarith
qed

lemma decoded_after_interim:
  assumes "interim i"
  shows "decoded_body (wire_form i @ rest) = rest"
proof -
  have head: "head_ok i" and wire: "wire_form i = message_head i"
    using assms by (simp_all add: interim_def well_formed_def wire_form_def)
  have "\<not> header_is_chunked (message_head i)"
    using assms unfolding message_head_chunked [OF head] by (simp add: interim_def well_formed_def)
  then show ?thesis
    by (simp add: wire decoded_body_message [OF http_head_message [OF head]])
qed

text \<open>
  An honest reseller whose HTTP client and notary differ on the body delivers all the same,
  and is rejected.
\<close>

lemma differing_body_rejected:
  fixes J :: "'v json_lib"
  assumes laws: "run_laws L M" and mode: "app_mode st = Honest"
    and session: "good_session cfg N seen received" and prover: "notarized_prover L cfg st N P fill body seen"
    and differs: "pv_body P \<noteq> decoded_body received"
    and paid: "presented M headers = Some c" "verify_credential M c = Inr receipt"
  shows "\<exists>reply. fst (messages L J M P st headers body []) = Inr reply \<and> reply_status reply = 200 \<and>
     ((\<exists>cs. judge_response L J M k h q (as_response J reply) = Rejected cs) \<or>
      sha_collision L (decoded_body received) (pv_body P))"
proof -
  have dl: "delivery_laws L M" and aj: "attestation_json_law L" and hex: "hex_law L"
    using laws by (simp_all add: run_laws_def delivery_laws_def)
  let ?leg = "attest L (cfg_notary cfg)
     (witnessed_claim L (cfg_upstream_host cfg) (pv_sent P) received (nv_time N))"
  obtain calls where run: "run_prover L P st body [] = (Inr (pv_body P, ?leg), calls)"
    using notarized_prover_leg(1) [OF session prover aj] by blast
  obtain reply where reply: "deliver L J M st receipt (pv_body P) ?leg = Inr reply"
    and judge: "judge_response L J M k h q (as_response J reply) =
      judge_bundle L J k h q (reference M receipt) (starts_with_yes J (pv_body P))
        (make_bundle ?leg (sha256_hex L (starts_with_yes J (pv_body P))) (reference M receipt))
        [(''leg0'', pv_body P)]"
    using delivered_is_judged [OF dl, where st = st and response_body = "pv_body P" and answer = "pv_body P"
        and J = J and leg = ?leg and receipt = receipt and k = k and h = h and q = q] mode
    by auto
  have "response_digest (claim ?leg) = sha256_hex L (decoded_body received)" by simp
  from substituted_bundle_rejected [OF hex this differs]
  have "(\<exists>cs. judge_response L J M k h q (as_response J reply) = Rejected cs) \<or>
      sha_collision L (decoded_body received) (pv_body P)"
    unfolding judge by blast
  moreover have "fst (messages L J M P st headers body []) = Inr reply"
    using reply by (simp add: messages_paid [OF paid run])
  ultimately show ?thesis using deliver_reply(1) [OF reply] by blast
qed

end
