(* ===== verification/Upstream_Properties.thy ===== *)
theory Upstream_Properties
  imports Upstream_Messages Reference_Run
begin

text \<open>Properties of the upstream's answer, from the message it sent to what the buyer decides.\<close>

text \<open>
  C27. The notary reads back what was sent: for every well-formed HTTP/1.1 message, with any
  ASCII header fields, names in any case, sent plainly or in any chunks with extensions and a trailer, the
  decoded body is its payload, and the words of its start line are the method and target of a
  request, or the status of a response.
\<close>

theorem message_read_back:
  assumes "well_formed m" and "start_words m = (a, b, c)"
  shows "decoded_body (wire_form m) = message_body m \<and> request_line (wire_form m) = (a, b) \<and>
     (\<forall>n < 2 ^ 16. b = show_radix 10 n \<longrightarrow> unat (status_code (wire_form m)) = n)"
proof (intro conjI allI impI)
  have head: "head_ok m" using assms(1) by (simp add: well_formed_def)
  show "decoded_body (wire_form m) = message_body m" by (rule decoded_body_wire [OF assms(1)])
  show "request_line (wire_form m) = (a, b)"
    using request_line_wire [OF head assms(2), of "[]"] by simp
  fix n :: nat assume n: "n < 2 ^ 16" and "b = show_radix 10 n"
  with status_code_wire [OF head, of a n c "[]"] assms(2) show "unat (status_code (wire_form m)) = n"
    by (simp add: unsigned_of_nat take_bit_nat_eq_self)
qed

text \<open>A response in two chunks, and the reference answer, plainly, as messages.\<close>

definition ref_hello :: http_message where
  "ref_hello = \<lparr>start_words = (''HTTP/1.1'', ''200'', ''OK''),
     header_fields = [(''Server'', '' x:y''), (''Transfer-Encoding'', '' Chunked'')],
     framing_of = Chunks [('';a=b'', ''hello''), ([], '' world'')] [] crlf\<rparr>"

lemma ref_hello_ok: "well_formed ref_hello"
proof -
  have chunked: "declares_chunked (''Transfer-Encoding'', '' Chunked'')"
    unfolding declares_chunked_def by code_simp
  have "head_ok ref_hello"
    by (simp add: head_simps ref_hello_def graphic_def ascii_def)
  moreover have "framing_ok (framing_of ref_hello)"
    by (simp add: ref_hello_def chunk_ext_def)
  ultimately show ?thesis
    using chunked by (auto simp: well_formed_def ref_hello_def)
qed

theorem message_read_back_witness:
  "decoded_body (wire_form ref_hello) = ''hello world'' \<and> unat (status_code (wire_form ref_hello)) = 200"
proof -
  have words: "start_words ref_hello = (''HTTP/1.1'', ''200'', ''OK'')" by (simp add: ref_hello_def)
  have "''200'' = show_radix 10 200" by code_simp
  with message_read_back [OF ref_hello_ok words] show ?thesis
    by (simp add: message_body_def ref_hello_def)
qed

text \<open>
  C4. An honest run succeeds: with both services started on one deployment, a verified payment
  and no failed call, an upstream answer that is any well-formed HTTP message, plain or in
  chunks, whose payload the reseller's HTTP client hands on, the buyer's program ends in
  Verified.
\<close>

theorem honest_run_over_http:
  assumes "run_laws L M" and "deployed L nvar rvar cfg st"
    and "well_formed m" and "good_session cfg N seen (wire_form m)"
    and "notarized_prover L cfg st N P fill (buyer_request J B) seen" and "pv_body P = message_body m"
    and "presented M headers = Some c" and "verify_credential M c = Inr receipt"
    and "good_buyer L J M cfg st P headers B"
  shows "\<exists>cs. buyer_main L J M B = Verified cs"
  by (rule honest_buyer_verifies [OF assms(1,2,4) message_prover_good [OF assms(3,5,6)] assms(7-9)])

definition ref_message :: http_message where
  "ref_message = \<lparr>start_words = (''HTTP/1.1'', ''200'', ''OK''), header_fields = [],
     framing_of = Plain (ref_answer ''Yes'')\<rparr>"

lemma ref_message_ok: "well_formed ref_message"
  by (simp add: well_formed_def head_simps ref_message_def graphic_def ascii_def)

lemma ref_message_wire: "wire_form ref_message = ref_received" "message_body ref_message = ref_answer ''Yes''"
  by (simp_all add: wire_form_def message_head_def lines_head_def start_line_def message_body_def ref_message_def
      ref_received_def ref_response_head_def)

lemma ref_notarized: "notarized_prover ref_libs ref_config ref_app ref_session ref_prover CHR 0x00 ref_request ref_seen"
  using ref_good_prover by (simp add: good_prover_def)

theorem honest_run_over_http_witness: "\<exists>cs. buyer_main ref_libs ref_json ref_mpp ref_buyer = Verified cs"
proof -
  have session: "good_session ref_config ref_session ref_seen (wire_form ref_message)"
    unfolding ref_message_wire by (rule ref_good_session)
  have prover: "notarized_prover ref_libs ref_config ref_app ref_session ref_prover CHR 0x00
      (buyer_request ref_json ref_buyer) ref_seen"
    unfolding ref_buyer_request by (rule ref_notarized)
  have body: "pv_body ref_prover = message_body ref_message" unfolding ref_message_wire by (rule ref_sel)
  show ?thesis
    by (rule honest_run_over_http [OF ref_run_laws ref_deployed ref_message_ok session prover body ref_paid ref_good_buyer])
qed

text \<open>
  C35. An interim response breaks an honest sale: if the upstream sends a response without a
  body (such as 103 Early Hints) before its answer, the claim the notary signs has the status of
  the interim response and the digest of the whole answer with its head, so that the paid
  delivery of an honest reseller, who hands on the answer's payload, is rejected by every
  buyer, unless the two byte strings collide under SHA-256.
\<close>

theorem interim_response_rejected:
  fixes J :: "'v json_lib"
  assumes "run_laws L M" and "app_mode st = Honest"
    and "interim i" and "start_words i = (v, show_radix 10 n, reason)" and "n < 2 ^ 16"
    and "good_session cfg N seen (wire_form i @ wire_form m)"
    and "notarized_prover L cfg st N P fill body seen" and "pv_body P = message_body m"
    and "presented M headers = Some c" and "verify_credential M c = Inr receipt"
  shows "unat (status_code (wire_form i @ wire_form m)) = n \<and>
     (\<exists>reply. fst (messages L J M P st headers body []) = Inr reply \<and> reply_status reply = 200 \<and>
        ((\<exists>cs. judge_response L J M k h q (as_response J reply) = Rejected cs) \<or>
         sha_collision L (wire_form m) (message_body m)))"
proof
  have "head_ok i" using assms(3) by (simp add: interim_def well_formed_def)
  from status_code_wire [OF this assms(4,5)] assms(5)
  show "unat (status_code (wire_form i @ wire_form m)) = n"
    by (simp add: unsigned_of_nat take_bit_nat_eq_self)
  have "message_body m \<noteq> wire_form m" using wire_form_nonempty [of m] by auto
  then have "pv_body P \<noteq> decoded_body (wire_form i @ wire_form m)"
    by (simp add: assms(8) decoded_after_interim [OF assms(3)])
  from differing_body_rejected [OF assms(1,2,6,7) this assms(9,10), of J k h q]
  show "\<exists>reply. fst (messages L J M P st headers body []) = Inr reply \<and> reply_status reply = 200 \<and>
        ((\<exists>cs. judge_response L J M k h q (as_response J reply) = Rejected cs) \<or>
         sha_collision L (wire_form m) (message_body m))"
    by (simp add: assms(8) decoded_after_interim [OF assms(3)])
qed

definition ref_hints :: http_message where
  "ref_hints = \<lparr>start_words = (''HTTP/1.1'', ''103'', ''Early Hints''),
     header_fields = [(''Link'', '' </style.css>; rel=preload'')], framing_of = Plain []\<rparr>"

definition ref_hinted :: notary_env where
  "ref_hinted = ref_session\<lparr>nv_transcript := Some (ref_seen, wire_form ref_hints @ wire_form ref_message)\<rparr>"

definition ref_hinted_prover :: prover_env where
  "ref_hinted_prover = ref_prover\<lparr>pv_attestation :=
     concat (written (snd (notarize_session ref_libs ref_config ref_hinted [])))\<rparr>"

lemma ref_hints_interim: "interim ref_hints"
proof -
  have "\<not> declares_chunked (''Link'', v)" for v
    unfolding declares_chunked_def by (simp add: to_ascii_lowercase_def)
  then show ?thesis
    by (simp add: interim_def well_formed_def head_simps ref_hints_def graphic_def ascii_def)
qed

theorem interim_response_rejected_witness:
  "\<exists>reply. fst (messages ref_libs ref_json ref_mpp ref_hinted_prover ref_app ref_paid_headers ref_request []) = Inr reply \<and>
     reply_status reply = 200 \<and>
     ((\<exists>cs. judge_response ref_libs ref_json ref_mpp (public_key_hex ref_libs ref_notary) ''api.anthropic.com''
          (sha256_hex ref_libs ref_request) (as_response ref_json reply) = Rejected cs) \<or>
      sha_collision ref_libs (wire_form ref_message) (message_body ref_message))"
proof -
  have words: "start_words ref_hints = (''HTTP/1.1'', show_radix 10 103, ''Early Hints'')"
  proof -
    have "show_radix 10 103 = ''103''" by code_simp
    then show ?thesis by (simp add: ref_hints_def)
  qed
  have small: "(103 :: nat) < 2 ^ 16" by simp
  have session: "good_session ref_config ref_hinted ref_seen (wire_form ref_hints @ wire_form ref_message)"
    using ref_good_session by (simp add: good_session_def ref_hinted_def)
  have prover: "notarized_prover ref_libs ref_config ref_app ref_hinted ref_hinted_prover CHR 0x00 ref_request ref_seen"
    using ref_notarized by (simp add: notarized_prover_def ref_hinted_prover_def)
  have body: "pv_body ref_hinted_prover = message_body ref_message"
    by (simp add: ref_hinted_prover_def ref_message_wire ref_sel)
  from interim_response_rejected [OF ref_run_laws ref_sel(2) ref_hints_interim words small session prover body ref_paid]
  show ?thesis by blast
qed

end
