(* ===== verification/Provenance.thy ===== *)
theory Provenance
  imports Protocol
begin

text \<open>
  Receipts of any shape: the inductive relation \<open>genuine\<close> says that bytes are the value of a
  node, computed from nothing but what the notary witnessed. In an accepted receipt with
  distinct ids and no cycle, bytes with a node's digest are genuine for it, as long as no two
  of the strings that were handled in the purchase collide under the hash.
\<close>

inductive genuine ::
  "libs \<Rightarrow> 'v json_lib \<Rightarrow> notary_config \<Rightarrow> notary_env list \<Rightarrow> node list \<Rightarrow> node_ident \<Rightarrow> bytes \<Rightarrow> bool"
  for L :: libs and J :: "'v json_lib" and cfg :: notary_config and Es :: "notary_env list"
    and ns :: "node list"
where
  leg: "n \<in> set ns \<Longrightarrow> node_proof_of n = Leg att \<Longrightarrow> E \<in> set Es \<Longrightarrow> witnessed L cfg E (claim att) \<Longrightarrow>
     nv_transcript E = Some (sent, received) \<Longrightarrow>
     genuine L J cfg Es ns (node_id n) (decoded_body received)"
| interior: "n \<in> set ns \<Longrightarrow> node_proof_of n = Interior (Recompute f) \<Longrightarrow>
     length ins = length (inputs n) \<Longrightarrow>
     (\<forall>j < length ins. genuine L J cfg Es ns (inputs n ! j) (ins ! j)) \<Longrightarrow>
     recompute J f ins = Some out \<Longrightarrow> genuine L J cfg Es ns (node_id n) out"

text \<open>The byte strings a purchase involves.\<close>

definition handled :: "'v json_lib \<Rightarrow> world \<Rightarrow> purchase \<Rightarrow> bytes set" where
  "handled J w b =
     {bought_body b} \<union> snd ` set (bought_materials b)
     \<union> {decoded_body received | E sent received.
          E \<in> set (sessions w) \<and> nv_transcript E = Some (sent, received)}
     \<union> {out. \<exists>f ins. recompute J f ins = Some out}"

text \<open>Acyclic graphs can be followed by induction.\<close>

lemma dependsI:
  "hm_get m a = Some n \<Longrightarrow> node_proof_of n = Interior ip \<Longrightarrow> c \<in> set (inputs n) \<Longrightarrow> (a, c) \<in> depends m"
  by (simp add: depends_def)

lemma finite_depends: "finite (depends m)"
proof -
  have "depends m \<subseteq> (\<Union>(a, n) \<in> set m. {a} \<times> set (inputs n))"
    by (force simp: depends_def hm_get_def dest: map_of_SomeD)
  then show ?thesis by (rule finite_subset) auto
qed

lemma depends_wf: "acyclic (depends m) \<Longrightarrow> wf ((depends m)\<inverse>)"
  by (rule finite_acyclic_wf_converse [OF finite_depends])

lemma node_map_distinct:
  assumes "distinct (map node_id ns)" and "n \<in> set ns"
  shows "hm_get (node_map ns) (node_id n) = Some n"
proof -
  have "hm_get (node_map ns) = map_of (map (\<lambda>n. (node_id n, n)) ns)"
    unfolding node_map_def using assms(1) by (intro hm_get_collect_distinct) (simp add: comp_def)
  then show ?thesis using assms by (simp add: comp_def)
qed

lemma sha256_hex_inj:
  "hex_law L \<Longrightarrow> inj_on (sha256 L) S \<Longrightarrow> x \<in> S \<Longrightarrow> y \<in> S \<Longrightarrow> sha256_hex L x = sha256_hex L y \<Longrightarrow> x = y"
  using sha256_hex_eqD [of L x y] by (auto simp: sha_collision_def inj_on_def)

lemma leg_digest_genuine:
  assumes hex: "hex_law L" and inv: "world_inv L J cfg w" and b: "b \<in> set (purchases w)"
    and inj: "inj_on (sha256 L) (handled J w b)"
    and n: "n \<in> set (nodes (bought_receipt b))" and leg: "node_proof_of n = Leg att"
    and x: "x \<in> handled J w b" and digest: "output_digest n = sha256_hex L x"
  shows "genuine L J cfg (sessions w) (nodes (bought_receipt b)) (node_id n) x"
proof -
  obtain E where E: "E \<in> set (sessions w)" "witnessed L cfg E (claim att)"
    using inv b n leg unfolding world_inv_def purchase_ok_def by blast
  then obtain sent received where conn: "nv_transcript E = Some (sent, received)"
      and c: "response_digest (claim att) = sha256_hex L (decoded_body received)"
    unfolding witnessed_def by (auto simp: witnessed_claim_def case_prod_unfold Let_def)
  have "decoded_body received \<in> handled J w b"
    using E(1) conn by (auto simp: handled_def)
  moreover have "sha256_hex L x = sha256_hex L (decoded_body received)"
    using accepts_leg(3) [OF bought_accepted [OF inv b] n leg] c digest by simp
  ultimately have "x = decoded_body received"
    using sha256_hex_inj [OF hex inj x] by blast
  then show ?thesis using genuine.leg [OF n leg E conn] by simp
qed

lemma interior_digest_genuine:
  assumes hex: "hex_law L" and inv: "world_inv L J cfg w" and b: "b \<in> set (purchases w)"
    and ids: "distinct (map node_id (nodes (bought_receipt b)))"
    and inj: "inj_on (sha256 L) (handled J w b)"
    and n: "n \<in> set (nodes (bought_receipt b))" and ip: "node_proof_of n = Interior (Recompute f)"
    and x: "x \<in> handled J w b" and digest: "output_digest n = sha256_hex L x"
    and IH: "\<And>n' x'. (node_id n, node_id n') \<in> depends (node_map (nodes (bought_receipt b))) \<Longrightarrow>
       n' \<in> set (nodes (bought_receipt b)) \<Longrightarrow> x' \<in> handled J w b \<Longrightarrow> output_digest n' = sha256_hex L x' \<Longrightarrow>
       genuine L J cfg (sessions w) (nodes (bought_receipt b)) (node_id n') x'"
  shows "genuine L J cfg (sessions w) (nodes (bought_receipt b)) (node_id n) x"
proof -
  let ?ns = "nodes (bought_receipt b)"
  obtain ins out where len: "length ins = length (inputs n)"
      and mats: "\<forall>j < length ins. (inputs n ! j, ins ! j) \<in> set (bought_materials b)
        \<and> (\<exists>n' \<in> set ?ns. node_id n' = inputs n ! j \<and> output_digest n' = sha256_hex L (ins ! j))"
      and out: "recompute J f ins = Some out" "output_digest n = sha256_hex L out"
    using interior_justified [OF bought_accepted [OF inv b, unfolded bought_expectation_def] ids n ip] by blast
  have "out \<in> handled J w b" using out(1) by (auto simp: handled_def)
  then have "x = out"
    using sha256_hex_inj [OF hex inj x] digest out(2) by metis
  moreover have "\<forall>j < length ins. genuine L J cfg (sessions w) ?ns (inputs n ! j) (ins ! j)"
  proof (intro allI impI)
    fix j assume j: "j < length ins"
    then obtain n' where n': "n' \<in> set ?ns" "node_id n' = inputs n ! j"
        "output_digest n' = sha256_hex L (ins ! j)"
      using mats by blast
    have "(node_id n, node_id n') \<in> depends (node_map ?ns)"
      unfolding n'(2) using j len by (intro dependsI [OF node_map_distinct [OF ids n] ip]) simp
    moreover have "(inputs n ! j, ins ! j) \<in> set (bought_materials b)" using mats j by blast
    then have "ins ! j \<in> snd ` set (bought_materials b)" by (rule image_eqI [rotated]) simp
    then have "ins ! j \<in> handled J w b" by (simp add: handled_def)
    ultimately show "genuine L J cfg (sessions w) ?ns (inputs n ! j) (ins ! j)"
      using IH [OF _ n'(1) _ n'(3)] n'(2) by simp
  qed
  ultimately show ?thesis using genuine.interior [OF n ip len _ out(1)] by simp
qed

lemma accepted_digest_genuine:
  assumes hex: "hex_law L" and inv: "world_inv L J cfg w" and b: "b \<in> set (purchases w)"
    and ids: "distinct (map node_id (nodes (bought_receipt b)))"
    and dag: "acyclic (depends (node_map (nodes (bought_receipt b))))"
    and inj: "inj_on (sha256 L) (handled J w b)"
    and n: "n \<in> set (nodes (bought_receipt b))" and x: "x \<in> handled J w b"
    and digest: "output_digest n = sha256_hex L x"
  shows "genuine L J cfg (sessions w) (nodes (bought_receipt b)) (node_id n) x"
  using n x digest
proof (induction "node_id n" arbitrary: n x rule: wf_induct_rule [OF depends_wf [OF dag]])
  case (1 n x)
  show ?case
  proof (cases "node_proof_of n")
    case (Leg att)
    show ?thesis by (rule leg_digest_genuine [OF hex inv b inj 1(2) Leg 1(3,4)])
  next
    case (Interior ip)
    then obtain f where "node_proof_of n = Interior (Recompute f)" by (cases ip) simp
    from interior_digest_genuine [OF hex inv b ids inj 1(2) this 1(3,4)] 1(1) show ?thesis by simp
  qed
qed

text \<open>The strings the hypothesis on collisions speaks of are finitely many.\<close>

lemma finite_handled: "finite (handled J w b)"
proof -
  have "{decoded_body received | E sent received. E \<in> set (sessions w) \<and> nv_transcript E = Some (sent, received)}
      \<subseteq> (\<lambda>E. decoded_body (snd (the (nv_transcript E)))) ` set (sessions w)"
    by force
  then have "finite {decoded_body received | E sent received. E \<in> set (sessions w) \<and> nv_transcript E = Some (sent, received)}"
    by (rule finite_subset) simp
  moreover have "{out. \<exists>f ins. recompute J f ins = Some out} \<subseteq> {''0'', ''1''}"
    using starts_with_yes_cases [of J] by (auto simp: recompute_def split: if_splits)
  then have "finite {out. \<exists>f ins. recompute J f ins = Some out}"
    by (rule finite_subset) simp
  ultimately show ?thesis
    unfolding handled_def by simp
qed

lemma accepted_body_genuine:
  assumes laws: "protocol_laws L cfg" and inv: "world_inv L J cfg w" and b: "b \<in> set (purchases w)"
    and "distinct (map node_id (nodes (bought_receipt b)))"
    and "acyclic (depends (node_map (nodes (bought_receipt b))))"
    and "inj_on (sha256 L) (handled J w b)"
  shows "genuine L J cfg (sessions w) (nodes (bought_receipt b)) (output_node (bought_receipt b)) (bought_body b)"
proof -
  obtain out where "hm_get (node_map (nodes (bought_receipt b))) (output_node (bought_receipt b)) = Some out"
      and "output_digest out = sha256_hex L (bought_body b)"
    using bought_accepted [OF inv b] by (auto simp: accepts_def bought_expectation_def buyer_expectation_def)
  moreover have "bought_body b \<in> handled J w b" by (simp add: handled_def)
  ultimately show ?thesis
    using accepted_digest_genuine [OF _ inv b assms(4-6), of out "bought_body b"] laws
      node_map_get_Some by (fastforce simp: protocol_laws_def)
qed

end
