(* ===== verification/Interior_Prover.thy ===== *)
theory Interior_Prover
  imports Core_Types
begin

text \<open>
  \<open>crates/provably-prover/src/lib.rs\<close>: the trait \<open>Prover\<close> and its one implementation, the
  publicly recomputable transform. The trait is the locale \<open>interior_prover\<close>.
\<close>

record recompute_prover =
  prover_fn_id :: string

definition recompute_new :: "string \<Rightarrow> recompute_prover" where
  "recompute_new f = \<lparr>prover_fn_id = f\<rparr>"

definition interior :: "recompute_prover \<Rightarrow> interior_proof" where
  "interior p = Recompute (prover_fn_id p)"

text \<open>
  A prover tells the verifier which transform to run again, and different transforms have
  different proofs.
\<close>

locale interior_prover =
  fixes transform :: "'p \<Rightarrow> string"
    and proof_of :: "'p \<Rightarrow> interior_proof"
  assumes fn_id_proof: "fn_id (proof_of p) = transform p"
begin

lemma proof_determines_transform: "proof_of p = proof_of q \<Longrightarrow> transform p = transform q"
  by (metis fn_id_proof)

lemma proof_eq_Recompute: "proof_of p = Recompute (transform p)"
  by (metis fn_id_proof interior_proof.exhaust interior_proof.sel)

end

interpretation recompute_prover: interior_prover prover_fn_id interior
  by unfold_locales (simp add: interior_def)

end
