(* ===== verification/Unit_Tests.thy ===== *)
theory Unit_Tests
  imports Reference_Run
begin

text \<open>
  The unit tests of \<open>provably-transport/src/notary.rs\<close> and \<open>examples/harness/src/lib.rs\<close>, as
  functions of the crates: each is the conjunction of its assertions. That they pass is a
  theorem about every lawful choice of the crates, not about one run.
\<close>

section \<open>The notary's tests\<close>

definition test_claim :: "libs \<Rightarrow> leg_claim" where
  "test_claim L =
     \<lparr>host = ''api.anthropic.com'', http_method = ''POST'', path = ''/v1/messages'',
      request_digest = sha256_hex L ''req'', response_digest = sha256_hex L ''resp'',
      response_status = 200, timestamp = ''2026-06-18T00:00:00Z''\<rparr>"

definition attest_then_verify_roundtrips :: "libs \<Rightarrow> bool" where
  "attest_then_verify_roundtrips L =
     (let n = from_seed L ''demo'';
          leg = attest L n (test_claim L)
      in is_ok (verify_proof L leg) \<and> notary_pubkey leg = Some (public_key_hex L n))"

definition tampered_claim_breaks_proof :: "libs \<Rightarrow> bool" where
  "tampered_claim_breaks_proof L =
     (let n = from_seed L ''demo'';
          leg = attest L n (test_claim L);
          leg = leg\<lparr>claim := (claim leg)\<lparr>response_status := 500\<rparr>\<rparr>
      in \<not> is_ok (verify_proof L leg))"

lemma from_seed_length: "sha256_law L \<Longrightarrow> length (signing_key (from_seed L seed)) = 32"
  by (simp add: from_seed_def sha256_law_def)

lemma roundtrip_test_passes:
  "hex_law L \<Longrightarrow> ed25519_law L \<Longrightarrow> sha256_law L \<Longrightarrow> attest_then_verify_roundtrips L"
  by (simp add: attest_then_verify_roundtrips_def Let_def verify_proof_attest from_seed_length is_ok_def)

section \<open>The harness's tests\<close>

text \<open>Reading back what was built into a \<open>serde_json\<close> value.\<close>

definition json_access_law :: "'v json_lib \<Rightarrow> bool" where
  "json_access_law J \<longleftrightarrow>
     (\<forall>kvs k v. distinct (map fst kvs) \<longrightarrow> (k, v) \<in> set kvs \<longrightarrow> jkey J (jobject J kvs) k = v) \<and>
     (\<forall>v vs. jpos J (jarray J (v # vs)) 0 = v) \<and>
     (\<forall>s. jas_str J (jstring J s) = Some s)"

definition answer_value :: "'v json_lib \<Rightarrow> string \<Rightarrow> 'v" where
  "answer_value J text = jobject J [(''content'',
     jarray J [jobject J [(''type'', jstring J ''text''), (''text'', jstring J text)]])]"

definition answer :: "'v json_lib \<Rightarrow> string \<Rightarrow> bytes" where
  "answer J text = jrender J (answer_value J text)"

definition test_texts :: "string list" where
  "test_texts = [''Yes, absolutely.'', ''  yes '' @ em_dash @ '' definitely'', ''No, it isn't.'',
     ''Probably yes'', ''Yes'']"

text \<open>The JSON of the test's answers parses to them, and \<open>not json\<close> does not parse.\<close>

definition answers_parse :: "'v json_lib \<Rightarrow> bool" where
  "answers_parse J \<longleftrightarrow>
     (\<forall>t \<in> set test_texts. jparse J (answer J t) = Some (answer_value J t)) \<and> jparse J ''not json'' = None"

definition starts_with_yes_classifies_the_answer :: "'v json_lib \<Rightarrow> bool" where
  "starts_with_yes_classifies_the_answer J \<longleftrightarrow>
     starts_with_yes J (answer J ''Yes, absolutely.'') = ''1'' \<and>
     starts_with_yes J (answer J (''  yes '' @ em_dash @ '' definitely'')) = ''1'' \<and>
     starts_with_yes J (answer J ''No, it isn't.'') = ''0'' \<and>
     starts_with_yes J (answer J ''Probably yes'') = ''0'' \<and>
     starts_with_yes J ''not json'' = ''0''"

definition recompute_dispatches_known_ids_only :: "'v json_lib \<Rightarrow> bool" where
  "recompute_dispatches_known_ids_only J \<longleftrightarrow>
     recompute J VERDICT_FN_ID [answer J ''Yes''] = Some ''1'' \<and> recompute J ''nope'' [''x''] = None"

lemma verdict_of_answer:
  assumes "json_access_law J" and "answers_parse J" and "t \<in> set test_texts"
  shows "starts_with_yes J (answer J t) =
     (if prefix ''yes'' (to_ascii_lowercase (trim_start t)) then ''1'' else ''0'')"
  using assms
  by (simp add: starts_with_yes_def answers_parse_def answer_value_def json_access_law_def Let_def)

lemma test_verdicts:
  "prefix ''yes'' (to_ascii_lowercase (trim_start ''Yes, absolutely.''))"
  "prefix ''yes'' (to_ascii_lowercase (trim_start (''  yes '' @ em_dash @ '' definitely'')))"
  "\<not> prefix ''yes'' (to_ascii_lowercase (trim_start ''No, it isn't.''))"
  "\<not> prefix ''yes'' (to_ascii_lowercase (trim_start ''Probably yes''))"
  "prefix ''yes'' (to_ascii_lowercase (trim_start ''Yes''))"
  by code_simp+

lemma harness_tests:
  assumes "json_access_law J" and "answers_parse J"
  shows "starts_with_yes_classifies_the_answer J \<and> recompute_dispatches_known_ids_only J"
proof -
  note verdict = verdict_of_answer [OF assms]
  have "starts_with_yes J ''not json'' = ''0''"
    using assms(2) by (simp add: starts_with_yes_def answers_parse_def)
  moreover have "recompute J ''nope'' [''x''] = None"
    by (simp add: recompute_def VERDICT_FN_ID_def)
  moreover have "recompute J VERDICT_FN_ID [answer J ''Yes''] = Some ''1''"
    using verdict [of "''Yes''"] test_verdicts(5) by (simp add: recompute_def test_texts_def)
  moreover note verdict [of "''Yes, absolutely.''"] verdict [of "''  yes '' @ em_dash @ '' definitely''"]
    verdict [of "''No, it isn't.''"] verdict [of "''Probably yes''"]
  ultimately show ?thesis
    using test_verdicts(1-4)
    by (simp only: starts_with_yes_classifies_the_answer_def recompute_dispatches_known_ids_only_def
        test_texts_def list.set insert_iff simp_thms if_True if_False)
qed

text \<open>The reference JSON satisfies both.\<close>

lemma ref_get_key_distinct:
  "distinct (map fst kvs) \<Longrightarrow> (k, v) \<in> set kvs \<Longrightarrow> jkey ref_json (jobject ref_json kvs) k = v"
  by (simp add: ref_json_def)

lemma ref_answers_parse: "answers_parse ref_json"
  unfolding answers_parse_def test_texts_def by code_simp

lemma ref_json_access: "json_access_law ref_json"
  by (simp add: json_access_law_def ref_json_def)

section \<open>They pass\<close>

text \<open>
  The unit tests of the repository pass whatever the crates do, as far as they do what they
  document: the notary's round trip always, its tampering test exactly if the signature made for
  one message does not verify over the tampered one, and the harness's tests with any JSON
  library that reads back what it wrote.
\<close>

theorem unit_tests_pass:
  assumes "hex_law L" and "ed25519_law L" and "sha256_law L" and "json_access_law J" and "answers_parse J"
  shows "attest_then_verify_roundtrips L \<and>
     (let sk = signing_key (from_seed L ''demo''); c = test_claim L
      in tampered_claim_breaks_proof L \<longleftrightarrow>
           \<not> vk_verify L (sk_public L sk) (signing_message L (c\<lparr>response_status := 500\<rparr>))
                (sk_sign L sk (signing_message L c))) \<and>
     starts_with_yes_classifies_the_answer J \<and> recompute_dispatches_known_ids_only J"
proof -
  let ?n = "from_seed L ''demo''"
  let ?leg = "attest L ?n (test_claim L)"
  let ?bad = "?leg\<lparr>claim := (test_claim L)\<lparr>response_status := 500\<rparr>\<rparr>"
  have key: "length (signing_key ?n) = 32" by (rule from_seed_length) (rule assms(3))
  have "(\<exists>pk. signed_under L pk ?bad) \<longleftrightarrow>
      vk_verify L (sk_public L (signing_key ?n)) (signing_message L ((test_claim L)\<lparr>response_status := 500\<rparr>))
        (sk_sign L (signing_key ?n) (signing_message L (test_claim L)))"
    using assms(1,2) key by (auto simp: signed_under_def public_key_hex_def ed25519_law_def)
  then have "tampered_claim_breaks_proof L \<longleftrightarrow>
      \<not> vk_verify L (sk_public L (signing_key ?n)) (signing_message L ((test_claim L)\<lparr>response_status := 500\<rparr>))
        (sk_sign L (signing_key ?n) (signing_message L (test_claim L)))"
    unfolding tampered_claim_breaks_proof_def Let_def verify_proof_ok_iff attest_sel by blast
  then show ?thesis
    using roundtrip_test_passes [OF assms(1-3)] harness_tests [OF assms(4,5)] by (simp add: Let_def)
qed

theorem unit_tests_pass_witness:
  "attest_then_verify_roundtrips ref_libs \<and> starts_with_yes_classifies_the_answer ref_json"
  using unit_tests_pass [OF ref_laws(2,4,1) ref_json_access ref_answers_parse] by blast

end
