(* ===== verification/Spec2Isabelle.thy ===== *)
theory Spec2Isabelle
  imports Delivery_Properties Verifier_Properties Wire_Properties Session_Properties
    Reseller_Properties Server_Properties Disclosure_Properties
    Joint_Properties Request_Properties Upstream_Properties
    Provenance Interior_Prover Unit_Tests
begin

text \<open>
  Provably sells an answer together with a proof of where it came from. A \<^emph>\<open>reseller\<close>
  (\<open>tlsn/reseller\<close>) takes a payment, calls an upstream HTTPS service as the prover of a
  TLSNotary session, and returns the result of a public transform of the upstream's answer,
  with a receipt; a \<^emph>\<open>notary\<close> (\<open>tlsn/notary\<close>) proxies that session and signs a claim about the
  bytes that crossed it; a \<^emph>\<open>buyer\<close> (\<open>examples/buyer\<close>) re-runs the transform and verifies the
  receipt. The crates \<open>provably-core\<close>, \<open>-transport\<close>, \<open>-prover\<close>, \<open>-verifier\<close> and \<open>-mpp\<close> hold
  the data and the checks, \<open>examples/harness\<close> the transform.

  \<^bold>\<open>Layout.\<close> Theories follow the crates; function and field names are the source's.

    \<^item> \<open>Prelude\<close>: strings as byte lists, faults (an error passed on, or a panic), scripts of
      external calls with early return, and their verification-condition rules.
    \<^item> \<open>Rust_Std\<close>, \<open>Rust_Text\<close>, \<open>Rust_Map\<close>: the standard library as far as it is used (windows,
      splitting, Unicode trimming, UTF-8, integer parsing, hash and B-tree maps; the maps share
      the locale \<open>string_map\<close>).
    \<^item> \<open>Crates\<close>: the third-party crates as records of functions (\<open>libs\<close>, \<open>json_lib\<close>), each with
      its documented law; no definition of theirs is made up.
    \<^item> \<open>Core_Types\<close>, \<open>Core\<close>: \<open>crates/provably-core/src/lib.rs\<close>. Headers share the locale
      \<open>header_codec\<close>.
    \<^item> \<open>Transport\<close>, \<open>Interior_Prover\<close>: \<open>crates/provably-transport\<close>, \<open>crates/provably-prover\<close>;
      the traits are the locales \<open>attester\<close> and \<open>interior_prover\<close>.
    \<^item> \<open>Verifier\<close>: \<open>crates/provably-verifier/src/lib.rs\<close>, with its specification \<open>accepts\<close>.
    \<^item> \<open>Mpp_Seams\<close>: \<open>crates/provably-mpp/src/lib.rs\<close>. \<open>Harness\<close>: \<open>examples/harness/src/lib.rs\<close>.
    \<^item> \<open>Http_Message\<close>, \<open>Notary_Service\<close>, \<open>Notary_Server\<close>: \<open>tlsn/notary/src/main.rs\<close>, its HTTP
      reading functions, \<open>notarize_session\<close>, and \<open>main\<close> with the accept loop and its tasks.
    \<^item> \<open>Prover_Session\<close>, \<open>Reseller\<close>, \<open>Reseller_Server\<close>: \<open>tlsn/reseller/src/main.rs\<close>, \<open>run_prover\<close>,
      the handler \<open>messages\<close> with what it calls, and \<open>main\<close> with the routes. \<open>Redaction\<close>: what
      the notary sees of the request. \<open>Session_Order\<close>: the phases of a session on both sides.
    \<^item> \<open>Buyer\<close>, \<open>Buyer_Report\<close>: \<open>examples/buyer/src/main.rs\<close>, the decision and the printed report.
    \<^item> \<open>Delivery\<close>, \<open>Honest_Run\<close>: reseller and buyer, and all three, put together.
      \<open>Protocol\<close>: a step relation of a notary, adversarial sellers and buyers, its reachable
      states and their invariant; \<open>Concurrent_Protocol\<close>: the same with the notary's interleaved
      server, and the simulation between the two. \<open>Provenance\<close>: values computed from witnessed
      bodies only. \<open>Limits\<close>: receipts that are accepted and should not be.
      \<open>Joint_Session\<close>: a notarization from both ends, in an environment that interleaves the two
      sides and carries the attestation back. \<open>Selective_Disclosure\<close>: sessions in which the prover discloses a part only.
    \<^item> \<open>Leg_Search\<close>, \<open>Node_Order\<close>, \<open>Receipt_Types\<close>: the iterations of the search
      for legs, the order of a receipt's nodes, and the shape of the data the program produces.
    \<^item> \<open>Http_Grammar\<close>, \<open>Upstream_Messages\<close>: HTTP/1.1 messages as they are built, against which the
      notary's reading functions are measured, and where they meet the reseller's HTTP client.
    \<^item> \<open>Unit_Tests\<close>: the repository's unit tests as functions of the crates, and that they pass.
    \<^item> \<open>Reference_Crates\<close>, \<open>Reference_Run\<close>: concrete crates that satisfy all laws, and one
      concrete purchase; only the witnesses use them.
    \<^item> the theories named \<open>_Properties\<close>, and this one: the properties, numbered C1 to C40, and
      further theorems of the same kind without a number.

  \<^bold>\<open>State and effects.\<close> \<open>Config\<close> and \<open>App\<close> are the records \<open>notary_config\<close> and \<open>app\<close>. A session
  is a function from the list of calls made so far to a result and the extended list; which
  calls fail, and what they yield, is a record (\<open>notary_env\<close>, \<open>prover_env\<close>, \<open>buyer_env\<close>), so a
  theorem about all records is about all courses a session can take. Every \<open>?\<close>, early return,
  \<open>expect\<close> and out-of-domain operation is a branch. \<open>HashMap\<close>s are association lists whose
  order is never observed; \<open>u16\<close> is a 16-bit word; \<open>usize\<close> parsing is bounded by \<open>2 ^ 64\<close>.
  The notary's accept loop is a function of the list of events that happen: a connection is
  accepted, a session begins its next call, the call returns, a session ends, \<open>accept\<close> fails;
  its theorems are about all lists.
  No await of the program has a time limit. A session function (\<open>notarize_session\<close>,
  \<open>run_prover\<close>, \<open>messages\<close>) describes the courses in which every call made returns, with a
  value or an error; a call that never returns ends the trace there, and in the accept loop it is
  a \<open>Returned\<close> event that never comes: its task stays where it is. A statement that names the
  result of a session, C4 among them, is about a course in which every call returns; C6, C15
  and C21 are about every moment of a run. Nothing is claimed to end by itself.
  Loops are total functions: \<open>leg_walk\<close> terminates because every id is expanded once,
  \<open>dechunk_loop\<close> because every round consumes a line end; no fuel is used in the model (the
  reader of \<open>Reference_Crates\<close>, used by witnesses only, has some: twice the length of the input).

  \<^bold>\<open>What the properties show.\<close> C1 to C6 are end to end: accepted legs were witnessed, what
  is delivered on an acyclic receipt is computed from witnessed bodies only, the verdict of a
  two-node receipt is the transform of the witnessed answer, an honest run is verified whatever
  way the upstream frames its answer, an honest reseller's replies are verified whatever fails on
  the way, and with the notary's interleaved server nothing is accepted before it was signed.
  C7 to C12: the verifier refines its specification, the search for legs is exact and takes a
  known number of iterations, the order of nodes is irrelevant, a verified outcome of the buyer
  is justified, and substitution is rejected. C13 to C16: what a failed accept does to the notary,
  what is signed, that the prover reads just that, and in which order things happen. C17 to C20:
  the disclosure, its effect on the claim, that the key's length is all it tells of the key,
  and what happens when the key is not found. C21 to C26: the reseller: payment before
  upstream at every moment, complete and well-formed deliveries, status codes, the empty key,
  start-up. C27 to C32: HTTP messages read back from their wire form, arbitrary and truncated
  input, the configured headers, the transform, and what the buyer's terminal shows. C33 to C40:
  behaviour a user should know of, stated as it is: what a seller gains by hiding parts of the
  transcript, what an interim response does to an honest one, the graph's shape, text printed
  unescaped, repeated ids, and the payment no signature covers; the theorems without a number
  add repeated API keys, cycles, self-notarized sellers, the fields no check covers, tampered
  claims, key distribution, the justification of every computed node, what a session writes to
  its socket, the header codecs, and the notary's start-up.

  \<^bold>\<open>Assumptions.\<close> Properties name the laws they need: round trips of encodings, injectivity of
  the claim's JSON, lengths and correctness of signatures, hexadecimal digits, that the
  beginning of a JSON object is no JSON, and that a router runs registered handlers only; equality of digests is never turned into equality of bytes
  without the alternative \<open>sha_collision\<close>. In \<open>Protocol\<close> the seller can present any receipt,
  limited by one thing: a leg whose signature verifies under the notary's key carries a message
  the notary signed (\<open>sellable\<close>). A transcript is the one the notary is given: where the prover
  disclosed a part only, the other positions hold a filler (\<open>withheld\<close>), and a witnessed body is
  the body of that transcript; C33 and C34 show what this costs.

  \<^bold>\<open>Not modelled.\<close> The TLSNotary protocol, TLS, \<open>tokio\<close>, \<open>hyper\<close>, \<open>axum\<close>, the payment SDK and
  the wallet are parameters. How \<open>axum::serve\<close> schedules requests is its own: statements on the
  reseller are about one request, and its handlers share only a state none of them changes.
  Logging (but for the notary's line on a failed session) and the
  buyer's pause for the faucet are left out.
\<close>

section \<open>The protocol end to end\<close>

text \<open>
  C1. Every leg of every receipt a buyer ever verified was witnessed by the notary: in any
  reachable state of notary, sellers and buyers, there is a session of the notary in which the
  connection went to the pinned upstream and the transcript disclosed to the notary has, as
  decoded bodies, the bytes the leg's digests are of.
\<close>

theorem accepted_legs_witnessed:
  assumes "protocol_laws L cfg" and "reachable L J cfg w" and "b \<in> set (purchases w)"
    and "n \<in> set (nodes (bought_receipt b))" and "node_proof_of n = Leg att"
  shows "\<exists>E \<in> set (sessions w). \<exists>sent received.
     nv_server_name E = Some (cfg_upstream_host cfg) \<and> nv_transcript E = Some (sent, received) \<and>
     claim att = witnessed_claim L (cfg_upstream_host cfg) sent received (nv_time E) \<and>
     output_digest n = sha256_hex L (decoded_body received)"
proof -
  have inv: "world_inv L J cfg w" by (rule reachable_inv [OF assms(2,1)])
  then obtain E where E: "E \<in> set (sessions w)" "witnessed L cfg E (claim att)"
    using assms(3-5) unfolding world_inv_def purchase_ok_def by blast
  from accepts_leg(3) [OF bought_accepted [OF inv assms(3)] assms(4,5)] show ?thesis
    using E unfolding witnessed_def by (metis witnessed_claim_sel(3))
qed

theorem accepted_legs_witnessed_witness:
  "\<exists>E \<in> set (sessions ref_world). \<exists>sent received.
     nv_server_name E = Some (cfg_upstream_host ref_config) \<and> nv_transcript E = Some (sent, received)"
proof -
  have "ref_bought \<in> set (purchases ref_world)"
      and "nodes (bought_receipt ref_bought) ! 0 \<in> set (nodes (bought_receipt ref_bought))"
      and "node_proof_of (nodes (bought_receipt ref_bought) ! 0) = Leg ref_signed"
    by (simp_all add: ref_world_def ref_bought_def make_bundle_def)
  from accepted_legs_witnessed [OF ref_protocol_laws ref_reachable this] show ?thesis by blast
qed

text \<open>
  C2. What a buyer gets from a receipt of any shape: if ids are distinct and the graph has no
  cycle, the delivered bytes are genuine for the sold node, that is, computed by the known
  transforms from nothing but response bodies the notary witnessed at the pinned upstream (in the
  transcripts disclosed to it), unless two of the strings handled in this purchase collide under SHA-256.
\<close>

theorem verified_body_genuine:
  assumes "protocol_laws L cfg" and "reachable L J cfg w" and "b \<in> set (purchases w)"
    and "distinct (map node_id (nodes (bought_receipt b)))"
    and "acyclic (depends (node_map (nodes (bought_receipt b))))"
    and "inj_on (sha256 L) (handled J w b)"
  shows "genuine L J cfg (sessions w) (nodes (bought_receipt b)) (output_node (bought_receipt b)) (bought_body b)"
  by (rule accepted_body_genuine [OF assms(1) reachable_inv [OF assms(2,1)] assms(3-6)])

lemma ref_handled: "inj_on (sha256 ref_libs) (handled ref_json ref_world ref_bought)"
proof -
  have "handled ref_json ref_world ref_bought \<subseteq> {''0'', ''1'', ref_answer ''Yes''}"
    using starts_with_yes_cases [of ref_json]
    by (auto simp: handled_def ref_bought_def ref_world_def ref_sel ref_decoded recompute_def split: if_splits)
  moreover have "inj_on (sha256 ref_libs) {''0'', ''1'', ref_answer ''Yes''}"
  proof -
    have "ref_sha ''0'' \<noteq> ref_sha ''1''" "ref_sha ''0'' \<noteq> ref_sha (ref_answer ''Yes'')"
      "ref_sha ''1'' \<noteq> ref_sha (ref_answer ''Yes'')"
      by code_simp+
    then show ?thesis by auto
  qed
  ultimately show ?thesis by (rule inj_on_subset [rotated])
qed

theorem verified_body_genuine_witness:
  "genuine ref_libs ref_json ref_config [ref_session] (nodes (bought_receipt ref_bought)) ''verdict'' ''1''"
proof -
  let ?ns = "nodes (bought_receipt ref_bought)"
  have "depends (node_map ?ns) \<subseteq> {(''verdict'', ''leg0'')}"
    by (auto simp: depends_def ref_bought_def bundle_map split: if_splits)
  then have "acyclic (depends (node_map ?ns))"
    by (rule acyclic_subset [rotated]) (simp add: acyclic_def trancl_insert2)
  moreover have "distinct (map node_id ?ns)" and "ref_bought \<in> set (purchases ref_world)"
    by (simp_all add: ref_world_def ref_bought_def make_bundle_def)
  ultimately have "genuine ref_libs ref_json ref_config (sessions ref_world) ?ns
      (output_node (bought_receipt ref_bought)) (bought_body ref_bought)"
    using verified_body_genuine [OF ref_protocol_laws ref_reachable _ _ _ ref_handled] by blast
  then show ?thesis by (simp add: ref_bought_def ref_world_def)
qed

text \<open>
  C3. What a buyer of a two-node receipt gets, in any reachable state: the notary saw a
  connection to the pinned upstream whose request body, as disclosed, has the digest of the
  buyer's request, and the delivered bytes are the public transform of the response body
  disclosed there, up to a SHA-256 collision.
\<close>

theorem verified_verdict_genuine:
  assumes "protocol_laws L cfg" and "reachable L J cfg w" and "b \<in> set (purchases w)"
    and "two_node (bought_receipt b) l v" and "node_proof_of l = Leg att"
    and "node_proof_of v = Interior (Recompute f)"
  shows "\<exists>E \<in> set (sessions w). \<exists>sent received answer.
     nv_server_name E = Some (cfg_upstream_host cfg) \<and> nv_transcript E = Some (sent, received) \<and>
     sha256_hex L (decoded_body sent) = bought_request b \<and>
     (answer = decoded_body received \<or> sha_collision L answer (decoded_body received)) \<and>
     (bought_body b = starts_with_yes J answer \<or> sha_collision L (bought_body b) (starts_with_yes J answer))"
proof -
  have hex: "hex_law L" using assms(1) by (simp add: protocol_laws_def)
  have inv: "world_inv L J cfg w" by (rule reachable_inv [OF assms(2,1)])
  obtain cs where cs: "judge_bundle L J (public_key_hex L (cfg_notary cfg)) (cfg_upstream_host cfg)
      (bought_request b) (bought_payment b) (bought_body b) (bought_receipt b) (bought_materials b) = Verified cs"
    using inv assms(3) by (auto simp: world_inv_def buyer_verifies_def)
  have "l \<in> set (nodes (bought_receipt b))" using assms(4) by (simp add: two_node_def)
  then obtain E where E: "E \<in> set (sessions w)" "witnessed L cfg E (claim att)"
    using inv assms(3,5) unfolding world_inv_def purchase_ok_def by blast
  obtain sent received where conn: "nv_server_name E = Some (cfg_upstream_host cfg)"
      "nv_transcript E = Some (sent, received)"
    and c: "claim att = witnessed_claim L (cfg_upstream_host cfg) sent received (nv_time E)"
    using E(2) unfolding witnessed_def by blast
  obtain answer where "sha256_hex L answer = response_digest (claim att)"
    and body: "bought_body b = starts_with_yes J answer \<or> sha_collision L (bought_body b) (starts_with_yes J answer)"
    using two_node_verified(1) [OF assms(4-6) hex cs] by blast
  then have "answer = decoded_body received \<or> sha_collision L answer (decoded_body received)"
    by (intro sha256_hex_eqD [OF hex]) (simp add: c)
  moreover have "sha256_hex L (decoded_body sent) = bought_request b"
    using two_node_verified(2) [OF assms(4-6) hex cs] by (simp add: c)
  ultimately show ?thesis using E(1) conn body by blast
qed

theorem verified_verdict_genuine_witness:
  "\<exists>E \<in> set (sessions ref_world). \<exists>sent received. nv_transcript E = Some (sent, received) \<and>
     sha256_hex ref_libs (decoded_body sent) = bought_request ref_bought"
proof -
  let ?l = "nodes (bought_receipt ref_bought) ! 0" and ?v = "nodes (bought_receipt ref_bought) ! 1"
  have "ref_bought \<in> set (purchases ref_world)" and "two_node (bought_receipt ref_bought) ?l ?v"
      and "node_proof_of ?l = Leg ref_signed" and "node_proof_of ?v = Interior (Recompute VERDICT_FN_ID)"
    by (simp_all add: ref_world_def ref_bought_def make_bundle_def two_node_def)
  from verified_verdict_genuine [OF ref_protocol_laws ref_reachable this] show ?thesis by blast
qed

end
